theory Spec2Isabelle
  imports Main "HOL-Library.AList" "HOL-Library.Sublist"
begin

section \<open>The Neon serverless driver of the PostgreSQL adapter\<close>

text \<open>
  A shallow embedding of \<^verbatim>\<open>src/adapter-postgres/drivers/neon.ts\<close>. The adapter is glue
  between an authentication library and two collaborators bound to the connection URL:
  the one-shot query function \<^verbatim>\<open>sql = neon(connectionUrl)\<close> and the dedicated connection
  \<^verbatim>\<open>new Client(connectionUrl)\<close>. Both are parameters of the model (the record \<open>env\<close>);
  every call to them is logged in order, and every call may fail with a thrown value.
\<close>

subsection \<open>JavaScript values, rows and thrown values\<close>

text \<open>
  The values that cross the adapter's boundary: query arguments, column values and the
  values a collaborator throws. An object is the list of its own enumerable properties
  in \<^verbatim>\<open>Object.keys\<close> order; functions are not values of the model.
\<close>

datatype jsval =
    JUndefined
  | JNull
  | JBool bool
  | JNum int
  | JStr string
  | JArr "jsval list"
  | JObj "(string \<times> jsval) list"

type_synonym row = "(string \<times> jsval) list"

text \<open>
  What an adapter operation can fail with: a value thrown by a collaborator and passed
  on unchanged, \<^verbatim>\<open>new LuciaError(kind)\<close>, \<^verbatim>\<open>new Error(message)\<close>, or the \<^verbatim>\<open>TypeError\<close> the
  language raises when a property of \<^verbatim>\<open>null\<close>/\<^verbatim>\<open>undefined\<close> is read or a non-function is
  called.
\<close>

datatype exn =
    Thrown jsval
  | LuciaError string
  | JsError string
  | TypeError

text \<open>
  \<^verbatim>\<open>error.code\<close>, \<^verbatim>\<open>error.detail\<close>: reading a property of \<^verbatim>\<open>undefined\<close> or \<^verbatim>\<open>null\<close> raises; a
  primitive or an array has no own property of these two names.
\<close>

fun get_prop :: "jsval \<Rightarrow> string \<Rightarrow> exn + jsval" where
  "get_prop JUndefined p = Inl TypeError"
| "get_prop JNull p = Inl TypeError"
| "get_prop (JObj kvs) p = Inr (case map_of kvs p of None \<Rightarrow> JUndefined | Some v \<Rightarrow> v)"
| "get_prop v p = Inr JUndefined"

text \<open>
  \<^verbatim>\<open>d?.includes(s)\<close>: \<^verbatim>\<open>undefined\<close> when \<open>d\<close> is nullish; the substring test of
  \<^verbatim>\<open>String.prototype.includes\<close> on a string; the membership test of
  \<^verbatim>\<open>Array.prototype.includes\<close> on an array; on any other value \<^verbatim>\<open>d.includes\<close> is not a
  function and the call raises.
\<close>

fun includes_opt :: "jsval \<Rightarrow> string \<Rightarrow> exn + jsval" where
  "includes_opt JUndefined s = Inr JUndefined"
| "includes_opt JNull s = Inr JUndefined"
| "includes_opt (JStr t) s = Inr (JBool (sublist s t))"
| "includes_opt (JArr xs) s = Inr (JBool (JStr s \<in> set xs))"
| "includes_opt v s = Inl TypeError"

fun truthy :: "jsval \<Rightarrow> bool" where
  "truthy JUndefined = False"
| "truthy JNull = False"
| "truthy (JBool b) = b"
| "truthy (JNum n) = (n \<noteq> 0)"
| "truthy (JStr s) = (s \<noteq> [])"
| "truthy v = True"

text \<open>
  The condition of the three \<^verbatim>\<open>catch\<close> blocks,
  \<^verbatim>\<open>error.code === code && error.detail?.includes(sub)\<close>: \<^verbatim>\<open>&&\<close> does not evaluate its
  right operand when the left one is false.
\<close>

definition violation :: "jsval \<Rightarrow> string \<Rightarrow> string \<Rightarrow> exn + bool" where
  "violation error code sub =
     (case get_prop error ''code'' of
        Inl t \<Rightarrow> Inl t
      | Inr c \<Rightarrow>
          if c = JStr code then
            (case get_prop error ''detail'' of
               Inl t \<Rightarrow> Inl t
             | Inr d \<Rightarrow>
                 (case includes_opt d sub of
                    Inl t \<Rightarrow> Inl t
                  | Inr b \<Rightarrow> Inr (truthy b)))
          else Inr False)"

subsection \<open>Statements\<close>

text \<open>
  One constructor for each template literal of the source, holding what the literal
  interpolates; \<open>sql_text\<close> below gives the text the source builds.
\<close>

datatype stmt =
    Begin
  | Commit
  | Rollback
  | SelectById string
  | SelectByUserId string
  | InsertInto string "string list" "string list"
  | DeleteById string
  | DeleteByUserId string
  | UpdateById string "string list" "string list" nat
  | SelectUserJoin string string

text \<open>Decimal digits of a number, as \<^verbatim>\<open>`${n}`\<close> prints them.\<close>

definition digit_char :: "nat \<Rightarrow> char" where
  "digit_char d = char_of (48 + d)"

fun string_of_nat :: "nat \<Rightarrow> string" where
  "string_of_nat n =
     (if n < 10 then [digit_char n]
      else string_of_nat (n div 10) @ [digit_char (n mod 10)])"

declare string_of_nat.simps [simp del]

text \<open>The number a string of digits stands for.\<close>

definition nat_of_string :: "string \<Rightarrow> nat" where
  "nat_of_string s = foldl (\<lambda>a c. 10 * a + (of_char c - 48)) 0 s"

text \<open>\<^verbatim>\<open>Array.prototype.join(sep)\<close>; an array interpolated into a template is joined by a comma.\<close>

fun join :: "string \<Rightarrow> string list \<Rightarrow> string" where
  "join sep [] = []"
| "join sep [x] = x"
| "join sep (x # y # ys) = x @ sep @ join sep (y # ys)"

text \<open>
  Modelled from the spec: \<^verbatim>\<open>getSetArgs\<close> of \<^verbatim>\<open>../utils\<close>, which is not among the sources;
  the spec calls it the builder of the \<^verbatim>\<open>field = value\<close> list of an \<^verbatim>\<open>UPDATE\<close>.
\<close>

definition getSetArgs :: "string list \<Rightarrow> string list \<Rightarrow> string" where
  "getSetArgs fields placeholders =
     join '','' (map (\<lambda>(f, p). f @ '' = '' @ p) (zip fields placeholders))"

fun sql_text :: "stmt \<Rightarrow> string" where
  "sql_text Begin = ''BEGIN''"
| "sql_text Commit = ''COMMIT''"
| "sql_text Rollback = ''ROLLBACK''"
| "sql_text (SelectById t) = ''SELECT * FROM '' @ t @ '' WHERE id = $1''"
| "sql_text (SelectByUserId t) = ''SELECT * FROM '' @ t @ '' WHERE user_id = $1''"
| "sql_text (InsertInto t fields vals) =
     ''INSERT INTO '' @ t @ '' ( '' @ join '','' fields @ '' ) VALUES ( '' @ join '','' vals @ '' )''"
| "sql_text (DeleteById t) = ''DELETE FROM '' @ t @ '' WHERE id = $1''"
| "sql_text (DeleteByUserId t) = ''DELETE FROM '' @ t @ '' WHERE user_id = $1''"
| "sql_text (UpdateById t fields vals k) =
     ''UPDATE '' @ t @ '' SET '' @ getSetArgs fields vals @ '' WHERE id = $'' @ string_of_nat k"
| "sql_text (SelectUserJoin u s) =
     ''SELECT '' @ u @ ''.*, '' @ s @ ''.id as __session_id FROM '' @ s @ '' INNER JOIN '' @ u
       @ '' ON '' @ u @ ''.id = '' @ s @ ''.user_id WHERE '' @ s @ ''.id = $1''"

subsection \<open>The collaborators and the log of calls\<close>

datatype call =
    SqlCall stmt "jsval list"
  | ClientConnect
  | ClientQuery stmt "jsval list"
  | ClientEnd

record 'e world =
  calls :: "call list"
  ext :: 'e

text \<open>
  The environment of the adapter. \<open>neon_query\<close> is the function \<^verbatim>\<open>neon(connectionUrl)\<close>
  returns; \<open>connect_impl\<close>, \<open>query_impl\<close> and \<open>end_impl\<close> are the methods of the
  \<^verbatim>\<open>Client\<close>; each maps the state \<open>'e\<close> of the outside world to a result or a thrown value
  and the next state. \<open>escapeName\<close> and \<open>transformDatabaseSession\<close> are the helpers of
  \<^verbatim>\<open>../utils\<close> that are not among the sources. \<open>join_rejects_first\<close> says which of the two
  lookups of \<^verbatim>\<open>getSessionAndUser\<close> rejects first when both do: \<^verbatim>\<open>Promise.all\<close> rejects with
  that one.
\<close>

record 'e env =
  neon_query :: "stmt \<Rightarrow> jsval list \<Rightarrow> 'e \<Rightarrow> (jsval + row list) \<times> 'e"
  connect_impl :: "'e \<Rightarrow> (jsval + unit) \<times> 'e"
  query_impl :: "stmt \<Rightarrow> jsval list \<Rightarrow> 'e \<Rightarrow> (jsval + row list) \<times> 'e"
  end_impl :: "'e \<Rightarrow> (jsval + unit) \<times> 'e"
  escapeName :: "string \<Rightarrow> string"
  transformDatabaseSession :: "row \<Rightarrow> row"
  join_rejects_first :: bool

definition sql :: "'e env \<Rightarrow> stmt \<Rightarrow> jsval list \<Rightarrow> 'e world \<Rightarrow> (jsval + row list) \<times> 'e world" where
  "sql env s args w =
     (case neon_query env s args (ext w) of
        (r, e') \<Rightarrow> (r, \<lparr>calls = calls w @ [SqlCall s args], ext = e'\<rparr>))"

definition client_connect :: "'e env \<Rightarrow> 'e world \<Rightarrow> (jsval + unit) \<times> 'e world" where
  "client_connect env w =
     (case connect_impl env (ext w) of
        (r, e') \<Rightarrow> (r, \<lparr>calls = calls w @ [ClientConnect], ext = e'\<rparr>))"

definition client_query ::
  "'e env \<Rightarrow> stmt \<Rightarrow> jsval list \<Rightarrow> 'e world \<Rightarrow> (jsval + row list) \<times> 'e world" where
  "client_query env s args w =
     (case query_impl env s args (ext w) of
        (r, e') \<Rightarrow> (r, \<lparr>calls = calls w @ [ClientQuery s args], ext = e'\<rparr>))"

definition client_end :: "'e env \<Rightarrow> 'e world \<Rightarrow> (jsval + unit) \<times> 'e world" where
  "client_end env w =
     (case end_impl env (ext w) of
        (r, e') \<Rightarrow> (r, \<lparr>calls = calls w @ [ClientEnd], ext = e'\<rparr>))"

subsection \<open>Control flow\<close>

text \<open>\<^verbatim>\<open>await a; b\<close>: the second step runs only when the first did not throw.\<close>

definition and_then ::
  "('w \<Rightarrow> ('x + 'a) \<times> 'w) \<Rightarrow> ('a \<Rightarrow> 'w \<Rightarrow> ('x + 'b) \<times> 'w) \<Rightarrow> 'w \<Rightarrow> ('x + 'b) \<times> 'w" where
  "and_then m k w = (case m w of (Inl e, w') \<Rightarrow> (Inl e, w') | (Inr a, w') \<Rightarrow> k a w')"

text \<open>\<^verbatim>\<open>try { m } catch (e) { h(e) }\<close>: the handler's outcome replaces the failure.\<close>

definition try_catch ::
  "('w \<Rightarrow> ('x + 'a) \<times> 'w) \<Rightarrow> ('x \<Rightarrow> 'w \<Rightarrow> ('y + 'a) \<times> 'w) \<Rightarrow> 'w \<Rightarrow> ('y + 'a) \<times> 'w" where
  "try_catch m h w = (case m w of (Inl e, w') \<Rightarrow> h e w' | (Inr a, w') \<Rightarrow> (Inr a, w'))"

text \<open>
  \<^verbatim>\<open>try { m } finally { await f }\<close>: \<open>f\<close> runs on both outcomes of \<open>m\<close>; when \<open>f\<close> throws,
  its thrown value replaces the outcome of \<open>m\<close>.
\<close>

definition try_finally ::
  "('w \<Rightarrow> ('x + 'a) \<times> 'w) \<Rightarrow> ('w \<Rightarrow> ('x + unit) \<times> 'w) \<Rightarrow> 'w \<Rightarrow> ('x + 'a) \<times> 'w" where
  "try_finally m f w =
     (case m w of
        (r, w') \<Rightarrow> (case f w' of (Inl e, w'') \<Rightarrow> (Inl e, w'') | (Inr _, w'') \<Rightarrow> (r, w'')))"

text \<open>An operation passes a value thrown by a collaborator on to its caller.\<close>

definition rethrow :: "(jsval + 'a) \<times> 'w \<Rightarrow> (exn + 'a) \<times> 'w" where
  "rethrow p = (case p of (Inl e, w) \<Rightarrow> (Inl (Thrown e), w) | (Inr a, w) \<Rightarrow> (Inr a, w))"

subsection \<open>The adapter\<close>

record tables =
  user :: string
  session :: "string option"
  key :: string

text \<open>The placeholder of the argument at index \<open>i\<close>, counted from zero: \<^verbatim>\<open>`$${i + 1}`\<close>.\<close>

definition placeholder :: "nat \<Rightarrow> string" where
  "placeholder i = CHR ''$'' # string_of_nat (i + 1)"

text \<open>
  Modelled from the spec: \<^verbatim>\<open>helper\<close> of \<^verbatim>\<open>../utils\<close>, which is not among the sources. From
  an object it gives the escaped column names, the positional placeholders
  \<^verbatim>\<open>$1, $2, ...\<close> and the values, all in the order of the object's keys.
\<close>

definition helper :: "'e env \<Rightarrow> row \<Rightarrow> string list \<times> string list \<times> jsval list" where
  "helper env values =
     (map (\<lambda>k. escapeName env k) (map fst values),
      map placeholder [0..<length values],
      map snd values)"

definition ESCAPED_USER_TABLE_NAME :: "'e env \<Rightarrow> tables \<Rightarrow> string" where
  "ESCAPED_USER_TABLE_NAME env tbls = escapeName env (user tbls)"

text \<open>\<^verbatim>\<open>tables.session ? escapeName(tables.session) : null\<close>: the empty name is falsy.\<close>

definition ESCAPED_SESSION_TABLE_NAME :: "'e env \<Rightarrow> tables \<Rightarrow> string option" where
  "ESCAPED_SESSION_TABLE_NAME env tbls =
     (case session tbls of
        None \<Rightarrow> None
      | Some s \<Rightarrow> if s \<noteq> [] then Some (escapeName env s) else None)"

definition ESCAPED_KEY_TABLE_NAME :: "'e env \<Rightarrow> tables \<Rightarrow> string" where
  "ESCAPED_KEY_TABLE_NAME env tbls = escapeName env (key tbls)"

text \<open>
  The guard \<^verbatim>\<open>if (!ESCAPED_SESSION_TABLE_NAME) throw new Error("Session table not defined")\<close>
  of the seven session operations: \<open>Inl\<close> the error, \<open>Inr\<close> the table name to go on with.
\<close>

definition session_table :: "'e env \<Rightarrow> tables \<Rightarrow> exn + string" where
  "session_table env tbls =
     (case ESCAPED_SESSION_TABLE_NAME env tbls of
        None \<Rightarrow> Inl (JsError ''Session table not defined'')
      | Some t \<Rightarrow> if t = [] then Inl (JsError ''Session table not defined'') else Inr t)"

definition get :: "(jsval + row list) \<times> 'w \<Rightarrow> (jsval + row option) \<times> 'w" where
  "get queryPromise =
     (case queryPromise of
        (Inl e, w) \<Rightarrow> (Inl e, w)
      | (Inr rows, w) \<Rightarrow> (Inr (case rows of [] \<Rightarrow> None | r # _ \<Rightarrow> Some r), w))"

definition getAll :: "(jsval + row list) \<times> 'w \<Rightarrow> (jsval + row list) \<times> 'w" where
  "getAll queryPromise = queryPromise"

definition transaction_body ::
  "'e env \<Rightarrow> ('e world \<Rightarrow> (jsval + 'a) \<times> 'e world) \<Rightarrow> 'e world \<Rightarrow> (jsval + unit) \<times> 'e world" where
  "transaction_body env execute =
     and_then (client_query env Begin [])
       (\<lambda>_. and_then execute
         (\<lambda>_. and_then (client_query env Commit []) (\<lambda>_ w. (Inr (), w))))"

definition transaction ::
  "'e env \<Rightarrow> ('e world \<Rightarrow> (jsval + 'a) \<times> 'e world) \<Rightarrow> 'e world \<Rightarrow> (jsval + unit) \<times> 'e world" where
  "transaction env execute =
     and_then (client_connect env)
       (\<lambda>_. try_finally
              (try_catch (transaction_body env execute)
                 (\<lambda>e w. case client_query env Rollback [] w of (_, w') \<Rightarrow> (Inl e, w')))
              (client_end env))"

definition getUser :: "'e env \<Rightarrow> tables \<Rightarrow> jsval \<Rightarrow> 'e world \<Rightarrow> (exn + row option) \<times> 'e world" where
  "getUser env tbls userId w =
     rethrow (get (sql env (SelectById (ESCAPED_USER_TABLE_NAME env tbls)) [userId] w))"

text \<open>The callback \<^verbatim>\<open>setUser\<close> hands to \<^verbatim>\<open>transaction\<close>: the two inserts on the client.\<close>

definition setUser_execute ::
  "'e env \<Rightarrow> tables \<Rightarrow> row \<Rightarrow> row \<Rightarrow> 'e world \<Rightarrow> (jsval + row list) \<times> 'e world" where
  "setUser_execute env tbls usr k =
     (case helper env usr of
        (userFields, userValues, userArgs) \<Rightarrow>
          and_then
            (client_query env
               (InsertInto (ESCAPED_USER_TABLE_NAME env tbls) userFields userValues) userArgs)
            (\<lambda>_. case helper env k of
                    (keyFields, keyValues, keyArgs) \<Rightarrow>
                      client_query env
                        (InsertInto (ESCAPED_KEY_TABLE_NAME env tbls) keyFields keyValues) keyArgs))"

definition setUser ::
  "'e env \<Rightarrow> tables \<Rightarrow> row \<Rightarrow> row option \<Rightarrow> 'e world \<Rightarrow> (exn + unit) \<times> 'e world" where
  "setUser env tbls usr k w =
     (case k of
        None \<Rightarrow>
          (case helper env usr of
             (userFields, userValues, userArgs) \<Rightarrow>
               rethrow
                 (and_then
                    (sql env (InsertInto (ESCAPED_USER_TABLE_NAME env tbls) userFields userValues)
                       userArgs)
                    (\<lambda>_ w'. (Inr (), w')) w))
      | Some k' \<Rightarrow>
          try_catch (transaction env (setUser_execute env tbls usr k'))
            (\<lambda>e w'.
               case violation e ''23505'' ''Key (id)'' of
                 Inl t \<Rightarrow> (Inl t, w')
               | Inr True \<Rightarrow> (Inl (LuciaError ''AUTH_DUPLICATE_KEY_ID''), w')
               | Inr False \<Rightarrow> (Inl (Thrown e), w'))
            w)"

definition deleteUser :: "'e env \<Rightarrow> tables \<Rightarrow> jsval \<Rightarrow> 'e world \<Rightarrow> (exn + unit) \<times> 'e world" where
  "deleteUser env tbls userId w =
     rethrow
       (and_then (sql env (DeleteById (ESCAPED_USER_TABLE_NAME env tbls)) [userId])
          (\<lambda>_ w'. (Inr (), w')) w)"

definition updateUser ::
  "'e env \<Rightarrow> tables \<Rightarrow> jsval \<Rightarrow> row \<Rightarrow> 'e world \<Rightarrow> (exn + unit) \<times> 'e world" where
  "updateUser env tbls userId partialUser w =
     (case helper env partialUser of
        (flds, vals, args) \<Rightarrow>
          rethrow
            (and_then
               (sql env
                  (UpdateById (ESCAPED_USER_TABLE_NAME env tbls) flds vals (length flds + 1))
                  (args @ [userId]))
               (\<lambda>_ w'. (Inr (), w')) w))"

definition getSession ::
  "'e env \<Rightarrow> tables \<Rightarrow> jsval \<Rightarrow> 'e world \<Rightarrow> (exn + row option) \<times> 'e world" where
  "getSession env tbls sessionId w =
     (case session_table env tbls of
        Inl err \<Rightarrow> (Inl err, w)
      | Inr t \<Rightarrow>
          (case rethrow (get (sql env (SelectById t) [sessionId] w)) of
             (Inl e, w') \<Rightarrow> (Inl e, w')
           | (Inr result, w') \<Rightarrow>
               (Inr (case result of
                       None \<Rightarrow> None
                     | Some r \<Rightarrow> Some (transformDatabaseSession env r)), w')))"

definition getSessionsByUserId ::
  "'e env \<Rightarrow> tables \<Rightarrow> jsval \<Rightarrow> 'e world \<Rightarrow> (exn + row list) \<times> 'e world" where
  "getSessionsByUserId env tbls userId w =
     (case session_table env tbls of
        Inl err \<Rightarrow> (Inl err, w)
      | Inr t \<Rightarrow>
          (case rethrow (getAll (sql env (SelectByUserId t) [userId] w)) of
             (Inl e, w') \<Rightarrow> (Inl e, w')
           | (Inr result, w') \<Rightarrow>
               (Inr (map (\<lambda>val. transformDatabaseSession env val) result), w')))"

definition setSession ::
  "'e env \<Rightarrow> tables \<Rightarrow> row \<Rightarrow> 'e world \<Rightarrow> (exn + unit) \<times> 'e world" where
  "setSession env tbls sess w =
     (case session_table env tbls of
        Inl err \<Rightarrow> (Inl err, w)
      | Inr t \<Rightarrow>
          try_catch
            (case helper env sess of
               (flds, vals, args) \<Rightarrow>
                 and_then (sql env (InsertInto t flds vals) args) (\<lambda>_ w'. (Inr (), w')))
            (\<lambda>e w'.
               case violation e ''23503'' ''Key (user_id)'' of
                 Inl x \<Rightarrow> (Inl x, w')
               | Inr True \<Rightarrow> (Inl (LuciaError ''AUTH_INVALID_USER_ID''), w')
               | Inr False \<Rightarrow> (Inl (Thrown e), w'))
            w)"

definition deleteSession ::
  "'e env \<Rightarrow> tables \<Rightarrow> jsval \<Rightarrow> 'e world \<Rightarrow> (exn + unit) \<times> 'e world" where
  "deleteSession env tbls sessionId w =
     (case session_table env tbls of
        Inl err \<Rightarrow> (Inl err, w)
      | Inr t \<Rightarrow>
          rethrow (and_then (sql env (DeleteById t) [sessionId]) (\<lambda>_ w'. (Inr (), w')) w))"

definition deleteSessionsByUserId ::
  "'e env \<Rightarrow> tables \<Rightarrow> jsval \<Rightarrow> 'e world \<Rightarrow> (exn + unit) \<times> 'e world" where
  "deleteSessionsByUserId env tbls userId w =
     (case session_table env tbls of
        Inl err \<Rightarrow> (Inl err, w)
      | Inr t \<Rightarrow>
          rethrow (and_then (sql env (DeleteByUserId t) [userId]) (\<lambda>_ w'. (Inr (), w')) w))"

definition updateSession ::
  "'e env \<Rightarrow> tables \<Rightarrow> jsval \<Rightarrow> row \<Rightarrow> 'e world \<Rightarrow> (exn + unit) \<times> 'e world" where
  "updateSession env tbls sessionId partialSession w =
     (case session_table env tbls of
        Inl err \<Rightarrow> (Inl err, w)
      | Inr t \<Rightarrow>
          (case helper env partialSession of
             (flds, vals, args) \<Rightarrow>
               rethrow
                 (and_then
                    (sql env (UpdateById t flds vals (length flds + 1)) (args @ [sessionId]))
                    (\<lambda>_ w'. (Inr (), w')) w)))"

definition getKey :: "'e env \<Rightarrow> tables \<Rightarrow> jsval \<Rightarrow> 'e world \<Rightarrow> (exn + row option) \<times> 'e world" where
  "getKey env tbls keyId w =
     rethrow (get (sql env (SelectById (ESCAPED_KEY_TABLE_NAME env tbls)) [keyId] w))"

definition getKeysByUserId ::
  "'e env \<Rightarrow> tables \<Rightarrow> jsval \<Rightarrow> 'e world \<Rightarrow> (exn + row list) \<times> 'e world" where
  "getKeysByUserId env tbls userId w =
     rethrow (getAll (sql env (SelectByUserId (ESCAPED_KEY_TABLE_NAME env tbls)) [userId] w))"

definition setKey :: "'e env \<Rightarrow> tables \<Rightarrow> row \<Rightarrow> 'e world \<Rightarrow> (exn + unit) \<times> 'e world" where
  "setKey env tbls k w =
     try_catch
       (case helper env k of
          (flds, vals, args) \<Rightarrow>
            and_then (sql env (InsertInto (ESCAPED_KEY_TABLE_NAME env tbls) flds vals) args)
              (\<lambda>_ w'. (Inr (), w')))
       (\<lambda>e w'.
          case violation e ''23503'' ''Key (user_id)'' of
            Inl x \<Rightarrow> (Inl x, w')
          | Inr True \<Rightarrow> (Inl (LuciaError ''AUTH_INVALID_USER_ID''), w')
          | Inr False \<Rightarrow>
              (case violation e ''23505'' ''Key (id)'' of
                 Inl x \<Rightarrow> (Inl x, w')
               | Inr True \<Rightarrow> (Inl (LuciaError ''AUTH_DUPLICATE_KEY_ID''), w')
               | Inr False \<Rightarrow> (Inl (Thrown e), w')))
       w"

definition deleteKey :: "'e env \<Rightarrow> tables \<Rightarrow> jsval \<Rightarrow> 'e world \<Rightarrow> (exn + unit) \<times> 'e world" where
  "deleteKey env tbls keyId w =
     rethrow
       (and_then (sql env (DeleteById (ESCAPED_KEY_TABLE_NAME env tbls)) [keyId])
          (\<lambda>_ w'. (Inr (), w')) w)"

definition deleteKeysByUserId ::
  "'e env \<Rightarrow> tables \<Rightarrow> jsval \<Rightarrow> 'e world \<Rightarrow> (exn + unit) \<times> 'e world" where
  "deleteKeysByUserId env tbls userId w =
     rethrow
       (and_then (sql env (DeleteByUserId (ESCAPED_KEY_TABLE_NAME env tbls)) [userId])
          (\<lambda>_ w'. (Inr (), w')) w)"

definition updateKey ::
  "'e env \<Rightarrow> tables \<Rightarrow> jsval \<Rightarrow> row \<Rightarrow> 'e world \<Rightarrow> (exn + unit) \<times> 'e world" where
  "updateKey env tbls keyId partialKey w =
     (case helper env partialKey of
        (flds, vals, args) \<Rightarrow>
          rethrow
            (and_then
               (sql env
                  (UpdateById (ESCAPED_KEY_TABLE_NAME env tbls) flds vals (length flds + 1))
                  (args @ [keyId]))
               (\<lambda>_ w'. (Inr (), w')) w))"

text \<open>
  \<^verbatim>\<open>const { __session_id: _, ...userResult } = userFromJoinResult\<close>: the rest pattern copies
  every own property but the one named.
\<close>

definition strip_session_id :: "row \<Rightarrow> row" where
  "strip_session_id userFromJoinResult =
     filter (\<lambda>(k, v). k \<noteq> ''__session_id'') userFromJoinResult"

text \<open>
  Both queries are issued before either is awaited, the session lookup first;
  \<^verbatim>\<open>Promise.all\<close> rejects when one of them does.
\<close>

definition getSessionAndUser ::
  "'e env \<Rightarrow> tables \<Rightarrow> jsval \<Rightarrow> 'e world \<Rightarrow> (exn + row option \<times> row option) \<times> 'e world" where
  "getSessionAndUser env tbls sessionId w =
     (case session_table env tbls of
        Inl err \<Rightarrow> (Inl err, w)
      | Inr t \<Rightarrow>
          (case get (sql env (SelectById t) [sessionId] w) of
             (getSessionPromise, w1) \<Rightarrow>
               (case get (sql env (SelectUserJoin (ESCAPED_USER_TABLE_NAME env tbls) t)
                            [sessionId] w1) of
                  (getUserFromJoinPromise, w2) \<Rightarrow>
                    (case (getSessionPromise, getUserFromJoinPromise) of
                       (Inl e1, Inl e2) \<Rightarrow>
                         (Inl (Thrown (if join_rejects_first env then e2 else e1)), w2)
                     | (Inl e1, Inr _) \<Rightarrow> (Inl (Thrown e1), w2)
                     | (Inr _, Inl e2) \<Rightarrow> (Inl (Thrown e2), w2)
                     | (Inr sessionResult, Inr userFromJoinResult) \<Rightarrow>
                         (case (sessionResult, userFromJoinResult) of
                            (Some s, Some u) \<Rightarrow>
                              (Inr (Some (transformDatabaseSession env s),
                                    Some (strip_session_id u)), w2)
                          | _ \<Rightarrow> (Inr (None, None), w2))))))"

subsection \<open>The words of the claims\<close>

text \<open>
  A database error is an object whose \<open>code\<close> and \<open>detail\<close>, when it has them, are
  strings (the driver's \<^verbatim>\<open>DatabaseError\<close>); it is a violation of a constraint when its
  code is the given one and its detail contains the given text.
\<close>

definition database_error :: "jsval \<Rightarrow> bool" where
  "database_error e =
     (case e of
        JObj kvs \<Rightarrow>
          (case map_of kvs ''code'' of
             None \<Rightarrow> True | Some JUndefined \<Rightarrow> True | Some (JStr c) \<Rightarrow> True | _ \<Rightarrow> False)
          \<and> (case map_of kvs ''detail'' of
               None \<Rightarrow> True | Some JUndefined \<Rightarrow> True | Some (JStr d) \<Rightarrow> True | _ \<Rightarrow> False)
      | _ \<Rightarrow> False)"

definition is_violation :: "jsval \<Rightarrow> string \<Rightarrow> string \<Rightarrow> bool" where
  "is_violation e code sub =
     (case e of
        JObj kvs \<Rightarrow>
          map_of kvs ''code'' = Some (JStr code)
          \<and> (case map_of kvs ''detail'' of Some (JStr d) \<Rightarrow> sublist sub d | _ \<Rightarrow> False)
      | _ \<Rightarrow> False)"

text \<open>
  The words of the claim on totality. A value is nullish when it is \<^verbatim>\<open>undefined\<close> or
  \<^verbatim>\<open>null\<close>; \<open>field_of e p\<close> is what \<^verbatim>\<open>e.p\<close> reads from a value \<open>e\<close> that is not nullish,
  \<^verbatim>\<open>undefined\<close> when \<open>e\<close> has no such property; a value lacks a field that reads as
  nullish. A detail contains a text as a string contains a substring or an array an
  element; strings and arrays are the values that can be searched with \<^verbatim>\<open>includes\<close>.
\<close>

definition nullish :: "jsval \<Rightarrow> bool" where
  "nullish v = (v = JUndefined \<or> v = JNull)"

definition field_of :: "jsval \<Rightarrow> string \<Rightarrow> jsval" where
  "field_of e p =
     (case e of
        JObj kvs \<Rightarrow> (case map_of kvs p of None \<Rightarrow> JUndefined | Some v \<Rightarrow> v)
      | _ \<Rightarrow> JUndefined)"

definition lacks :: "jsval \<Rightarrow> string \<Rightarrow> bool" where
  "lacks e p = nullish (field_of e p)"

definition contains :: "jsval \<Rightarrow> string \<Rightarrow> bool" where
  "contains d sub =
     (case d of JStr t \<Rightarrow> sublist sub t | JArr xs \<Rightarrow> JStr sub \<in> set xs | _ \<Rightarrow> False)"

definition searchable :: "jsval \<Rightarrow> bool" where
  "searchable d = (case d of JStr t \<Rightarrow> True | JArr xs \<Rightarrow> True | _ \<Rightarrow> False)"

text \<open>
  \<open>unmatched e code sub\<close> is the condition of the claim: the value lacks a \<open>code\<close> (or has
  another code than the one looked for), lacks a \<open>detail\<close>, or its detail does not contain
  \<open>sub\<close>. \<open>raising e code\<close> singles out the values at which the classification itself
  fails: the nullish ones, and those with the code looked for whose detail is neither
  nullish nor searchable.
\<close>

definition unmatched :: "jsval \<Rightarrow> string \<Rightarrow> string \<Rightarrow> bool" where
  "unmatched e code sub =
     (lacks e ''code'' \<or> field_of e ''code'' \<noteq> JStr code \<or> lacks e ''detail''
      \<or> \<not> contains (field_of e ''detail'') sub)"

definition raising :: "jsval \<Rightarrow> string \<Rightarrow> bool" where
  "raising e code =
     (nullish e
      \<or> (field_of e ''code'' = JStr code \<and> \<not> nullish (field_of e ''detail'')
         \<and> \<not> searchable (field_of e ''detail'')))"

text \<open>
  What the \<^verbatim>\<open>catch\<close> block of \<^verbatim>\<open>setUser\<close> throws for the value \<open>e\<close> it caught: the
  domain error for a duplicate key id, else \<open>e\<close> itself, unless the classification raises.
\<close>

definition rethrown :: "jsval \<Rightarrow> exn" where
  "rethrown e =
     (case violation e ''23505'' ''Key (id)'' of
        Inl t \<Rightarrow> t
      | Inr True \<Rightarrow> LuciaError ''AUTH_DUPLICATE_KEY_ID''
      | Inr False \<Rightarrow> Thrown e)"

text \<open>The four statements of the transaction of \<^verbatim>\<open>setUser\<close> with a key, in order.\<close>

definition transaction_steps :: "'e env \<Rightarrow> tables \<Rightarrow> row \<Rightarrow> row \<Rightarrow> call list" where
  "transaction_steps env tbls usr k =
     [ClientQuery Begin [],
      ClientQuery (InsertInto (ESCAPED_USER_TABLE_NAME env tbls)
                     (fst (helper env usr)) (fst (snd (helper env usr))))
        (snd (snd (helper env usr))),
      ClientQuery (InsertInto (ESCAPED_KEY_TABLE_NAME env tbls)
                     (fst (helper env k)) (fst (snd (helper env k))))
        (snd (snd (helper env k))),
      ClientQuery Commit []]"

subsection \<open>A reference store\<close>

text \<open>
  The database behind both collaborators is not part of the repository. The claims that
  speak of stored rows are stated against this store, which has what the spec's data
  model asks of the database: three tables of rows; \<open>id\<close> is the primary key of each
  table (present, not null, unique); \<open>user_id\<close> of a session or key row is a foreign key
  (not null) to the \<open>id\<close> of a user row. A store maps a table name, as a statement writes
  it, to the rows of the table in insertion order.
\<close>

type_synonym table = "row list"

type_synonym store = "string \<Rightarrow> table"

text \<open>
  What the store knows besides the rows: how to read a column name back from its escaped
  form, which table holds the users and which tables refer to it.
\<close>

record schema =
  unescapeName :: "string \<Rightarrow> string"
  user_table :: string
  child_tables :: "string list"

text \<open>
  The errors of the database, with its codes and the detail texts of its constraint
  violations; \<open>key_text\<close> prints the offending key.
\<close>

definition db_error :: "string \<Rightarrow> string \<Rightarrow> jsval" where
  "db_error code detail = JObj [(''code'', JStr code), (''detail'', JStr detail)]"

definition db_error_code :: "string \<Rightarrow> jsval" where
  "db_error_code code = JObj [(''code'', JStr code)]"

definition key_text :: "jsval \<Rightarrow> string" where
  "key_text v = (case v of JStr s \<Rightarrow> s | _ \<Rightarrow> [])"

definition unique_violation :: "jsval \<Rightarrow> jsval" where
  "unique_violation v = db_error ''23505'' (''Key (id)=('' @ key_text v @ '') already exists.'')"

definition foreign_key_violation :: "jsval \<Rightarrow> jsval" where
  "foreign_key_violation v =
     db_error ''23503'' (''Key (user_id)=('' @ key_text v @ '') is not present in table.'')"

definition still_referenced :: "jsval \<Rightarrow> jsval" where
  "still_referenced v =
     db_error ''23503'' (''Key (id)=('' @ key_text v @ '') is still referenced from table.'')"

definition not_null_violation :: jsval where
  "not_null_violation = db_error_code ''23502''"

definition syntax_error :: jsval where
  "syntax_error = db_error_code ''42601''"

definition bad_parameters :: jsval where
  "bad_parameters = db_error_code ''08P01''"

definition in_failed_transaction :: jsval where
  "in_failed_transaction = db_error_code ''25P02''"

definition is_null :: "jsval \<Rightarrow> bool" where
  "is_null v = (v = JNull \<or> v = JUndefined)"

definition row_id :: "row \<Rightarrow> jsval option" where
  "row_id r = map_of r ''id''"

text \<open>\<^verbatim>\<open>WHERE column = $1\<close>: a null never equals anything.\<close>

definition matches :: "string \<Rightarrow> jsval \<Rightarrow> row \<Rightarrow> bool" where
  "matches column v r = (\<not> is_null v \<and> map_of r column = Some v)"

text \<open>
  The first violation in a table: of its primary key; of its foreign key, given the rows
  of the user table; of the foreign keys of the tables that refer to it.
\<close>

fun pk_error :: "table \<Rightarrow> jsval option" where
  "pk_error [] = None"
| "pk_error (r # rs) =
     (case row_id r of
        None \<Rightarrow> Some not_null_violation
      | Some v \<Rightarrow>
          if is_null v then Some not_null_violation
          else if Some v \<in> set (map row_id rs) then Some (unique_violation v)
          else pk_error rs)"

fun fk_error :: "table \<Rightarrow> table \<Rightarrow> jsval option" where
  "fk_error parent [] = None"
| "fk_error parent (r # rs) =
     (case map_of r ''user_id'' of
        None \<Rightarrow> Some not_null_violation
      | Some v \<Rightarrow>
          if is_null v then Some not_null_violation
          else if Some v \<in> set (map row_id parent) then fk_error parent rs
          else Some (foreign_key_violation v))"

fun referenced_error :: "table \<Rightarrow> table list \<Rightarrow> jsval option" where
  "referenced_error parent [] = None"
| "referenced_error parent (c # cs) =
     (case List.find (\<lambda>r. case map_of r ''user_id'' of
                            None \<Rightarrow> False
                          | Some v \<Rightarrow> Some v \<notin> set (map row_id parent)) c of
        Some r \<Rightarrow> Some (still_referenced (case map_of r ''user_id'' of Some v \<Rightarrow> v | None \<Rightarrow> JNull))
      | None \<Rightarrow> referenced_error parent cs)"

definition constraint_error :: "schema \<Rightarrow> store \<Rightarrow> string \<Rightarrow> jsval option" where
  "constraint_error sch S t =
     (case pk_error (S t) of
        Some e \<Rightarrow> Some e
      | None \<Rightarrow>
          if t \<in> set (child_tables sch) then fk_error (S (user_table sch)) (S t)
          else if t = user_table sch then
            referenced_error (S t) (map S (child_tables sch))
          else None)"

text \<open>
  A write that would leave the written table in violation of a constraint fails with the
  error of the violation and changes nothing.
\<close>

definition write_table :: "schema \<Rightarrow> store \<Rightarrow> string \<Rightarrow> table \<Rightarrow> (jsval + row list) \<times> store" where
  "write_table sch S t rows =
     (case constraint_error sch (S(t := rows)) t of
        Some e \<Rightarrow> (Inl e, S)
      | None \<Rightarrow> (Inr [], S(t := rows)))"

text \<open>The argument a placeholder \<^verbatim>\<open>$i\<close> stands for: the \<open>i\<close>-th of the argument list.\<close>

definition resolve_placeholder :: "string \<Rightarrow> jsval list \<Rightarrow> jsval option" where
  "resolve_placeholder p args =
     (case List.find (\<lambda>i. placeholder i = p) [0..<length args] of
        None \<Rightarrow> None
      | Some i \<Rightarrow> Some (args ! i))"

text \<open>
  The column-to-value list of an \<^verbatim>\<open>INSERT\<close> or of the \<^verbatim>\<open>SET\<close> clause of an \<^verbatim>\<open>UPDATE\<close>; an
  empty list, a column named twice or an unbound placeholder is an error.
\<close>

definition assignments :: "schema \<Rightarrow> string list \<Rightarrow> string list \<Rightarrow> jsval list \<Rightarrow> row option" where
  "assignments sch flds phs args =
     (let cols = map (unescapeName sch) flds;
          vals = map (\<lambda>p. resolve_placeholder p args) phs
      in if flds = [] \<or> length flds \<noteq> length phs \<or> \<not> distinct cols \<or> None \<in> set vals
         then None
         else Some (zip cols (map the vals)))"

text \<open>\<^verbatim>\<open>SET c = v, ...\<close> on one row: each column named gets its value, in turn.\<close>

definition set_fields :: "row \<Rightarrow> row \<Rightarrow> row" where
  "set_fields asg r = fold (\<lambda>(c, v). AList.update c v) asg r"

text \<open>
  The rows of \<^verbatim>\<open>session INNER JOIN user ON user.id = session.user_id WHERE session.id = $1\<close>,
  each with the user's columns and the session's id as \<^verbatim>\<open>__session_id\<close>.
\<close>

definition join_rows :: "table \<Rightarrow> table \<Rightarrow> jsval \<Rightarrow> row list" where
  "join_rows users sessions v =
     concat (map (\<lambda>s. map (\<lambda>u. AList.update ''__session_id'' v u)
                        (filter (\<lambda>u. case map_of s ''user_id'' of
                                        None \<Rightarrow> False
                                      | Some x \<Rightarrow> matches ''id'' x u) users))
                 (filter (matches ''id'' v) sessions))"

definition exec_stmt ::
  "schema \<Rightarrow> stmt \<Rightarrow> jsval list \<Rightarrow> store \<Rightarrow> (jsval + row list) \<times> store" where
  "exec_stmt sch s args S =
     (case s of
        Begin \<Rightarrow> (Inr [], S)
      | Commit \<Rightarrow> (Inr [], S)
      | Rollback \<Rightarrow> (Inr [], S)
      | SelectById t \<Rightarrow>
          (case args of
             [v] \<Rightarrow> (Inr (filter (matches ''id'' v) (S t)), S)
           | _ \<Rightarrow> (Inl bad_parameters, S))
      | SelectByUserId t \<Rightarrow>
          (case args of
             [v] \<Rightarrow> (Inr (filter (matches ''user_id'' v) (S t)), S)
           | _ \<Rightarrow> (Inl bad_parameters, S))
      | InsertInto t flds phs \<Rightarrow>
          (case assignments sch flds phs args of
             None \<Rightarrow> (Inl syntax_error, S)
           | Some r \<Rightarrow> write_table sch S t (S t @ [r]))
      | DeleteById t \<Rightarrow>
          (case args of
             [v] \<Rightarrow> write_table sch S t (filter (\<lambda>r. \<not> matches ''id'' v r) (S t))
           | _ \<Rightarrow> (Inl bad_parameters, S))
      | DeleteByUserId t \<Rightarrow>
          (case args of
             [v] \<Rightarrow> write_table sch S t (filter (\<lambda>r. \<not> matches ''user_id'' v r) (S t))
           | _ \<Rightarrow> (Inl bad_parameters, S))
      | UpdateById t flds phs k \<Rightarrow>
          (case assignments sch flds phs args of
             None \<Rightarrow> (Inl syntax_error, S)
           | Some asg \<Rightarrow>
               if 0 < k \<and> k \<le> length args then
                 write_table sch S t
                   (map (\<lambda>r. if matches ''id'' (args ! (k - 1)) r then set_fields asg r else r)
                      (S t))
               else (Inl bad_parameters, S))
      | SelectUserJoin u t \<Rightarrow>
          (case args of
             [v] \<Rightarrow> (Inr (join_rows (S u) (S t) v), S)
           | _ \<Rightarrow> (Inl bad_parameters, S)))"

text \<open>
  The state of the database: the committed store and the transaction of the dedicated
  connection. \<^verbatim>\<open>BEGIN\<close> opens a transaction on a copy of the committed store, \<^verbatim>\<open>COMMIT\<close>
  publishes the copy, \<^verbatim>\<open>ROLLBACK\<close> and closing the connection drop it; a statement that
  fails aborts the transaction, after which only its end is accepted. The one-shot query
  function sees and changes the committed store alone, a statement at a time.
\<close>

datatype txn_state = NoTxn | Active store | Aborted

record db =
  committed :: store
  txn :: txn_state

definition ref_query :: "schema \<Rightarrow> stmt \<Rightarrow> jsval list \<Rightarrow> db \<Rightarrow> (jsval + row list) \<times> db" where
  "ref_query sch s args d =
     (case exec_stmt sch s args (committed d) of (r, S') \<Rightarrow> (r, d\<lparr>committed := S'\<rparr>))"

definition ref_client_query ::
  "schema \<Rightarrow> stmt \<Rightarrow> jsval list \<Rightarrow> db \<Rightarrow> (jsval + row list) \<times> db" where
  "ref_client_query sch s args d =
     (case s of
        Begin \<Rightarrow>
          (Inr [], d\<lparr>txn := (case txn d of NoTxn \<Rightarrow> Active (committed d) | t \<Rightarrow> t)\<rparr>)
      | Commit \<Rightarrow>
          (Inr [], (case txn d of
                      Active S \<Rightarrow> d\<lparr>committed := S, txn := NoTxn\<rparr>
                    | _ \<Rightarrow> d\<lparr>txn := NoTxn\<rparr>))
      | Rollback \<Rightarrow> (Inr [], d\<lparr>txn := NoTxn\<rparr>)
      | _ \<Rightarrow>
          (case txn d of
             NoTxn \<Rightarrow> ref_query sch s args d
           | Active S \<Rightarrow>
               (case exec_stmt sch s args S of
                  (Inl e, _) \<Rightarrow> (Inl e, d\<lparr>txn := Aborted\<rparr>)
                | (Inr rows, S') \<Rightarrow> (Inr rows, d\<lparr>txn := Active S'\<rparr>))
           | Aborted \<Rightarrow> (Inl in_failed_transaction, d)))"

text \<open>
  The two collaborators over the store, for an escaping helper \<open>esc\<close>, its inverse
  \<open>unesc\<close>, a session transform and a table configuration.
\<close>

definition ref_schema :: "(string \<Rightarrow> string) \<Rightarrow> (string \<Rightarrow> string) \<Rightarrow> tables \<Rightarrow> schema" where
  "ref_schema esc unesc tbls =
     \<lparr>unescapeName = unesc,
      user_table = esc (user tbls),
      child_tables =
        (case session tbls of None \<Rightarrow> [] | Some s \<Rightarrow> if s \<noteq> [] then [esc s] else [])
          @ [esc (key tbls)]\<rparr>"

definition ref_env ::
  "(string \<Rightarrow> string) \<Rightarrow> (string \<Rightarrow> string) \<Rightarrow> (row \<Rightarrow> row) \<Rightarrow> tables \<Rightarrow> db env" where
  "ref_env esc unesc tds tbls =
     \<lparr>neon_query = ref_query (ref_schema esc unesc tbls),
      connect_impl = (\<lambda>d. (Inr (), d\<lparr>txn := NoTxn\<rparr>)),
      query_impl = ref_client_query (ref_schema esc unesc tbls),
      end_impl = (\<lambda>d. (Inr (), d\<lparr>txn := NoTxn\<rparr>)),
      escapeName = esc,
      transformDatabaseSession = tds,
      join_rejects_first = False\<rparr>"

text \<open>
  The dedicated connection can fail on its own account. \<open>failing F env\<close> has the
  collaborators of \<open>env\<close>, except that a call \<open>c\<close> of the dedicated connection for which
  \<open>F c\<close> is a value throws that value without reaching \<open>env\<close>: the state of the outside
  world is then as it was. The one-shot query function is as in \<open>env\<close>.
\<close>

definition failing :: "(call \<Rightarrow> jsval option) \<Rightarrow> 'e env \<Rightarrow> 'e env" where
  "failing F env =
     env\<lparr>connect_impl :=
           (\<lambda>d. case F ClientConnect of Some e \<Rightarrow> (Inl e, d) | None \<Rightarrow> connect_impl env d),
         query_impl :=
           (\<lambda>s args d. case F (ClientQuery s args) of
                          Some e \<Rightarrow> (Inl e, d)
                        | None \<Rightarrow> query_impl env s args d),
         end_impl :=
           (\<lambda>d. case F ClientEnd of Some e \<Rightarrow> (Inl e, d) | None \<Rightarrow> end_impl env d)\<rparr>"

subsection \<open>Scripted collaborators and sample data\<close>

text \<open>
  A test double for both collaborators: the outside world is a script, the list of the
  outcomes of the calls to come; each call takes the next one. A call past the end of the
  script succeeds with no rows.
\<close>

definition pop :: "(jsval + row list) list \<Rightarrow> (jsval + row list) \<times> (jsval + row list) list" where
  "pop script = (case script of [] \<Rightarrow> (Inr [], []) | r # rs \<Rightarrow> (r, rs))"

definition pop_unit :: "(jsval + row list) list \<Rightarrow> (jsval + unit) \<times> (jsval + row list) list" where
  "pop_unit script =
     (case script of
        [] \<Rightarrow> (Inr (), [])
      | Inl e # rs \<Rightarrow> (Inl e, rs)
      | Inr _ # rs \<Rightarrow> (Inr (), rs))"

text \<open>An escaping helper, and its inverse: the name between double quotes.\<close>

definition quote_name :: "string \<Rightarrow> string" where
  "quote_name n = [CHR 0x22] @ n @ [CHR 0x22]"

definition unquote_name :: "string \<Rightarrow> string" where
  "unquote_name s = butlast (tl s)"

definition scripted_env :: "(jsval + row list) list env" where
  "scripted_env =
     \<lparr>neon_query = (\<lambda>s args. pop),
      connect_impl = pop_unit,
      query_impl = (\<lambda>s args. pop),
      end_impl = pop_unit,
      escapeName = quote_name,
      transformDatabaseSession = (\<lambda>r. (''fresh'', JBool True) # r),
      join_rejects_first = False\<rparr>"

definition quoted_env :: "tables \<Rightarrow> db env" where
  "quoted_env = ref_env quote_name unquote_name (\<lambda>r. (''fresh'', JBool True) # r)"

definition start :: "'e \<Rightarrow> 'e world" where
  "start e = \<lparr>calls = [], ext = e\<rparr>"

definition empty_store :: store where
  "empty_store = (\<lambda>t. [])"

definition db_of :: "store \<Rightarrow> db" where
  "db_of S = \<lparr>committed = S, txn = NoTxn\<rparr>"

text \<open>Table configurations without and with a session table.\<close>

definition no_session_tables :: tables where
  "no_session_tables = \<lparr>user = ''auth_user'', session = None, key = ''user_key''\<rparr>"

definition all_tables :: tables where
  "all_tables = \<lparr>user = ''auth_user'', session = Some ''user_session'', key = ''user_key''\<rparr>"

text \<open>
  Sample rows, and thrown values that are no constraint violations: the code looked for
  with a \<^verbatim>\<open>null\<close> detail, the code looked for with an array for a detail, and another
  code with a number for a detail.
\<close>

definition null_detail :: jsval where
  "null_detail = JObj [(''code'', JStr ''23505''), (''detail'', JNull)]"

definition array_detail :: jsval where
  "array_detail = JObj [(''code'', JStr ''23503''), (''detail'', JArr [JStr ''Key'', JNum 1])]"

definition other_code :: jsval where
  "other_code = JObj [(''code'', JStr ''P0001''), (''detail'', JNum 42)]"

definition user_u1 :: row where
  "user_u1 = [(''id'', JStr ''u1'')]"

definition key_k1 :: row where
  "key_k1 = [(''id'', JStr ''email:a@b.com''), (''user_id'', JStr ''u1'')]"

definition session_s1 :: row where
  "session_s1 = [(''id'', JStr ''s1''), (''user_id'', JStr ''u1'')]"

definition user_u2 :: row where
  "user_u2 = [(''id'', JStr ''u2'')]"

definition key_of_u3 :: row where
  "key_of_u3 = [(''id'', JStr ''email:c@d.com''), (''user_id'', JStr ''u3'')]"

text \<open>
  A key of the user \<open>u2\<close>; a connection whose every call succeeds but the last, the close;
  and the store \<open>store_ann\<close> below with the user \<open>u2\<close> and that key added.
\<close>

definition key_k2 :: row where
  "key_k2 = [(''id'', JStr ''email:c@d.com''), (''user_id'', JStr ''u2'')]"

definition connection_lost :: jsval where
  "connection_lost = JObj [(''message'', JStr ''connection lost'')]"

definition closing_fails :: "call \<Rightarrow> jsval option" where
  "closing_fails c = (if c = ClientEnd then Some connection_lost else None)"

text \<open>
  A script in which the connection opens, \<^verbatim>\<open>BEGIN\<close> and the user insert succeed, the key
  insert fails, the \<^verbatim>\<open>ROLLBACK\<close> fails as well and the connection closes.
\<close>

definition failing_key_script :: "(jsval + row list) list" where
  "failing_key_script =
     [Inr [], Inr [], Inr [], Inl (foreign_key_violation (JStr ''u1'')),
      Inl (JObj [(''message'', JStr ''connection lost'')]), Inr []]"

text \<open>A store with one user; the same with a session of that user; the joined row of the two.\<close>

definition user_ann :: row where
  "user_ann = [(''id'', JStr ''u1''), (''name'', JStr ''Ann'')]"

definition store_ann :: store where
  "store_ann = empty_store(quote_name ''auth_user'' := [user_ann])"

definition store_session :: store where
  "store_session = store_ann(quote_name ''user_session'' := [session_s1])"

definition store_ann_u2 :: store where
  "store_ann_u2 =
     (store_ann(quote_name ''auth_user'' := [user_ann, user_u2]))
       (quote_name ''user_key'' := [key_k2])"

definition joined_ann :: row where
  "joined_ann = [(''id'', JStr ''u1''), (''name'', JStr ''Ann''), (''__session_id'', JStr ''s1'')]"

text \<open>A partial user: one field to change and one to add.\<close>

definition partial_ann :: row where
  "partial_ann = [(''name'', JStr ''Bob''), (''age'', JNum 3)]"

section \<open>Properties\<close>

subsection \<open>Basic facts\<close>

lemmas scripted_simps =
  scripted_env_def pop_def pop_unit_def start_def sql_def client_connect_def client_query_def
  client_end_def and_then_def try_catch_def try_finally_def rethrow_def helper_def
  ESCAPED_USER_TABLE_NAME_def ESCAPED_KEY_TABLE_NAME_def ESCAPED_SESSION_TABLE_NAME_def
  session_table_def quote_name_def all_tables_def no_session_tables_def

lemma scripted_env_sel:
  "neon_query scripted_env = (\<lambda>s args. pop)"
  "connect_impl scripted_env = pop_unit"
  "query_impl scripted_env = (\<lambda>s args. pop)"
  "end_impl scripted_env = pop_unit"
  "escapeName scripted_env = quote_name"
  "join_rejects_first scripted_env = False"
  by (simp_all add: scripted_env_def)

lemma placeholder_small:
  "placeholder 0 = ''$1''" "placeholder (Suc 0) = ''$2''" "placeholder 2 = ''$3''"
  by code_simp+

lemma string_of_nat_small: "string_of_nat (Suc 0) = ''1''" "string_of_nat 3 = ''3''"
  by code_simp+

lemma helper_user_u1:
  "helper scripted_env user_u1 = ([quote_name ''id''], [''$1''], [JStr ''u1''])"
  by (simp add: helper_def user_u1_def scripted_env_def placeholder_small)

lemma helper_key_k1:
  "helper scripted_env key_k1
     = ([quote_name ''id'', quote_name ''user_id''], [''$1'', ''$2''],
        [JStr ''email:a@b.com'', JStr ''u1''])"
  by (simp add: helper_def key_k1_def scripted_env_def placeholder_small)

lemma rethrow_unit_world:
  "snd (rethrow (and_then m (\<lambda>_ w'. (Inr (), w')) w)) = snd (m w)"
  by (simp add: rethrow_def and_then_def split: prod.splits sum.splits)

lemma rethrow_not_Lucia: "fst (rethrow p) \<noteq> Inl (LuciaError kind)"
  by (simp add: rethrow_def split: prod.splits sum.splits)

lemma rethrow_not_TypeError: "fst (rethrow p) \<noteq> Inl TypeError"
  by (simp add: rethrow_def split: prod.splits sum.splits)

lemma get_prop_error: "get_prop v p = Inl x \<Longrightarrow> x = TypeError"
  by (cases v) auto

lemma includes_opt_error: "includes_opt v s = Inl x \<Longrightarrow> x = TypeError"
  by (cases v) auto

lemma violation_error: "violation e code sub = Inl x \<Longrightarrow> x = TypeError"
  by (auto simp: violation_def split: sum.splits if_splits
      dest: get_prop_error includes_opt_error)

lemma session_table_None:
  "session tbls = None \<Longrightarrow> session_table env tbls = Inl (JsError ''Session table not defined'')"
  by (simp add: session_table_def ESCAPED_SESSION_TABLE_NAME_def)

lemma session_table_error:
  "session_table env tbls = Inl err \<Longrightarrow> err = JsError ''Session table not defined''"
  by (simp add: session_table_def split: option.splits if_splits)

lemma client_query_calls [simp]:
  "calls (snd (client_query env s args w)) = calls w @ [ClientQuery s args]"
  by (simp add: client_query_def split: prod.splits)

lemma client_end_calls [simp]: "calls (snd (client_end env w)) = calls w @ [ClientEnd]"
  by (simp add: client_end_def split: prod.splits)

lemma client_connect_calls [simp]:
  "calls (snd (client_connect env w)) = calls w @ [ClientConnect]"
  by (simp add: client_connect_def split: prod.splits)

lemma sql_calls [simp]: "calls (snd (sql env s args w)) = calls w @ [SqlCall s args]"
  by (simp add: sql_def split: prod.splits)

subsection \<open>Session operations without a session table\<close>

text \<open>
  Claim C3. When the table configuration has no session table, each of the seven session
  operations fails with the error \<^verbatim>\<open>Error("Session table not defined")\<close> and leaves the world
  as it found it: no call to a collaborator is logged, so no statement was issued, and the
  failure is the adapter's own error, not a value thrown by the database.
\<close>

theorem session_operations_need_session_table:
  assumes "session tbls = None"
  shows "getSession env tbls sessionId w = (Inl (JsError ''Session table not defined''), w)
       \<and> getSessionsByUserId env tbls userId w = (Inl (JsError ''Session table not defined''), w)
       \<and> setSession env tbls sess w = (Inl (JsError ''Session table not defined''), w)
       \<and> deleteSession env tbls sessionId w = (Inl (JsError ''Session table not defined''), w)
       \<and> deleteSessionsByUserId env tbls userId w
           = (Inl (JsError ''Session table not defined''), w)
       \<and> updateSession env tbls sessionId partialSession w
           = (Inl (JsError ''Session table not defined''), w)
       \<and> getSessionAndUser env tbls sessionId w
           = (Inl (JsError ''Session table not defined''), w)"
  using session_table_None [OF assms, of env]
  by (simp add: getSession_def getSessionsByUserId_def setSession_def deleteSession_def
      deleteSessionsByUserId_def updateSession_def getSessionAndUser_def)

theorem session_operations_need_session_table_witness:
  "session no_session_tables = None
   \<and> getSession scripted_env no_session_tables (JStr ''s1'') (start [])
       = (Inl (JsError ''Session table not defined''), start [])
   \<and> calls (snd (setSession scripted_env no_session_tables
                    [(''id'', JStr ''s1''), (''user_id'', JStr ''u1'')] (start []))) = []"
  using session_operations_need_session_table
    [of no_session_tables scripted_env "JStr ''s1''" "start []" _
        "[(''id'', JStr ''s1''), (''user_id'', JStr ''u1'')]"]
  by (simp add: no_session_tables_def start_def)

subsection \<open>Translation of constraint violations\<close>

lemma violation_database_error:
  "database_error e \<Longrightarrow> violation e code sub = Inr (is_violation e code sub)"
  by (auto simp: database_error_def violation_def is_violation_def
      split: jsval.splits option.splits)

lemma setKey_failure:
  assumes "helper env k = (flds, vals, args)"
    and "sql env (InsertInto (ESCAPED_KEY_TABLE_NAME env tbls) flds vals) args w = (Inl e, w')"
  shows "setKey env tbls k w =
           (case violation e ''23503'' ''Key (user_id)'' of
              Inl x \<Rightarrow> (Inl x, w')
            | Inr True \<Rightarrow> (Inl (LuciaError ''AUTH_INVALID_USER_ID''), w')
            | Inr False \<Rightarrow>
                (case violation e ''23505'' ''Key (id)'' of
                   Inl x \<Rightarrow> (Inl x, w')
                 | Inr True \<Rightarrow> (Inl (LuciaError ''AUTH_DUPLICATE_KEY_ID''), w')
                 | Inr False \<Rightarrow> (Inl (Thrown e), w')))"
  using assms by (simp add: setKey_def try_catch_def and_then_def)

lemma setSession_failure:
  assumes "session_table env tbls = Inr t"
    and "helper env sess = (flds, vals, args)"
    and "sql env (InsertInto t flds vals) args w = (Inl e, w')"
  shows "setSession env tbls sess w =
           (case violation e ''23503'' ''Key (user_id)'' of
              Inl x \<Rightarrow> (Inl x, w')
            | Inr True \<Rightarrow> (Inl (LuciaError ''AUTH_INVALID_USER_ID''), w')
            | Inr False \<Rightarrow> (Inl (Thrown e), w'))"
  using assms by (simp add: setSession_def try_catch_def and_then_def)

lemma setUser_failure:
  assumes "transaction env (setUser_execute env tbls usr k) w = (Inl e, w')"
  shows "setUser env tbls usr (Some k) w =
           (case violation e ''23505'' ''Key (id)'' of
              Inl x \<Rightarrow> (Inl x, w')
            | Inr True \<Rightarrow> (Inl (LuciaError ''AUTH_DUPLICATE_KEY_ID''), w')
            | Inr False \<Rightarrow> (Inl (Thrown e), w'))"
  using assms by (simp add: setUser_def try_catch_def)

text \<open>
  Claim C2. When the insert of \<^verbatim>\<open>setKey\<close> or \<^verbatim>\<open>setSession\<close>, or the transaction of
  \<^verbatim>\<open>setUser\<close> with a key, fails with a database error \<open>e\<close>: code \<^verbatim>\<open>23505\<close> with a detail
  containing \<^verbatim>\<open>Key (id)\<close> becomes \<^verbatim>\<open>AUTH_DUPLICATE_KEY_ID\<close> in \<^verbatim>\<open>setKey\<close> and in
  \<^verbatim>\<open>setUser\<close> with a key; code \<^verbatim>\<open>23503\<close> with a detail containing \<^verbatim>\<open>Key (user_id)\<close>
  becomes \<^verbatim>\<open>AUTH_INVALID_USER_ID\<close> in \<^verbatim>\<open>setKey\<close> and \<^verbatim>\<open>setSession\<close>; every other error
  is passed on as it was thrown.
\<close>

theorem constraint_errors_translated:
  assumes "database_error e"
  shows "(helper env k = (flds, vals, args)
          \<and> sql env (InsertInto (ESCAPED_KEY_TABLE_NAME env tbls) flds vals) args w = (Inl e, w')
          \<longrightarrow> setKey env tbls k w =
                (Inl (if is_violation e ''23503'' ''Key (user_id)''
                      then LuciaError ''AUTH_INVALID_USER_ID''
                      else if is_violation e ''23505'' ''Key (id)''
                      then LuciaError ''AUTH_DUPLICATE_KEY_ID''
                      else Thrown e), w'))
       \<and> (session_table env tbls = Inr t \<and> helper env sess = (flds, vals, args)
          \<and> sql env (InsertInto t flds vals) args w = (Inl e, w')
          \<longrightarrow> setSession env tbls sess w =
                (Inl (if is_violation e ''23503'' ''Key (user_id)''
                      then LuciaError ''AUTH_INVALID_USER_ID''
                      else Thrown e), w'))
       \<and> (transaction env (setUser_execute env tbls usr k) w = (Inl e, w')
          \<longrightarrow> setUser env tbls usr (Some k) w =
                (Inl (if is_violation e ''23505'' ''Key (id)''
                      then LuciaError ''AUTH_DUPLICATE_KEY_ID''
                      else Thrown e), w'))"
proof (intro conjI impI)
  assume a: "helper env k = (flds, vals, args)
     \<and> sql env (InsertInto (ESCAPED_KEY_TABLE_NAME env tbls) flds vals) args w = (Inl e, w')"
  show "setKey env tbls k w =
          (Inl (if is_violation e ''23503'' ''Key (user_id)''
                then LuciaError ''AUTH_INVALID_USER_ID''
                else if is_violation e ''23505'' ''Key (id)''
                then LuciaError ''AUTH_DUPLICATE_KEY_ID''
                else Thrown e), w')"
    using a setKey_failure [of env k flds vals args tbls w e w']
    by (simp add: violation_database_error [OF assms])
next
  assume a: "session_table env tbls = Inr t \<and> helper env sess = (flds, vals, args)
     \<and> sql env (InsertInto t flds vals) args w = (Inl e, w')"
  show "setSession env tbls sess w =
          (Inl (if is_violation e ''23503'' ''Key (user_id)''
                then LuciaError ''AUTH_INVALID_USER_ID''
                else Thrown e), w')"
    using a setSession_failure [of env tbls t sess flds vals args w e w']
    by (simp add: violation_database_error [OF assms])
next
  assume a: "transaction env (setUser_execute env tbls usr k) w = (Inl e, w')"
  show "setUser env tbls usr (Some k) w =
          (Inl (if is_violation e ''23505'' ''Key (id)''
                then LuciaError ''AUTH_DUPLICATE_KEY_ID''
                else Thrown e), w')"
    using setUser_failure [OF a] by (simp add: violation_database_error [OF assms])
qed

theorem constraint_errors_translated_witness:
  "database_error (unique_violation (JStr ''email:a@b.com''))
   \<and> fst (setKey scripted_env all_tables key_k1
            (start [Inl (unique_violation (JStr ''email:a@b.com''))]))
       = Inl (LuciaError ''AUTH_DUPLICATE_KEY_ID'')
   \<and> fst (setSession scripted_env all_tables session_s1
            (start [Inl (unique_violation (JStr ''s1''))]))
       = Inl (Thrown (unique_violation (JStr ''s1'')))
   \<and> fst (setUser scripted_env all_tables user_u1 (Some key_k1)
            (start [Inr [], Inr [], Inr [], Inl (unique_violation (JStr ''email:a@b.com''))]))
       = Inl (LuciaError ''AUTH_DUPLICATE_KEY_ID'')"
proof -
  let ?e = "unique_violation (JStr ''email:a@b.com'')"
  let ?e' = "unique_violation (JStr ''s1'')"
  have d: "database_error ?e" and d': "database_error ?e'"
    by (simp_all add: database_error_def unique_violation_def db_error_def)
  have v: "is_violation ?e ''23505'' ''Key (id)''" "\<not> is_violation ?e ''23503'' ''Key (user_id)''"
    "\<not> is_violation ?e' ''23503'' ''Key (user_id)''"
    by (simp_all add: is_violation_def unique_violation_def db_error_def key_text_def)
  have k: "sql scripted_env (InsertInto (ESCAPED_KEY_TABLE_NAME scripted_env all_tables)
              (fst (helper scripted_env key_k1)) (fst (snd (helper scripted_env key_k1))))
              (snd (snd (helper scripted_env key_k1))) (start [Inl ?e])
           = (Inl ?e, snd (setKey scripted_env all_tables key_k1 (start [Inl ?e])))"
    by (simp add: scripted_simps setKey_def key_k1_def split: sum.splits bool.splits)
  have s: "sql scripted_env (InsertInto (quote_name ''user_session'')
              (fst (helper scripted_env session_s1)) (fst (snd (helper scripted_env session_s1))))
              (snd (snd (helper scripted_env session_s1))) (start [Inl ?e'])
           = (Inl ?e', snd (setSession scripted_env all_tables session_s1 (start [Inl ?e'])))"
    by (simp add: scripted_simps setSession_def session_s1_def split: sum.splits bool.splits)
  have st: "session_table scripted_env all_tables = Inr (quote_name ''user_session'')"
    by (simp add: scripted_simps)
  have u: "transaction scripted_env (setUser_execute scripted_env all_tables user_u1 key_k1)
             (start [Inr [], Inr [], Inr [], Inl ?e])
           = (Inl ?e, snd (setUser scripted_env all_tables user_u1 (Some key_k1)
                             (start [Inr [], Inr [], Inr [], Inl ?e])))"
    by (simp add: scripted_simps setUser_def transaction_def transaction_body_def
        setUser_execute_def user_u1_def key_k1_def split: sum.splits bool.splits)
  show ?thesis
    using d v
      constraint_errors_translated [OF d, where env = scripted_env and k = key_k1
        and tbls = all_tables and w = "start [Inl ?e]"] k
      constraint_errors_translated [OF d, where env = scripted_env and k = key_k1
        and usr = user_u1 and tbls = all_tables
        and w = "start [Inr [], Inr [], Inr [], Inl ?e]"] u
      constraint_errors_translated [OF d', where env = scripted_env and sess = session_s1
        and tbls = all_tables and t = "quote_name ''user_session''"
        and w = "start [Inl ?e']"] s st
    by (simp add: prod_eq_iff)
qed

subsection \<open>\<^verbatim>\<open>setUser\<close> without a key\<close>

lemma no_duplicate_key_error_elsewhere:
  "fst (getUser env tbls userId w) \<noteq> Inl (LuciaError ''AUTH_DUPLICATE_KEY_ID'')"
  "fst (deleteUser env tbls userId w) \<noteq> Inl (LuciaError ''AUTH_DUPLICATE_KEY_ID'')"
  "fst (updateUser env tbls userId partialUser w) \<noteq> Inl (LuciaError ''AUTH_DUPLICATE_KEY_ID'')"
  "fst (getSession env tbls sessionId w) \<noteq> Inl (LuciaError ''AUTH_DUPLICATE_KEY_ID'')"
  "fst (getSessionsByUserId env tbls userId w) \<noteq> Inl (LuciaError ''AUTH_DUPLICATE_KEY_ID'')"
  "fst (setSession env tbls sess w) \<noteq> Inl (LuciaError ''AUTH_DUPLICATE_KEY_ID'')"
  "fst (deleteSession env tbls sessionId w) \<noteq> Inl (LuciaError ''AUTH_DUPLICATE_KEY_ID'')"
  "fst (deleteSessionsByUserId env tbls userId w) \<noteq> Inl (LuciaError ''AUTH_DUPLICATE_KEY_ID'')"
  "fst (updateSession env tbls sessionId partialSession w)
     \<noteq> Inl (LuciaError ''AUTH_DUPLICATE_KEY_ID'')"
  "fst (getKey env tbls keyId w) \<noteq> Inl (LuciaError ''AUTH_DUPLICATE_KEY_ID'')"
  "fst (getKeysByUserId env tbls userId w) \<noteq> Inl (LuciaError ''AUTH_DUPLICATE_KEY_ID'')"
  "fst (deleteKey env tbls keyId w) \<noteq> Inl (LuciaError ''AUTH_DUPLICATE_KEY_ID'')"
  "fst (deleteKeysByUserId env tbls userId w) \<noteq> Inl (LuciaError ''AUTH_DUPLICATE_KEY_ID'')"
  "fst (updateKey env tbls keyId partialKey w) \<noteq> Inl (LuciaError ''AUTH_DUPLICATE_KEY_ID'')"
  "fst (getSessionAndUser env tbls sessionId w) \<noteq> Inl (LuciaError ''AUTH_DUPLICATE_KEY_ID'')"
proof -
  show "fst (getUser env tbls userId w) \<noteq> Inl (LuciaError ''AUTH_DUPLICATE_KEY_ID'')"
    by (simp add: getUser_def rethrow_not_Lucia)
  show "fst (deleteUser env tbls userId w) \<noteq> Inl (LuciaError ''AUTH_DUPLICATE_KEY_ID'')"
    by (simp add: deleteUser_def rethrow_not_Lucia)
  show "fst (updateUser env tbls userId partialUser w) \<noteq> Inl (LuciaError ''AUTH_DUPLICATE_KEY_ID'')"
    by (simp add: updateUser_def rethrow_not_Lucia split: prod.splits)
  show "fst (getSession env tbls sessionId w) \<noteq> Inl (LuciaError ''AUTH_DUPLICATE_KEY_ID'')"
    by (auto simp: getSession_def rethrow_def dest: session_table_error
        split: sum.splits prod.splits)
  show "fst (getSessionsByUserId env tbls userId w) \<noteq> Inl (LuciaError ''AUTH_DUPLICATE_KEY_ID'')"
    by (auto simp: getSessionsByUserId_def rethrow_def dest: session_table_error
        split: sum.splits prod.splits)
  show "fst (setSession env tbls sess w) \<noteq> Inl (LuciaError ''AUTH_DUPLICATE_KEY_ID'')"
    by (auto simp: setSession_def try_catch_def dest: session_table_error violation_error
        split: sum.splits prod.splits bool.splits)
  show "fst (deleteSession env tbls sessionId w) \<noteq> Inl (LuciaError ''AUTH_DUPLICATE_KEY_ID'')"
    by (auto simp: deleteSession_def rethrow_not_Lucia dest: session_table_error
        split: sum.splits)
  show "fst (deleteSessionsByUserId env tbls userId w) \<noteq> Inl (LuciaError ''AUTH_DUPLICATE_KEY_ID'')"
    by (auto simp: deleteSessionsByUserId_def rethrow_not_Lucia dest: session_table_error
        split: sum.splits)
  show "fst (updateSession env tbls sessionId partialSession w)
     \<noteq> Inl (LuciaError ''AUTH_DUPLICATE_KEY_ID'')"
    by (auto simp: updateSession_def rethrow_not_Lucia dest: session_table_error
        split: sum.splits prod.splits)
  show "fst (getKey env tbls keyId w) \<noteq> Inl (LuciaError ''AUTH_DUPLICATE_KEY_ID'')"
    by (simp add: getKey_def rethrow_not_Lucia)
  show "fst (getKeysByUserId env tbls userId w) \<noteq> Inl (LuciaError ''AUTH_DUPLICATE_KEY_ID'')"
    by (simp add: getKeysByUserId_def rethrow_not_Lucia)
  show "fst (deleteKey env tbls keyId w) \<noteq> Inl (LuciaError ''AUTH_DUPLICATE_KEY_ID'')"
    by (simp add: deleteKey_def rethrow_not_Lucia)
  show "fst (deleteKeysByUserId env tbls userId w) \<noteq> Inl (LuciaError ''AUTH_DUPLICATE_KEY_ID'')"
    by (simp add: deleteKeysByUserId_def rethrow_not_Lucia)
  show "fst (updateKey env tbls keyId partialKey w) \<noteq> Inl (LuciaError ''AUTH_DUPLICATE_KEY_ID'')"
    by (simp add: updateKey_def rethrow_not_Lucia split: prod.splits)
  show "fst (getSessionAndUser env tbls sessionId w) \<noteq> Inl (LuciaError ''AUTH_DUPLICATE_KEY_ID'')"
    by (auto simp: getSessionAndUser_def dest: session_table_error
        split: sum.splits prod.splits option.splits)
qed

text \<open>
  Claim C6. \<^verbatim>\<open>setUser\<close> without a key issues the one insert and translates nothing:
  whatever the insert throws, a uniqueness violation of the user's id included, reaches
  the caller as it was thrown, never as a \<^verbatim>\<open>LuciaError\<close>. No operation other than
  \<^verbatim>\<open>setUser\<close> with a key and \<^verbatim>\<open>setKey\<close> fails with \<^verbatim>\<open>AUTH_DUPLICATE_KEY_ID\<close>.
\<close>

theorem setUser_without_key_propagates:
  assumes "helper env usr = (userFields, userValues, userArgs)"
  shows "setUser env tbls usr None w =
           (case sql env (InsertInto (ESCAPED_USER_TABLE_NAME env tbls) userFields userValues)
                   userArgs w of
              (Inl e, w') \<Rightarrow> (Inl (Thrown e), w')
            | (Inr rows, w') \<Rightarrow> (Inr (), w'))
       \<and> (\<forall>kind. fst (setUser env tbls usr None w) \<noteq> Inl (LuciaError kind))
       \<and> fst (setUser env tbls usr None w) \<noteq> Inl TypeError
       \<and> fst (getUser env tbls userId w) \<noteq> Inl (LuciaError ''AUTH_DUPLICATE_KEY_ID'')
       \<and> fst (deleteUser env tbls userId w) \<noteq> Inl (LuciaError ''AUTH_DUPLICATE_KEY_ID'')
       \<and> fst (updateUser env tbls userId partialUser w)
           \<noteq> Inl (LuciaError ''AUTH_DUPLICATE_KEY_ID'')
       \<and> fst (getSession env tbls sessionId w) \<noteq> Inl (LuciaError ''AUTH_DUPLICATE_KEY_ID'')
       \<and> fst (getSessionsByUserId env tbls userId w)
           \<noteq> Inl (LuciaError ''AUTH_DUPLICATE_KEY_ID'')
       \<and> fst (setSession env tbls sess w) \<noteq> Inl (LuciaError ''AUTH_DUPLICATE_KEY_ID'')
       \<and> fst (deleteSession env tbls sessionId w) \<noteq> Inl (LuciaError ''AUTH_DUPLICATE_KEY_ID'')
       \<and> fst (deleteSessionsByUserId env tbls userId w)
           \<noteq> Inl (LuciaError ''AUTH_DUPLICATE_KEY_ID'')
       \<and> fst (updateSession env tbls sessionId partialSession w)
           \<noteq> Inl (LuciaError ''AUTH_DUPLICATE_KEY_ID'')
       \<and> fst (getKey env tbls keyId w) \<noteq> Inl (LuciaError ''AUTH_DUPLICATE_KEY_ID'')
       \<and> fst (getKeysByUserId env tbls userId w) \<noteq> Inl (LuciaError ''AUTH_DUPLICATE_KEY_ID'')
       \<and> fst (deleteKey env tbls keyId w) \<noteq> Inl (LuciaError ''AUTH_DUPLICATE_KEY_ID'')
       \<and> fst (deleteKeysByUserId env tbls userId w)
           \<noteq> Inl (LuciaError ''AUTH_DUPLICATE_KEY_ID'')
       \<and> fst (updateKey env tbls keyId partialKey w)
           \<noteq> Inl (LuciaError ''AUTH_DUPLICATE_KEY_ID'')
       \<and> fst (getSessionAndUser env tbls sessionId w)
           \<noteq> Inl (LuciaError ''AUTH_DUPLICATE_KEY_ID'')"
proof -
  have eq: "setUser env tbls usr None w =
      rethrow (and_then
        (sql env (InsertInto (ESCAPED_USER_TABLE_NAME env tbls) userFields userValues) userArgs)
        (\<lambda>_ w'. (Inr (), w')) w)"
    using assms by (simp add: setUser_def)
  have "setUser env tbls usr None w =
           (case sql env (InsertInto (ESCAPED_USER_TABLE_NAME env tbls) userFields userValues)
                   userArgs w of
              (Inl e, w') \<Rightarrow> (Inl (Thrown e), w')
            | (Inr rows, w') \<Rightarrow> (Inr (), w'))"
    unfolding eq by (simp add: rethrow_def and_then_def split: prod.splits sum.splits)
  moreover have "\<forall>kind. fst (setUser env tbls usr None w) \<noteq> Inl (LuciaError kind)"
    unfolding eq by (simp add: rethrow_not_Lucia)
  moreover have "fst (setUser env tbls usr None w) \<noteq> Inl TypeError"
    unfolding eq by (simp add: rethrow_not_TypeError)
  ultimately show ?thesis
    by (simp only: no_duplicate_key_error_elsewhere simp_thms)
qed

theorem setUser_without_key_propagates_witness:
  "helper scripted_env user_u1 = ([quote_name ''id''], [''$1''], [JStr ''u1''])
   \<and> is_violation (unique_violation (JStr ''u1'')) ''23505'' ''Key (id)''
   \<and> fst (setUser scripted_env all_tables user_u1 None
            (start [Inl (unique_violation (JStr ''u1''))]))
       = Inl (Thrown (unique_violation (JStr ''u1'')))"
proof -
  have h: "helper scripted_env user_u1 = ([quote_name ''id''], [''$1''], [JStr ''u1''])"
    by (simp add: helper_def user_u1_def scripted_env_def placeholder_small)
  have v: "is_violation (unique_violation (JStr ''u1'')) ''23505'' ''Key (id)''"
    by (simp add: is_violation_def unique_violation_def db_error_def key_text_def)
  show ?thesis
    using h v setUser_without_key_propagates [OF h, where tbls = all_tables
        and w = "start [Inl (unique_violation (JStr ''u1''))]"]
    by (simp add: sql_def scripted_env_def pop_def start_def)
qed

subsection \<open>Totality of the classification\<close>

lemma get_prop_field: "get_prop e p = (if nullish e then Inl TypeError else Inr (field_of e p))"
  by (cases e) (simp_all add: nullish_def field_of_def)

lemma includes_opt_cases:
  "includes_opt d sub =
     (if nullish d then Inr JUndefined
      else if searchable d then Inr (JBool (contains d sub))
      else Inl TypeError)"
  by (cases d) (simp_all add: nullish_def searchable_def contains_def)

lemma violation_cases:
  "violation e code sub =
     (if raising e code then Inl TypeError
      else Inr (field_of e ''code'' = JStr code \<and> contains (field_of e ''detail'') sub))"
  by (auto simp: violation_def get_prop_field includes_opt_cases raising_def nullish_def
      contains_def)

lemma violation_raises: "(violation e code sub = Inl TypeError) = raising e code"
  by (simp add: violation_cases)

lemma violation_false:
  "(violation e code sub = Inr False) = (\<not> raising e code \<and> unmatched e code sub)"
  by (auto simp: violation_cases unmatched_def lacks_def nullish_def contains_def)

lemma raising_other_code:
  "raising e ''23505'' \<Longrightarrow> \<not> raising e ''23503'' \<Longrightarrow> violation e ''23503'' sub = Inr False"
  by (auto simp: violation_cases raising_def)

lemma setKey_classification:
  assumes "helper env k = (flds, vals, args)"
    and "sql env (InsertInto (ESCAPED_KEY_TABLE_NAME env tbls) flds vals) args w = (Inl e, w')"
  shows "(fst (setKey env tbls k w) = Inl TypeError) = (raising e ''23503'' \<or> raising e ''23505'')"
    and "(setKey env tbls k w = (Inl (Thrown e), w'))
           = (\<not> raising e ''23503'' \<and> \<not> raising e ''23505''
              \<and> unmatched e ''23503'' ''Key (user_id)'' \<and> unmatched e ''23505'' ''Key (id)'')"
proof -
  note r = setKey_failure [OF assms]
  show "(fst (setKey env tbls k w) = Inl TypeError) = (raising e ''23503'' \<or> raising e ''23505'')"
  proof (cases "raising e ''23503''")
    case True
    then show ?thesis
      unfolding r by (simp add: violation_cases split: bool.splits)
  next
    case False
    show ?thesis
    proof (cases "raising e ''23505''")
      case True
      then show ?thesis
        unfolding r using raising_other_code [OF True False] by (simp add: violation_cases split: bool.splits)
    next
      case no: False
      then show ?thesis
        unfolding r using False by (simp add: violation_cases split: bool.splits)
    qed
  qed
  show "(setKey env tbls k w = (Inl (Thrown e), w'))
          = (\<not> raising e ''23503'' \<and> \<not> raising e ''23505''
             \<and> unmatched e ''23503'' ''Key (user_id)'' \<and> unmatched e ''23505'' ''Key (id)'')"
  proof -
    have "(setKey env tbls k w = (Inl (Thrown e), w'))
            = (violation e ''23503'' ''Key (user_id)'' = Inr False
               \<and> violation e ''23505'' ''Key (id)'' = Inr False)"
      unfolding r by (auto split: sum.splits bool.splits dest: violation_error)
    then show ?thesis
      by (auto simp: violation_false)
  qed
qed

lemma setSession_classification:
  assumes "session_table env tbls = Inr t"
    and "helper env sess = (flds, vals, args)"
    and "sql env (InsertInto t flds vals) args w = (Inl e, w')"
  shows "(fst (setSession env tbls sess w) = Inl TypeError) = raising e ''23503''"
    and "(setSession env tbls sess w = (Inl (Thrown e), w'))
           = (\<not> raising e ''23503'' \<and> unmatched e ''23503'' ''Key (user_id)'')"
proof -
  note r = setSession_failure [OF assms]
  show "(fst (setSession env tbls sess w) = Inl TypeError) = raising e ''23503''"
    unfolding r by (simp add: violation_cases split: bool.splits)
  show "(setSession env tbls sess w = (Inl (Thrown e), w'))
          = (\<not> raising e ''23503'' \<and> unmatched e ''23503'' ''Key (user_id)'')"
  proof -
    have "(setSession env tbls sess w = (Inl (Thrown e), w'))
            = (violation e ''23503'' ''Key (user_id)'' = Inr False)"
      unfolding r by (auto split: sum.splits bool.splits dest: violation_error)
    then show ?thesis
      by (simp add: violation_false)
  qed
qed

lemma setUser_classification:
  assumes "transaction env (setUser_execute env tbls usr k) w = (Inl e, w')"
  shows "(fst (setUser env tbls usr (Some k) w) = Inl TypeError) = raising e ''23505''"
    and "(setUser env tbls usr (Some k) w = (Inl (Thrown e), w'))
           = (\<not> raising e ''23505'' \<and> unmatched e ''23505'' ''Key (id)'')"
proof -
  note r = setUser_failure [OF assms]
  show "(fst (setUser env tbls usr (Some k) w) = Inl TypeError) = raising e ''23505''"
    unfolding r by (simp add: violation_cases split: bool.splits)
  show "(setUser env tbls usr (Some k) w = (Inl (Thrown e), w'))
          = (\<not> raising e ''23505'' \<and> unmatched e ''23505'' ''Key (id)'')"
  proof -
    have "(setUser env tbls usr (Some k) w = (Inl (Thrown e), w'))
            = (violation e ''23505'' ''Key (id)'' = Inr False)"
      unfolding r by (auto split: sum.splits bool.splits dest: violation_error)
    then show ?thesis
      by (simp add: violation_false)
  qed
qed

text \<open>
  Claim C10, amended. The condition of a \<^verbatim>\<open>catch\<close> block raises, a \<^verbatim>\<open>TypeError\<close>, exactly
  when the thrown value is \<^verbatim>\<open>undefined\<close> or \<^verbatim>\<open>null\<close>, or has the code looked for and a
  detail that is neither \<^verbatim>\<open>undefined\<close>, \<^verbatim>\<open>null\<close>, a string nor an array. It evaluates to
  false exactly when it does not raise and the value lacks a \<open>code\<close> or has another code,
  lacks a \<open>detail\<close>, or its detail does not contain the matched text. So \<^verbatim>\<open>setKey\<close>,
  \<^verbatim>\<open>setSession\<close> and \<^verbatim>\<open>setUser\<close> with a key raise a \<^verbatim>\<open>TypeError\<close> exactly at the values at
  which one of their conditions raises, and throw the value they caught, unchanged,
  exactly when none of their conditions raises and none matches.
\<close>

theorem classification_raises_exactly:
  "(violation e code sub = Inl TypeError) = raising e code
   \<and> (violation e code sub = Inr False) = (\<not> raising e code \<and> unmatched e code sub)
   \<and> (helper env k = (flds, vals, args)
      \<and> sql env (InsertInto (ESCAPED_KEY_TABLE_NAME env tbls) flds vals) args w = (Inl e, w')
      \<longrightarrow> (fst (setKey env tbls k w) = Inl TypeError)
            = (raising e ''23503'' \<or> raising e ''23505'')
          \<and> (setKey env tbls k w = (Inl (Thrown e), w'))
              = (\<not> raising e ''23503'' \<and> \<not> raising e ''23505''
                 \<and> unmatched e ''23503'' ''Key (user_id)'' \<and> unmatched e ''23505'' ''Key (id)''))
   \<and> (session_table env tbls = Inr t \<and> helper env sess = (flds, vals, args)
      \<and> sql env (InsertInto t flds vals) args w = (Inl e, w')
      \<longrightarrow> (fst (setSession env tbls sess w) = Inl TypeError) = raising e ''23503''
          \<and> (setSession env tbls sess w = (Inl (Thrown e), w'))
              = (\<not> raising e ''23503'' \<and> unmatched e ''23503'' ''Key (user_id)''))
   \<and> (transaction env (setUser_execute env tbls usr k) w = (Inl e, w')
      \<longrightarrow> (fst (setUser env tbls usr (Some k) w) = Inl TypeError) = raising e ''23505''
          \<and> (setUser env tbls usr (Some k) w = (Inl (Thrown e), w'))
              = (\<not> raising e ''23505'' \<and> unmatched e ''23505'' ''Key (id)''))"
proof (intro conjI impI)
  show "(violation e code sub = Inl TypeError) = raising e code"
    by (rule violation_raises)
  show "(violation e code sub = Inr False) = (\<not> raising e code \<and> unmatched e code sub)"
    by (rule violation_false)
next
  assume a: "helper env k = (flds, vals, args)
     \<and> sql env (InsertInto (ESCAPED_KEY_TABLE_NAME env tbls) flds vals) args w = (Inl e, w')"
  show "(fst (setKey env tbls k w) = Inl TypeError) = (raising e ''23503'' \<or> raising e ''23505'')"
    by (rule setKey_classification(1) [OF conjunct1 [OF a] conjunct2 [OF a]])
  show "(setKey env tbls k w = (Inl (Thrown e), w'))
          = (\<not> raising e ''23503'' \<and> \<not> raising e ''23505''
             \<and> unmatched e ''23503'' ''Key (user_id)'' \<and> unmatched e ''23505'' ''Key (id)'')"
    by (rule setKey_classification(2) [OF conjunct1 [OF a] conjunct2 [OF a]])
next
  assume a: "session_table env tbls = Inr t \<and> helper env sess = (flds, vals, args)
     \<and> sql env (InsertInto t flds vals) args w = (Inl e, w')"
  show "(fst (setSession env tbls sess w) = Inl TypeError) = raising e ''23503''"
    by (rule setSession_classification(1) [OF conjunct1 [OF a] conjunct1 [OF conjunct2 [OF a]] conjunct2 [OF conjunct2 [OF a]]])
  show "(setSession env tbls sess w = (Inl (Thrown e), w'))
          = (\<not> raising e ''23503'' \<and> unmatched e ''23503'' ''Key (user_id)'')"
    by (rule setSession_classification(2) [OF conjunct1 [OF a] conjunct1 [OF conjunct2 [OF a]] conjunct2 [OF conjunct2 [OF a]]])
next
  assume a: "transaction env (setUser_execute env tbls usr k) w = (Inl e, w')"
  show "(fst (setUser env tbls usr (Some k) w) = Inl TypeError) = raising e ''23505''"
    using a by (rule setUser_classification(1))
  show "(setUser env tbls usr (Some k) w = (Inl (Thrown e), w'))
          = (\<not> raising e ''23505'' \<and> unmatched e ''23505'' ''Key (id)'')"
    using a by (rule setUser_classification(2))
qed

text \<open>
  The claim as stated fails: \<^verbatim>\<open>undefined\<close> lacks a \<open>code\<close>, and reading \<^verbatim>\<open>error.code\<close> of it
  raises a \<^verbatim>\<open>TypeError\<close> in place of the thrown value; a detail that is a number does not
  contain the matched text, and calling \<^verbatim>\<open>includes\<close> on it raises as well.
\<close>

theorem classification_raises_counterexample:
  "lacks JUndefined ''code''
   \<and> fst (setKey scripted_env all_tables key_k1 (start [Inl JUndefined])) = Inl TypeError
   \<and> fst (setKey scripted_env all_tables key_k1 (start [Inl JUndefined]))
       \<noteq> Inl (Thrown JUndefined)
   \<and> \<not> contains (field_of (JObj [(''code'', JStr ''23505''), (''detail'', JNum 42)]) ''detail'')
         ''Key (id)''
   \<and> fst (setKey scripted_env all_tables key_k1
            (start [Inl (JObj [(''code'', JStr ''23505''), (''detail'', JNum 42)])]))
       = Inl TypeError"
  by (simp add: lacks_def nullish_def field_of_def contains_def setKey_def scripted_simps
      key_k1_def violation_def)

theorem classification_raises_exactly_witness:
  "lacks null_detail ''detail''
   \<and> setKey scripted_env all_tables key_k1 (start [Inl null_detail])
       = (Inl (Thrown null_detail),
          \<lparr>calls = [SqlCall (InsertInto (quote_name ''user_key'')
                       [quote_name ''id'', quote_name ''user_id''] [''$1'', ''$2''])
                     [JStr ''email:a@b.com'', JStr ''u1'']],
           ext = []\<rparr>)
   \<and> \<not> contains (field_of array_detail ''detail'') ''Key (user_id)''
   \<and> fst (setSession scripted_env all_tables session_s1 (start [Inl array_detail]))
       = Inl (Thrown array_detail)
   \<and> field_of other_code ''code'' \<noteq> JStr ''23505''
   \<and> fst (setUser scripted_env all_tables user_u1 (Some key_k1)
            (start [Inr [], Inr [], Inl other_code]))
       = Inl (Thrown other_code)"
proof -
  let ?wk = "\<lparr>calls = [SqlCall (InsertInto (quote_name ''user_key'')
                         [quote_name ''id'', quote_name ''user_id''] [''$1'', ''$2''])
                       [JStr ''email:a@b.com'', JStr ''u1'']],
               ext = []\<rparr> :: (jsval + row list) list world"
  have facts: "lacks null_detail ''detail''"
    "\<not> contains (field_of array_detail ''detail'') ''Key (user_id)''"
    "field_of other_code ''code'' \<noteq> JStr ''23505''"
    by (simp_all add: lacks_def nullish_def field_of_def contains_def null_detail_def
        array_detail_def other_code_def)
  have nk: "\<not> raising null_detail ''23503''" "\<not> raising null_detail ''23505''"
    "unmatched null_detail ''23503'' ''Key (user_id)''" "unmatched null_detail ''23505'' ''Key (id)''"
    by (simp_all add: raising_def unmatched_def lacks_def nullish_def field_of_def
        null_detail_def)
  have ns: "\<not> raising array_detail ''23503''" "unmatched array_detail ''23503'' ''Key (user_id)''"
    by (simp_all add: raising_def unmatched_def lacks_def nullish_def field_of_def
        searchable_def contains_def array_detail_def)
  have nu: "\<not> raising other_code ''23505''" "unmatched other_code ''23505'' ''Key (id)''"
    by (simp_all add: raising_def unmatched_def lacks_def nullish_def field_of_def
        other_code_def)
  have k: "sql scripted_env (InsertInto (ESCAPED_KEY_TABLE_NAME scripted_env all_tables)
              [quote_name ''id'', quote_name ''user_id''] [''$1'', ''$2''])
              [JStr ''email:a@b.com'', JStr ''u1''] (start [Inl null_detail])
           = (Inl null_detail, ?wk)"
    by (simp add: sql_def scripted_env_sel pop_def start_def ESCAPED_KEY_TABLE_NAME_def
        all_tables_def)
  have st: "session_table scripted_env all_tables = Inr (quote_name ''user_session'')"
    by (simp add: session_table_def ESCAPED_SESSION_TABLE_NAME_def scripted_env_sel
        all_tables_def quote_name_def)
  have s: "sql scripted_env (InsertInto (quote_name ''user_session'')
              (fst (helper scripted_env session_s1)) (fst (snd (helper scripted_env session_s1))))
              (snd (snd (helper scripted_env session_s1))) (start [Inl array_detail])
           = (Inl array_detail,
              snd (setSession scripted_env all_tables session_s1 (start [Inl array_detail])))"
    by (simp add: scripted_simps setSession_def session_s1_def split: sum.splits bool.splits)
  have u: "transaction scripted_env (setUser_execute scripted_env all_tables user_u1 key_k1)
             (start [Inr [], Inr [], Inl other_code])
           = (Inl other_code, snd (setUser scripted_env all_tables user_u1 (Some key_k1)
                                     (start [Inr [], Inr [], Inl other_code])))"
    by (simp add: scripted_simps setUser_def transaction_def transaction_body_def
        setUser_execute_def user_u1_def key_k1_def split: sum.splits bool.splits)
  note at_key = classification_raises_exactly [where env = scripted_env and k = key_k1
        and tbls = all_tables and e = null_detail and w = "start [Inl null_detail]"
        and w' = ?wk and flds = "[quote_name ''id'', quote_name ''user_id'']"
        and vals = "[''$1'', ''$2'']" and args = "[JStr ''email:a@b.com'', JStr ''u1'']"]
  note at_session = classification_raises_exactly [where env = scripted_env
        and sess = session_s1 and tbls = all_tables and e = array_detail
        and t = "quote_name ''user_session''" and w = "start [Inl array_detail]"
        and flds = "fst (helper scripted_env session_s1)"
        and vals = "fst (snd (helper scripted_env session_s1))"
        and args = "snd (snd (helper scripted_env session_s1))"
        and w' = "snd (setSession scripted_env all_tables session_s1 (start [Inl array_detail]))"]
  note at_user = classification_raises_exactly [where env = scripted_env and usr = user_u1
        and k = key_k1 and tbls = all_tables and e = other_code
        and w = "start [Inr [], Inr [], Inl other_code]"
        and w' = "snd (setUser scripted_env all_tables user_u1 (Some key_k1)
                         (start [Inr [], Inr [], Inl other_code]))"]
  have a: "setKey scripted_env all_tables key_k1 (start [Inl null_detail])
             = (Inl (Thrown null_detail), ?wk)"
    using conjunct1 [OF conjunct2 [OF conjunct2 [OF at_key]]] helper_key_k1 k nk by blast
  have b: "setSession scripted_env all_tables session_s1 (start [Inl array_detail])
             = (Inl (Thrown array_detail),
                snd (setSession scripted_env all_tables session_s1 (start [Inl array_detail])))"
    using conjunct1 [OF conjunct2 [OF conjunct2 [OF conjunct2 [OF at_session]]]] st s ns
    by (metis prod.collapse)
  have c: "setUser scripted_env all_tables user_u1 (Some key_k1)
               (start [Inr [], Inr [], Inl other_code])
             = (Inl (Thrown other_code),
                snd (setUser scripted_env all_tables user_u1 (Some key_k1)
                       (start [Inr [], Inr [], Inl other_code])))"
    using conjunct2 [OF conjunct2 [OF conjunct2 [OF conjunct2 [OF at_user]]]] u nu by blast
  show ?thesis
    using facts a b c by (simp add: prod_eq_iff)
qed

subsection \<open>The dedicated connection\<close>

lemma transaction_unfold:
  "transaction env X w =
     (case client_connect env w of
        (Inl e, w1) \<Rightarrow> (Inl e, w1)
      | (Inr _, w1) \<Rightarrow>
          (case transaction_body env X w1 of
             (Inr _, w2) \<Rightarrow>
               (case client_end env w2 of
                  (Inl e2, w4) \<Rightarrow> (Inl e2, w4)
                | (Inr _, w4) \<Rightarrow> (Inr (), w4))
           | (Inl e, w2) \<Rightarrow>
               (case client_end env (snd (client_query env Rollback [] w2)) of
                  (Inl e2, w4) \<Rightarrow> (Inl e2, w4)
                | (Inr _, w4) \<Rightarrow> (Inl e, w4))))"
  by (simp add: transaction_def and_then_def try_finally_def try_catch_def
      split: prod.splits sum.splits)

lemma transaction_body_steps:
  "\<exists>n. 1 \<le> n \<and> n \<le> 4
       \<and> calls (snd (transaction_body env (setUser_execute env tbls usr k) w1))
           = calls w1 @ take n (transaction_steps env tbls usr k)
       \<and> (fst (transaction_body env (setUser_execute env tbls usr k) w1) = Inr () \<longrightarrow> n = 4)"
proof -
  obtain uf uv ua where hu: "helper env usr = (uf, uv, ua)" by (cases "helper env usr") auto
  obtain kf kv ka where hk: "helper env k = (kf, kv, ka)" by (cases "helper env k") auto
  let ?b = "client_query env Begin [] w1"
  let ?u = "client_query env (InsertInto (ESCAPED_USER_TABLE_NAME env tbls) uf uv) ua (snd ?b)"
  let ?k = "client_query env (InsertInto (ESCAPED_KEY_TABLE_NAME env tbls) kf kv) ka (snd ?u)"
  let ?c = "client_query env Commit [] (snd ?k)"
  let ?body = "transaction_body env (setUser_execute env tbls usr k) w1"
  let ?steps = "transaction_steps env tbls usr k"
  have steps: "?steps = [ClientQuery Begin [],
      ClientQuery (InsertInto (ESCAPED_USER_TABLE_NAME env tbls) uf uv) ua,
      ClientQuery (InsertInto (ESCAPED_KEY_TABLE_NAME env tbls) kf kv) ka,
      ClientQuery Commit []]"
    by (simp add: transaction_steps_def hu hk)
  consider (b) e where "fst ?b = Inl e"
    | (u) e where "\<exists>r. fst ?b = Inr r" "fst ?u = Inl e"
    | (k) e where "\<exists>r. fst ?b = Inr r" "\<exists>r. fst ?u = Inr r" "fst ?k = Inl e"
    | (c) "\<exists>r. fst ?b = Inr r" "\<exists>r. fst ?u = Inr r" "\<exists>r. fst ?k = Inr r"
    by (metis sum.exhaust_sel)
  then show ?thesis
  proof cases
    case b
    then have "snd ?body = snd ?b \<and> fst ?body = Inl e"
      by (auto simp: transaction_body_def and_then_def split: prod.splits sum.splits)
    then show ?thesis
      by (intro exI [of _ 1]) (simp add: steps)
  next
    case u
    then have "snd ?body = snd ?u \<and> fst ?body = Inl e"
      by (auto simp: transaction_body_def setUser_execute_def hu hk and_then_def
          split: prod.splits sum.splits)
    then show ?thesis
      by (intro exI [of _ 2]) (simp add: steps)
  next
    case k
    then have "snd ?body = snd ?k \<and> fst ?body = Inl e"
      by (auto simp: transaction_body_def setUser_execute_def hu hk and_then_def
          split: prod.splits sum.splits)
    then show ?thesis
      by (intro exI [of _ 3]) (simp add: steps)
  next
    case c
    then have "snd ?body = snd ?c"
      by (auto simp: transaction_body_def setUser_execute_def hu hk and_then_def
          split: prod.splits sum.splits)
    then show ?thesis
      by (intro exI [of _ 4]) (simp add: steps)
  qed
qed

lemma transaction_world:
  assumes "client_connect env w = (Inr (), w1)"
  shows "transaction_body env X w1 = (Inr u, w2)
           \<Longrightarrow> snd (transaction env X w) = snd (client_end env w2)"
    and "transaction_body env X w1 = (Inl e, w2)
           \<Longrightarrow> snd (transaction env X w)
               = snd (client_end env (snd (client_query env Rollback [] w2)))"
    and "transaction_body env X w1 = (Inl e, w2)
           \<Longrightarrow> fst (client_end env (snd (client_query env Rollback [] w2))) = Inr ()
           \<Longrightarrow> fst (transaction env X w) = Inl e"
  using assms by (auto simp: transaction_unfold split: prod.splits sum.splits)

lemma setUser_world:
  "snd (setUser env tbls usr (Some k) w) = snd (transaction env (setUser_execute env tbls usr k) w)"
  by (simp add: setUser_def try_catch_def split: prod.splits sum.splits bool.splits)

lemma count_take_steps:
  "count_list (take n (transaction_steps env tbls usr k)) ClientEnd = 0"
proof -
  have "ClientEnd \<notin> set (transaction_steps env tbls usr k)"
    by (simp add: transaction_steps_def)
  then have "ClientEnd \<notin> set (take n (transaction_steps env tbls usr k))"
    by (meson in_set_takeD)
  then show ?thesis by (simp add: count_list_0_iff)
qed

text \<open>
  Claim C7, amended. Once \<^verbatim>\<open>client.connect()\<close> has succeeded, every exit of \<^verbatim>\<open>setUser\<close>
  with a key closes the connection: \<^verbatim>\<open>client.end()\<close> is the last call and is made exactly
  once. When the body of the transaction succeeds nothing comes between its last statement
  and the close; when it fails with \<open>e\<close>, a \<^verbatim>\<open>ROLLBACK\<close> is issued before the close, its
  outcome is ignored, and \<open>e\<close> is what the transaction throws provided the close itself
  does not fail. The \<^verbatim>\<open>catch\<close> block of \<^verbatim>\<open>setUser\<close> makes no further call.
\<close>

theorem connection_closed_after_connect:
  assumes "client_connect env w = (Inr (), wc)"
  shows "(transaction_body env (setUser_execute env tbls usr k) wc = (Inr (), wb)
          \<longrightarrow> calls (snd (setUser env tbls usr (Some k) w)) = calls wb @ [ClientEnd])
       \<and> (transaction_body env (setUser_execute env tbls usr k) wc = (Inl e, wb)
          \<longrightarrow> calls (snd (setUser env tbls usr (Some k) w))
                = calls wb @ [ClientQuery Rollback [], ClientEnd]
              \<and> (fst (client_end env (snd (client_query env Rollback [] wb))) = Inr ()
                 \<longrightarrow> fst (transaction env (setUser_execute env tbls usr k) w) = Inl e))
       \<and> last (calls (snd (setUser env tbls usr (Some k) w))) = ClientEnd
       \<and> count_list (calls (snd (setUser env tbls usr (Some k) w))) ClientEnd
           = Suc (count_list (calls w) ClientEnd)"
proof -
  let ?X = "setUser_execute env tbls usr k"
  have wcc: "calls wc = calls w @ [ClientConnect]"
    using client_connect_calls [of env w] assms by simp
  obtain n where n: "calls (snd (transaction_body env ?X wc))
                       = calls wc @ take n (transaction_steps env tbls usr k)"
    using transaction_body_steps [of env tbls usr k wc] by blast
  have ok: "calls (snd (transaction env ?X w)) = calls wb @ [ClientEnd]"
    if "transaction_body env ?X wc = (Inr (), wb)" for wb
    using that transaction_world(1) [OF assms, of ?X "()" wb] by simp
  have bad: "calls (snd (transaction env ?X w)) = calls wb @ [ClientQuery Rollback [], ClientEnd]
      \<and> (fst (client_end env (snd (client_query env Rollback [] wb))) = Inr ()
         \<longrightarrow> fst (transaction env ?X w) = Inl e)"
    if "transaction_body env ?X wc = (Inl e, wb)" for e wb
    using that transaction_world(2,3) [OF assms, of ?X e wb] by simp
  have shape: "\<exists>cs. calls (snd (transaction env ?X w))
                 = calls wc @ take n (transaction_steps env tbls usr k) @ cs @ [ClientEnd]
               \<and> ClientEnd \<notin> set cs"
  proof (cases "transaction_body env ?X wc")
    case (Pair r wb)
    then have c2: "calls wb = calls wc @ take n (transaction_steps env tbls usr k)"
      using n by simp
    show ?thesis
    proof (cases r)
      case (Inl e)
      then show ?thesis
        using bad [of e wb] Pair c2 by (intro exI [of _ "[ClientQuery Rollback []]"]) simp
    next
      case (Inr u)
      then show ?thesis
        using ok [of wb] Pair c2 by (intro exI [of _ "[]"]) simp
    qed
  qed
  then obtain cs where cs: "calls (snd (transaction env ?X w))
       = calls wc @ take n (transaction_steps env tbls usr k) @ cs @ [ClientEnd]"
    and nocs: "ClientEnd \<notin> set cs"
    by blast
  have l: "last (calls (snd (transaction env ?X w))) = ClientEnd"
    unfolding cs by simp
  have c: "count_list (calls (snd (transaction env ?X w))) ClientEnd
             = Suc (count_list (calls w) ClientEnd)"
    unfolding cs wcc using nocs by (simp add: count_take_steps count_list_0_iff)
  show ?thesis
    using ok bad l c by (simp add: setUser_world)
qed

text \<open>
  The claim as stated fails: \<^verbatim>\<open>client.connect()\<close> is awaited outside the \<^verbatim>\<open>try\<close>, so
  when it rejects \<^verbatim>\<open>client.end()\<close> is never called.
\<close>

theorem connection_closed_counterexample:
  "setUser scripted_env all_tables user_u1 (Some key_k1)
     (start [Inl (JObj [(''message'', JStr ''connection refused'')])])
   = (Inl (Thrown (JObj [(''message'', JStr ''connection refused'')])),
      \<lparr>calls = [ClientConnect], ext = []\<rparr>)
   \<and> ClientEnd \<notin> set (calls (snd (setUser scripted_env all_tables user_u1 (Some key_k1)
                                    (start [Inl (JObj [(''message'', JStr ''connection refused'')])]))))"
  by (simp add: setUser_def transaction_def scripted_simps violation_def)

theorem connection_closed_after_connect_witness:
  "client_connect scripted_env (start failing_key_script)
     = (Inr (), \<lparr>calls = [ClientConnect], ext = tl failing_key_script\<rparr>)
   \<and> fst (transaction_body scripted_env (setUser_execute scripted_env all_tables user_u1 key_k1)
            \<lparr>calls = [ClientConnect], ext = tl failing_key_script\<rparr>)
       = Inl (foreign_key_violation (JStr ''u1''))
   \<and> calls (snd (setUser scripted_env all_tables user_u1 (Some key_k1) (start failing_key_script)))
       = [ClientConnect] @ take 3 (transaction_steps scripted_env all_tables user_u1 key_k1)
           @ [ClientQuery Rollback [], ClientEnd]
   \<and> fst (transaction scripted_env (setUser_execute scripted_env all_tables user_u1 key_k1)
            (start failing_key_script))
       = Inl (foreign_key_violation (JStr ''u1''))"
proof -
  let ?w1 = "\<lparr>calls = [ClientConnect], ext = tl failing_key_script\<rparr>"
  let ?w2 = "\<lparr>calls = [ClientConnect] @ take 3 (transaction_steps scripted_env all_tables user_u1 key_k1),
              ext = [Inl (JObj [(''message'', JStr ''connection lost'')]), Inr []]\<rparr>
               :: (jsval + row list) list world"
  have c: "client_connect scripted_env (start failing_key_script) = (Inr (), ?w1)"
    by (simp add: client_connect_def scripted_env_sel pop_unit_def start_def
        failing_key_script_def)
  have b: "transaction_body scripted_env (setUser_execute scripted_env all_tables user_u1 key_k1)
             ?w1 = (Inl (foreign_key_violation (JStr ''u1'')), ?w2)"
    by (simp add: transaction_body_def setUser_execute_def helper_user_u1 helper_key_k1
        transaction_steps_def and_then_def client_query_def scripted_env_sel pop_def
        failing_key_script_def)
  have e: "fst (client_end scripted_env (snd (client_query scripted_env Rollback [] ?w2))) = Inr ()"
    by (simp add: client_end_def client_query_def scripted_env_sel pop_def pop_unit_def)
  note closed = connection_closed_after_connect [OF c, where tbls = all_tables
        and usr = user_u1 and k = key_k1 and wb = ?w2
        and e = "foreign_key_violation (JStr ''u1'')"]
  have r: "calls (snd (setUser scripted_env all_tables user_u1 (Some key_k1)
                        (start failing_key_script)))
             = calls ?w2 @ [ClientQuery Rollback [], ClientEnd]
           \<and> (fst (client_end scripted_env (snd (client_query scripted_env Rollback [] ?w2)))
                = Inr ()
              \<longrightarrow> fst (transaction scripted_env
                         (setUser_execute scripted_env all_tables user_u1 key_k1)
                         (start failing_key_script))
                  = Inl (foreign_key_violation (JStr ''u1'')))"
    by (rule mp [OF conjunct1 [OF conjunct2 [OF closed]] b])
  show ?thesis
    using c b e r by simp
qed

subsection \<open>Placeholders\<close>

lemma digit_char_value: "d < 10 \<Longrightarrow> of_char (digit_char d) = 48 + d"
  by (simp add: digit_char_def)

lemma nat_of_string_snoc:
  "nat_of_string (s @ [c]) = 10 * nat_of_string s + (of_char c - 48)"
  by (simp add: nat_of_string_def)

lemma nat_of_string_of_nat: "nat_of_string (string_of_nat n) = n"
proof (induction n rule: string_of_nat.induct)
  case (1 n)
  show ?case
  proof (cases "n < 10")
    case True
    then show ?thesis
      by (subst string_of_nat.simps) (simp add: nat_of_string_def digit_char_value)
  next
    case False
    then have "nat_of_string (string_of_nat n)
                 = 10 * nat_of_string (string_of_nat (n div 10)) + n mod 10"
      by (subst string_of_nat.simps) (simp add: nat_of_string_snoc digit_char_value)
    then show ?thesis
      using "1.IH" False by simp
  qed
qed

lemma placeholder_inj: "placeholder i = placeholder j \<Longrightarrow> i = j"
proof -
  assume "placeholder i = placeholder j"
  then have "string_of_nat (i + 1) = string_of_nat (j + 1)"
    by (simp add: placeholder_def)
  then have "nat_of_string (string_of_nat (i + 1)) = nat_of_string (string_of_nat (j + 1))"
    by simp
  then show "i = j"
    by (simp add: nat_of_string_of_nat)
qed

lemma find_snoc:
  "List.find P (xs @ [y]) = (case List.find P xs of None \<Rightarrow> if P y then Some y else None | Some x \<Rightarrow> Some x)"
  by (induction xs) auto

lemma find_index_upt: "i < n \<Longrightarrow> List.find (\<lambda>j. placeholder j = placeholder i) [0..<n] = Some i"
proof (induction n)
  case 0
  then show ?case by simp
next
  case (Suc n)
  show ?case
  proof (cases "i < n")
    case True
    then show ?thesis
      using Suc.IH by (simp add: find_snoc)
  next
    case False
    then have "i = n" using Suc.prems by simp
    moreover have "List.find (\<lambda>j. placeholder j = placeholder n) [0..<n] = None"
      by (auto simp: find_None_iff dest: placeholder_inj)
    ultimately show ?thesis
      by (simp add: find_snoc)
  qed
qed

lemma resolve_placeholder_nth:
  "i < length args \<Longrightarrow> resolve_placeholder (placeholder i) args = Some (args ! i)"
  by (simp add: resolve_placeholder_def find_index_upt)

lemma resolve_placeholders:
  "n \<le> length args
     \<Longrightarrow> map (\<lambda>p. resolve_placeholder p args) (map placeholder [0..<n]) = map Some (take n args)"
  by (rule nth_equalityI) (simp_all add: resolve_placeholder_nth)

lemma assignments_helper:
  assumes "r \<noteq> []" and "distinct (map fst r)"
    and "\<forall>c\<in>set (map fst r). unescapeName sch (esc c) = c"
  shows "assignments sch (map esc (map fst r)) (map placeholder [0..<length r])
           (map snd r @ extra) = Some r"
proof -
  have cols: "map (unescapeName sch) (map esc (map fst r)) = map fst r"
    using assms(3) by (induction r) auto
  have vals: "map (\<lambda>p. resolve_placeholder p (map snd r @ extra)) (map placeholder [0..<length r])
                = map Some (map snd r)"
    using resolve_placeholders [of "length r" "map snd r @ extra"] by simp
  have "None \<notin> set (map Some (map snd r))" by auto
  moreover have "zip (map fst r) (map the (map Some (map snd r))) = r"
    by (simp add: comp_def zip_map_fst_snd)
  ultimately show ?thesis
    using assms(1,2) unfolding assignments_def Let_def cols vals
    by simp
qed

subsection \<open>The adapter on the reference store\<close>

lemma ref_env_sel:
  "neon_query (ref_env esc unesc tds tbls) = ref_query (ref_schema esc unesc tbls)"
  "connect_impl (ref_env esc unesc tds tbls) = (\<lambda>d. (Inr (), d\<lparr>txn := NoTxn\<rparr>))"
  "query_impl (ref_env esc unesc tds tbls) = ref_client_query (ref_schema esc unesc tbls)"
  "end_impl (ref_env esc unesc tds tbls) = (\<lambda>d. (Inr (), d\<lparr>txn := NoTxn\<rparr>))"
  "escapeName (ref_env esc unesc tds tbls) = esc"
  "transformDatabaseSession (ref_env esc unesc tds tbls) = tds"
  "join_rejects_first (ref_env esc unesc tds tbls) = False"
  by (simp_all add: ref_env_def)

lemma ref_schema_sel:
  "unescapeName (ref_schema esc unesc tbls) = unesc"
  "user_table (ref_schema esc unesc tbls) = esc (user tbls)"
  by (simp_all add: ref_schema_def)

lemma ref_names:
  "ESCAPED_USER_TABLE_NAME (ref_env esc unesc tds tbls) tbls = esc (user tbls)"
  "ESCAPED_KEY_TABLE_NAME (ref_env esc unesc tds tbls) tbls = esc (key tbls)"
  by (simp_all add: ESCAPED_USER_TABLE_NAME_def ESCAPED_KEY_TABLE_NAME_def ref_env_sel)

lemma helper_ref:
  "helper (ref_env esc unesc tds tbls) r
     = (map esc (map fst r), map placeholder [0..<length r], map snd r)"
  by (simp add: helper_def ref_env_sel)

lemma sql_ref:
  "sql (ref_env esc unesc tds tbls) s args w
     = (case exec_stmt (ref_schema esc unesc tbls) s args (committed (ext w)) of
          (r, S') \<Rightarrow> (r, \<lparr>calls = calls w @ [SqlCall s args],
                          ext = (ext w)\<lparr>committed := S'\<rparr>\<rparr>))"
  by (simp add: sql_def ref_env_sel ref_query_def split: prod.splits)

lemma write_table_failure: "write_table sch S t rows = (Inl e, S') \<Longrightarrow> S' = S"
  by (auto simp: write_table_def split: option.splits)

lemma write_table_success:
  "write_table sch S t rows = (Inr rs, S') \<Longrightarrow> S' = S(t := rows) \<and> rs = []
     \<and> constraint_error sch (S(t := rows)) t = None"
  by (auto simp: write_table_def split: option.splits)

lemma exec_stmt_failure: "exec_stmt sch s args S = (Inl e, S') \<Longrightarrow> S' = S"
  by (cases s)
    (auto simp: exec_stmt_def split: list.splits option.splits if_splits
      dest: write_table_failure)

lemma exec_insert_helper:
  assumes "r \<noteq> []" and "distinct (map fst r)"
    and "\<forall>c\<in>set (map fst r). unescapeName sch (esc c) = c"
  shows "exec_stmt sch (InsertInto t (map esc (map fst r)) (map placeholder [0..<length r]))
           (map snd r) S = write_table sch S t (S t @ [r])"
  using assignments_helper [OF assms, of "[]"] by (simp add: exec_stmt_def)

lemma pk_error_None:
  "pk_error rows = None
     \<Longrightarrow> distinct (map row_id rows) \<and> (\<forall>r\<in>set rows. \<exists>v. row_id r = Some v \<and> \<not> is_null v)"
  by (induction rows) (auto split: option.splits if_splits)

lemma find_filter: "(case filter P xs of [] \<Rightarrow> None | r # _ \<Rightarrow> Some r) = List.find P xs"
  by (induction xs) auto

lemma getUser_ref:
  "getUser (ref_env esc unesc tds tbls) tbls userId w
     = (Inr (List.find (matches ''id'' userId) (committed (ext w) (esc (user tbls)))),
        \<lparr>calls = calls w @ [SqlCall (SelectById (esc (user tbls))) [userId]], ext = ext w\<rparr>)"
  by (simp add: getUser_def ref_names sql_ref exec_stmt_def get_def rethrow_def find_filter)

lemma find_unique:
  assumes "u \<in> set rows" and "row_id u = Some v" and "\<not> is_null v"
    and "distinct (map row_id rows)"
  shows "List.find (matches ''id'' v) rows = Some u"
  using assms
proof (induction rows)
  case Nil
  then show ?case by simp
next
  case (Cons r rows)
  show ?case
  proof (cases "r = u")
    case True
    then show ?thesis using Cons.prems by (simp add: matches_def row_id_def)
  next
    case False
    then have "u \<in> set rows" using Cons.prems by simp
    then have "row_id r \<noteq> Some v"
      using Cons.prems by (metis distinct.simps(2) image_eqI list.simps(9) set_map)
    then show ?thesis
      using Cons \<open>u \<in> set rows\<close> by (simp add: matches_def row_id_def)
  qed
qed

lemma find_absent:
  "\<forall>u\<in>set rows. row_id u \<noteq> Some v \<Longrightarrow> List.find (matches ''id'' v) rows = None"
  by (auto simp: find_None_iff matches_def row_id_def)

subsection \<open>Users in the store\<close>

lemma setUser_ref_success:
  assumes "distinct (map fst usr)" and "\<forall>c\<in>set (map fst usr). unesc (esc c) = c"
    and "usr \<noteq> []"
    and "setUser (ref_env esc unesc tds tbls) tbls usr None w = (Inr (), w')"
  shows "committed (ext w')
           = (committed (ext w))(esc (user tbls) := committed (ext w) (esc (user tbls)) @ [usr])"
    and "pk_error (committed (ext w) (esc (user tbls)) @ [usr]) = None"
proof -
  let ?sch = "ref_schema esc unesc tbls"
  let ?S = "committed (ext w)"
  let ?T = "esc (user tbls)"
  have ex: "exec_stmt ?sch (InsertInto ?T (map esc (map fst usr)) (map placeholder [0..<length usr]))
              (map snd usr) ?S = write_table ?sch ?S ?T (?S ?T @ [usr])"
    using exec_insert_helper [of usr ?sch esc ?T ?S] assms(1-3) by (simp add: ref_schema_sel)
  obtain r S' where w: "write_table ?sch ?S ?T (?S ?T @ [usr]) = (r, S')"
    by (cases "write_table ?sch ?S ?T (?S ?T @ [usr])") auto
  have res: "setUser (ref_env esc unesc tds tbls) tbls usr None w
        = (case r of Inl e \<Rightarrow> Inl (Thrown e) | Inr _ \<Rightarrow> Inr (),
           \<lparr>calls = calls w @ [SqlCall (InsertInto ?T (map esc (map fst usr))
                                         (map placeholder [0..<length usr])) (map snd usr)],
            ext = (ext w)\<lparr>committed := S'\<rparr>\<rparr>)"
    by (simp add: setUser_def helper_ref ref_names sql_ref ex w
        and_then_def rethrow_def del: map_map split: sum.splits)
  then obtain rs where r: "r = Inr rs" and w': "ext w' = (ext w)\<lparr>committed := S'\<rparr>"
    using assms(4) by (cases r) auto
  have S': "S' = ?S(?T := ?S ?T @ [usr])"
    and ce: "constraint_error ?sch (?S(?T := ?S ?T @ [usr])) ?T = None"
    using write_table_success [of ?sch ?S ?T "?S ?T @ [usr]" rs S'] w r by simp_all
  show "committed (ext w') = ?S(?T := ?S ?T @ [usr])"
    using w' S' by simp
  show "pk_error (?S ?T @ [usr]) = None"
    using ce by (simp add: constraint_error_def split: option.splits)
qed

lemma getUser_rows:
  "sql env (SelectById (ESCAPED_USER_TABLE_NAME env tbls)) [userId] w = (Inr rows, w')
     \<Longrightarrow> getUser env tbls userId w = (Inr (case rows of [] \<Rightarrow> None | r # _ \<Rightarrow> Some r), w')"
  by (simp add: getUser_def get_def rethrow_def)

text \<open>
  Claim C5. For any collaborators, \<^verbatim>\<open>getUser(userId)\<close> returns the first row the select by
  id yields, and \<^verbatim>\<open>null\<close> when it yields none. Against the reference store that is the
  stored user row with that id when there is one (ids being unique), and \<^verbatim>\<open>null\<close> when no
  row has that id; after a successful \<^verbatim>\<open>setUser(user)\<close> it is a row equal to the one
  inserted.
\<close>

theorem getUser_returns_stored_row:
  "(sql env (SelectById (ESCAPED_USER_TABLE_NAME env tbls)) [userId] v = (Inr rows, v')
    \<longrightarrow> getUser env tbls userId v
         = (Inr (case rows of [] \<Rightarrow> None | r # rs \<Rightarrow> Some r), v'))
   \<and> (u \<in> set (committed (ext w) (esc (user tbls))) \<and> row_id u = Some userId \<and> \<not> is_null userId
      \<and> distinct (map row_id (committed (ext w) (esc (user tbls))))
    \<longrightarrow> fst (getUser (ref_env esc unesc tds tbls) tbls userId w) = Inr (Some u))
   \<and> ((\<forall>u\<in>set (committed (ext w) (esc (user tbls))). row_id u \<noteq> Some userId)
    \<longrightarrow> fst (getUser (ref_env esc unesc tds tbls) tbls userId w) = Inr None)
   \<and> (distinct (map fst usr) \<and> (\<forall>c\<in>set (map fst usr). unesc (esc c) = c)
      \<and> row_id usr = Some userId
      \<and> setUser (ref_env esc unesc tds tbls) tbls usr None w = (Inr (), w')
    \<longrightarrow> fst (getUser (ref_env esc unesc tds tbls) tbls userId w') = Inr (Some usr))"
proof (intro conjI impI)
  assume "sql env (SelectById (ESCAPED_USER_TABLE_NAME env tbls)) [userId] v = (Inr rows, v')"
  then show "getUser env tbls userId v
         = (Inr (case rows of [] \<Rightarrow> None | r # rs \<Rightarrow> Some r), v')"
    by (rule getUser_rows)
next
  assume "u \<in> set (committed (ext w) (esc (user tbls))) \<and> row_id u = Some userId
      \<and> \<not> is_null userId \<and> distinct (map row_id (committed (ext w) (esc (user tbls))))"
  then show "fst (getUser (ref_env esc unesc tds tbls) tbls userId w) = Inr (Some u)"
    by (simp add: getUser_ref find_unique)
next
  assume "\<forall>u\<in>set (committed (ext w) (esc (user tbls))). row_id u \<noteq> Some userId"
  then show "fst (getUser (ref_env esc unesc tds tbls) tbls userId w) = Inr None"
    by (simp add: getUser_ref find_absent)
next
  assume a: "distinct (map fst usr) \<and> (\<forall>c\<in>set (map fst usr). unesc (esc c) = c)
      \<and> row_id usr = Some userId
      \<and> setUser (ref_env esc unesc tds tbls) tbls usr None w = (Inr (), w')"
  then have ne: "usr \<noteq> []" by (auto simp: row_id_def)
  let ?rows = "committed (ext w) (esc (user tbls)) @ [usr]"
  have c: "committed (ext w') (esc (user tbls)) = ?rows"
    using setUser_ref_success(1) [of usr unesc esc tds tbls w w'] a ne by simp
  have "pk_error ?rows = None"
    using setUser_ref_success(2) [of usr unesc esc tds tbls w w'] a ne by simp
  then have "distinct (map row_id ?rows)" and "\<not> is_null userId"
    using pk_error_None [of ?rows] a by auto
  then have "List.find (matches ''id'' userId) ?rows = Some usr"
    using find_unique [of usr ?rows userId] a by simp
  then show "fst (getUser (ref_env esc unesc tds tbls) tbls userId w') = Inr (Some usr)"
    by (simp add: getUser_ref c)
qed

lemma unquote_quote [simp]: "unquote_name (quote_name c) = c"
  by (simp add: unquote_name_def quote_name_def)

lemma quote_name_inj [simp]: "quote_name a = quote_name b \<longleftrightarrow> a = b"
  by (simp add: quote_name_def)

lemma upt_small: "[0..<1] = [0]" "[0..<2] = [0, 1]" "[0..<3] = [0, 1, 2]"
  by (simp_all add: upt_rec)

lemmas ref_simps =
  quoted_env_def ref_env_sel ref_schema_def sql_ref helper_ref ref_names exec_stmt_def
  assignments_def resolve_placeholder_def placeholder_small upt_small write_table_def
  constraint_error_def is_null_def row_id_def matches_def db_of_def start_def
  all_tables_def empty_store_def and_then_def rethrow_def get_def

theorem getUser_returns_stored_row_witness:
  "fst (getUser (quoted_env all_tables) all_tables (JStr ''u1'') (start (db_of store_ann)))
     = Inr (Some user_ann)
   \<and> fst (getUser (quoted_env all_tables) all_tables (JStr ''u2'') (start (db_of store_ann)))
     = Inr None
   \<and> fst (setUser (quoted_env all_tables) all_tables [(''id'', JStr ''u2'')] None
            (start (db_of store_ann))) = Inr ()
   \<and> fst (getUser (quoted_env all_tables) all_tables (JStr ''u2'')
            (snd (setUser (quoted_env all_tables) all_tables [(''id'', JStr ''u2'')] None
                    (start (db_of store_ann)))))
     = Inr (Some [(''id'', JStr ''u2'')])"
proof -
  let ?E = "quoted_env all_tables"
  let ?w = "start (db_of store_ann)"
  have rows: "committed (ext ?w) (quote_name (user all_tables)) = [user_ann]"
    by (simp add: start_def db_of_def store_ann_def all_tables_def)
  have ok: "fst (setUser ?E all_tables [(''id'', JStr ''u2'')] None ?w) = Inr ()"
    by (simp add: setUser_def ref_simps store_ann_def user_ann_def)
  then have ok': "setUser ?E all_tables [(''id'', JStr ''u2'')] None ?w
                    = (Inr (), snd (setUser ?E all_tables [(''id'', JStr ''u2'')] None ?w))"
    by (simp add: prod_eq_iff)
  note stored = getUser_returns_stored_row [where esc = quote_name and unesc = unquote_name
      and tds = "\<lambda>r. (''fresh'', JBool True) # r" and tbls = all_tables and w = ?w]
  have a: "fst (getUser ?E all_tables (JStr ''u1'') ?w) = Inr (Some user_ann)"
    using conjunct2 [OF stored [where u = user_ann and userId = "JStr ''u1''"]] rows
    by (simp add: quoted_env_def row_id_def user_ann_def is_null_def)
  have b: "fst (getUser ?E all_tables (JStr ''u2'') ?w) = Inr None"
    using conjunct2 [OF stored [where userId = "JStr ''u2''"]] rows
    by (simp add: quoted_env_def row_id_def user_ann_def)
  have c: "fst (getUser ?E all_tables (JStr ''u2'')
                  (snd (setUser ?E all_tables [(''id'', JStr ''u2'')] None ?w)))
             = Inr (Some [(''id'', JStr ''u2'')])"
    using conjunct2 [OF stored [where usr = "[(''id'', JStr ''u2'')]" and userId = "JStr ''u2''"
        and w' = "snd (setUser ?E all_tables [(''id'', JStr ''u2'')] None ?w)"]] ok'
    by (simp add: quoted_env_def row_id_def)
  show ?thesis
    using a b ok c by simp
qed

subsection \<open>The transaction of \<^verbatim>\<open>setUser\<close> with a key\<close>

lemma length_transaction_steps [simp]: "length (transaction_steps env tbls usr k) = 4"
  by (simp add: transaction_steps_def)

lemma failing_sel:
  "neon_query (failing F env) = neon_query env"
  "escapeName (failing F env) = escapeName env"
  "transformDatabaseSession (failing F env) = transformDatabaseSession env"
  "join_rejects_first (failing F env) = join_rejects_first env"
  "connect_impl (failing F env)
     = (\<lambda>d. case F ClientConnect of Some e \<Rightarrow> (Inl e, d) | None \<Rightarrow> connect_impl env d)"
  "query_impl (failing F env)
     = (\<lambda>s args d. case F (ClientQuery s args) of
                      Some e \<Rightarrow> (Inl e, d)
                    | None \<Rightarrow> query_impl env s args d)"
  "end_impl (failing F env)
     = (\<lambda>d. case F ClientEnd of Some e \<Rightarrow> (Inl e, d) | None \<Rightarrow> end_impl env d)"
  by (simp_all add: failing_def)

lemma failing_nothing: "failing (\<lambda>c. None) env = env"
  by (simp add: failing_def)

lemma failing_names:
  "ESCAPED_USER_TABLE_NAME (failing F env) tbls = ESCAPED_USER_TABLE_NAME env tbls"
  "ESCAPED_KEY_TABLE_NAME (failing F env) tbls = ESCAPED_KEY_TABLE_NAME env tbls"
  "helper (failing F env) r = helper env r"
  "transaction_steps (failing F env) tbls usr k = transaction_steps env tbls usr k"
  "sql (failing F env) = sql env"
  "getUser (failing F env) = getUser env"
  by (simp_all add: ESCAPED_USER_TABLE_NAME_def ESCAPED_KEY_TABLE_NAME_def helper_def
      transaction_steps_def sql_def getUser_def failing_sel fun_eq_iff)

text \<open>
  The transaction of \<^verbatim>\<open>setUser\<close> in closed form, by the first call that fails: what it
  returns, the calls it logs and the rows it leaves committed. \<open>close r n cs S'\<close> is the
  outcome when the body has issued \<open>n\<close> of its statements with the result \<open>r\<close>, the calls
  \<open>cs\<close> followed and the connection was closed over the committed rows \<open>S'\<close>.
\<close>

lemma failing_transaction:
  fixes F esc unesc tds tbls usr k w
  defines "sch \<equiv> ref_schema esc unesc tbls"
    and "insU \<equiv> InsertInto (esc (user tbls)) (map esc (map fst usr))
                    (map placeholder [0..<length usr])"
    and "insK \<equiv> InsertInto (esc (key tbls)) (map esc (map fst k))
                    (map placeholder [0..<length k])"
    and "S \<equiv> committed (ext w)"
    and "T \<equiv> transaction (failing F (ref_env esc unesc tds tbls))
                 (setUser_execute (failing F (ref_env esc unesc tds tbls)) tbls usr k) w"
    and "close \<equiv>
           (\<lambda>r n cs S'.
              (case F ClientEnd of Some e \<Rightarrow> Inl e | None \<Rightarrow> r,
               calls w @ [ClientConnect]
                 @ take n (transaction_steps (ref_env esc unesc tds tbls) tbls usr k)
                 @ cs @ [ClientEnd],
               S'))"
  shows "(fst T, calls (snd T), committed (ext (snd T))) =
     (case F ClientConnect of
        Some e \<Rightarrow> (Inl e, calls w @ [ClientConnect], S)
      | None \<Rightarrow>
          (case F (ClientQuery Begin []) of
             Some e \<Rightarrow> close (Inl e) 1 [ClientQuery Rollback []] S
           | None \<Rightarrow>
               (case F (ClientQuery insU (map snd usr)) of
                  Some e \<Rightarrow> close (Inl e) 2 [ClientQuery Rollback []] S
                | None \<Rightarrow>
                    (case exec_stmt sch insU (map snd usr) S of
                       (Inl e, S1) \<Rightarrow> close (Inl e) 2 [ClientQuery Rollback []] S
                     | (Inr ru, S1) \<Rightarrow>
                         (case F (ClientQuery insK (map snd k)) of
                            Some e \<Rightarrow> close (Inl e) 3 [ClientQuery Rollback []] S
                          | None \<Rightarrow>
                              (case exec_stmt sch insK (map snd k) S1 of
                                 (Inl e, S2) \<Rightarrow> close (Inl e) 3 [ClientQuery Rollback []] S
                               | (Inr rk, S2) \<Rightarrow>
                                   (case F (ClientQuery Commit []) of
                                      Some e \<Rightarrow> close (Inl e) 4 [ClientQuery Rollback []] S
                                    | None \<Rightarrow> close (Inr ()) 4 [] S2)))))))"
proof -
  note defs = sch_def insU_def insK_def S_def T_def close_def
  note unfold = transaction_def transaction_body_def setUser_execute_def failing_names
      helper_ref ref_names transaction_steps_def and_then_def try_catch_def try_finally_def
      client_connect_def client_query_def client_end_def failing_sel ref_env_sel
      ref_client_query_def
  show ?thesis
  proof (cases "F ClientConnect")
    case (Some e)
    then show ?thesis
      unfolding defs by (simp add: unfold del: map_map)
  next
    case connected: None
    show ?thesis
    proof (cases "F (ClientQuery Begin [])")
      case (Some e)
      then show ?thesis
        unfolding defs using connected
        by (cases "F ClientEnd"; cases "F (ClientQuery Rollback [])")
          (simp_all add: unfold del: map_map)
    next
      case begun: None
      show ?thesis
      proof (cases "F (ClientQuery insU (map snd usr))")
        case (Some e)
        then show ?thesis
          unfolding defs using connected begun
          by (cases "F ClientEnd"; cases "F (ClientQuery Rollback [])")
            (simp_all add: unfold del: map_map)
      next
        case sentU: None
        obtain ru S1 where u: "exec_stmt sch insU (map snd usr) S = (ru, S1)"
          by (cases "exec_stmt sch insU (map snd usr) S") auto
        show ?thesis
        proof (cases ru)
          case (Inl e)
          then show ?thesis
            using connected begun sentU u unfolding defs
            by (cases "F ClientEnd"; cases "F (ClientQuery Rollback [])")
              (simp_all add: unfold del: map_map)
        next
          case insertedU: (Inr rows)
          show ?thesis
          proof (cases "F (ClientQuery insK (map snd k))")
            case (Some e)
            then show ?thesis
              using connected begun sentU u insertedU unfolding defs
              by (cases "F ClientEnd"; cases "F (ClientQuery Rollback [])")
                (simp_all add: unfold del: map_map)
          next
            case sentK: None
            obtain rk S2 where kk: "exec_stmt sch insK (map snd k) S1 = (rk, S2)"
              by (cases "exec_stmt sch insK (map snd k) S1") auto
            show ?thesis
            proof (cases rk)
              case (Inl e)
              then show ?thesis
                using connected begun sentU u insertedU sentK kk unfolding defs
                by (cases "F ClientEnd"; cases "F (ClientQuery Rollback [])")
                  (simp_all add: unfold del: map_map)
            next
              case insertedK: (Inr rows')
              show ?thesis
              proof (cases "F (ClientQuery Commit [])")
                case (Some e)
                then show ?thesis
                  using connected begun sentU u insertedU sentK kk insertedK unfolding defs
                  by (cases "F ClientEnd"; cases "F (ClientQuery Rollback [])")
                    (simp_all add: unfold del: map_map)
              next
                case None
                then show ?thesis
                  using connected begun sentU u insertedU sentK kk insertedK unfolding defs
                  by (cases "F ClientEnd") (simp_all add: unfold del: map_map)
              qed
            qed
          qed
        qed
      qed
    qed
  qed
qed


lemma failing_transaction_summary:
  fixes F esc unesc tds tbls usr k w
  defines "sch \<equiv> ref_schema esc unesc tbls"
    and "insU \<equiv> InsertInto (esc (user tbls)) (map esc (map fst usr))
                    (map placeholder [0..<length usr])"
    and "insK \<equiv> InsertInto (esc (key tbls)) (map esc (map fst k))
                    (map placeholder [0..<length k])"
    and "S \<equiv> committed (ext w)"
    and "steps \<equiv> transaction_steps (failing F (ref_env esc unesc tds tbls)) tbls usr k"
    and "T \<equiv> transaction (failing F (ref_env esc unesc tds tbls))
                 (setUser_execute (failing F (ref_env esc unesc tds tbls)) tbls usr k) w"
  shows "fst T = Inr ()
           \<Longrightarrow> calls (snd T) = calls w @ [ClientConnect] @ steps @ [ClientEnd]"
    and "committed (ext (snd T)) = S
         \<or> (\<exists>ru S1 rk. exec_stmt sch insU (map snd usr) S = (Inr ru, S1)
               \<and> exec_stmt sch insK (map snd k) S1 = (Inr rk, committed (ext (snd T)))
               \<and> calls (snd T) = calls w @ [ClientConnect] @ steps @ [ClientEnd])"
    and "fst T = Inr ()
           \<Longrightarrow> \<exists>ru S1 rk. exec_stmt sch insU (map snd usr) S = (Inr ru, S1)
               \<and> exec_stmt sch insK (map snd k) S1 = (Inr rk, committed (ext (snd T)))"
    and "fst T \<noteq> Inr () \<Longrightarrow> F ClientEnd = None \<Longrightarrow> committed (ext (snd T)) = S"
    and "calls (snd T) = calls w @ [ClientConnect] @ take 3 steps
                           @ [ClientQuery Rollback [], ClientEnd]
           \<Longrightarrow> \<exists>ru S1. exec_stmt sch insU (map snd usr) S = (Inr ru, S1)"
    and "F ClientConnect = None \<Longrightarrow> F ClientEnd = Some e \<Longrightarrow> fst T = Inl e"
    and "calls (snd T) = calls w @ [ClientConnect] @ steps @ [ClientEnd]
           \<Longrightarrow> \<exists>ru S1 rk. exec_stmt sch insU (map snd usr) S = (Inr ru, S1)
               \<and> exec_stmt sch insK (map snd k) S1 = (Inr rk, committed (ext (snd T)))"
proof -
  note cf = failing_transaction [of F esc unesc tds tbls usr k w,
      folded sch_def insU_def insK_def S_def T_def]
  show "fst T = Inr ()
           \<Longrightarrow> calls (snd T) = calls w @ [ClientConnect] @ steps @ [ClientEnd]"
    using cf unfolding steps_def failing_names
    by (auto split: option.splits prod.splits sum.splits)
  show "committed (ext (snd T)) = S
         \<or> (\<exists>ru S1 rk. exec_stmt sch insU (map snd usr) S = (Inr ru, S1)
               \<and> exec_stmt sch insK (map snd k) S1 = (Inr rk, committed (ext (snd T)))
               \<and> calls (snd T) = calls w @ [ClientConnect] @ steps @ [ClientEnd])"
    using cf unfolding steps_def failing_names
    by (auto split: option.splits prod.splits sum.splits)
  show "fst T = Inr ()
           \<Longrightarrow> \<exists>ru S1 rk. exec_stmt sch insU (map snd usr) S = (Inr ru, S1)
               \<and> exec_stmt sch insK (map snd k) S1 = (Inr rk, committed (ext (snd T)))"
    using cf
    by (auto split: option.splits prod.splits sum.splits)
  show "fst T \<noteq> Inr () \<Longrightarrow> F ClientEnd = None \<Longrightarrow> committed (ext (snd T)) = S"
    using cf
    by (auto split: option.splits prod.splits sum.splits)
  show "calls (snd T) = calls w @ [ClientConnect] @ take 3 steps
                           @ [ClientQuery Rollback [], ClientEnd]
           \<Longrightarrow> \<exists>ru S1. exec_stmt sch insU (map snd usr) S = (Inr ru, S1)"
    using cf unfolding steps_def failing_names
    by (auto simp: transaction_steps_def split: option.splits prod.splits sum.splits)
  show "F ClientConnect = None \<Longrightarrow> F ClientEnd = Some e \<Longrightarrow> fst T = Inl e"
    using cf
    by (auto split: option.splits prod.splits sum.splits)
  show "calls (snd T) = calls w @ [ClientConnect] @ steps @ [ClientEnd]
          \<Longrightarrow> \<exists>ru S1 rk. exec_stmt sch insU (map snd usr) S = (Inr ru, S1)
              \<and> exec_stmt sch insK (map snd k) S1 = (Inr rk, committed (ext (snd T)))"
    using cf unfolding steps_def failing_names
    by (auto simp: transaction_steps_def split: option.splits prod.splits sum.splits)
qed

lemma setUser_result:
  "fst (setUser env tbls usr (Some k) w)
     = (case fst (transaction env (setUser_execute env tbls usr k) w) of
          Inl x \<Rightarrow> Inl (rethrown x)
        | Inr u \<Rightarrow> Inr ())"
  by (simp add: setUser_def try_catch_def rethrown_def split: prod.splits sum.splits bool.splits)

lemma transaction_body_failed:
  assumes "client_connect env w = (Inr (), w1)" and "transaction_body env X w1 = (Inl e, w2)"
  shows "\<exists>y. fst (transaction env X w) = Inl y"
  using assms by (auto simp: transaction_unfold split: prod.splits sum.splits)

lemma failing_end:
  "F ClientEnd = None
     \<Longrightarrow> fst (client_end (failing F (ref_env esc unesc tds tbls)) w) = Inr ()"
  by (simp add: client_end_def failing_sel ref_env_sel)

lemma both_rows:
  fixes esc unesc tbls usr k S
  defines "sch \<equiv> ref_schema esc unesc tbls"
  assumes "usr \<noteq> []" "distinct (map fst usr)" "\<forall>c\<in>set (map fst usr). unesc (esc c) = c"
    and "k \<noteq> []" "distinct (map fst k)" "\<forall>c\<in>set (map fst k). unesc (esc c) = c"
    and "exec_stmt sch (InsertInto (esc (user tbls)) (map esc (map fst usr))
                          (map placeholder [0..<length usr])) (map snd usr) S = (Inr ru, S1)"
    and "exec_stmt sch (InsertInto (esc (key tbls)) (map esc (map fst k))
                          (map placeholder [0..<length k])) (map snd k) S1 = (Inr rk, S2)"
  shows "S2 = (S(esc (user tbls) := S (esc (user tbls)) @ [usr]))
                (esc (key tbls) :=
                   (S(esc (user tbls) := S (esc (user tbls)) @ [usr])) (esc (key tbls)) @ [k])"
proof -
  have "write_table sch S (esc (user tbls)) (S (esc (user tbls)) @ [usr]) = (Inr ru, S1)"
    using exec_insert_helper [of usr sch esc "esc (user tbls)" S] assms(2-4,8)
    by (simp add: sch_def ref_schema_sel)
  then have s1: "S1 = S(esc (user tbls) := S (esc (user tbls)) @ [usr])"
    using write_table_success by blast
  have "write_table sch S1 (esc (key tbls)) (S1 (esc (key tbls)) @ [k]) = (Inr rk, S2)"
    using exec_insert_helper [of k sch esc "esc (key tbls)" S1] assms(5-7,9)
    by (simp add: sch_def ref_schema_sel)
  then have "S2 = S1(esc (key tbls) := S1 (esc (key tbls)) @ [k])"
    using write_table_success by blast
  then show ?thesis
    using s1 by simp
qed

lemma inserted_user_was_absent:
  fixes esc unesc tbls usr S
  defines "sch \<equiv> ref_schema esc unesc tbls"
  assumes "distinct (map fst usr)" "\<forall>c\<in>set (map fst usr). unesc (esc c) = c"
    and "row_id usr = Some userId"
    and "exec_stmt sch (InsertInto (esc (user tbls)) (map esc (map fst usr))
                          (map placeholder [0..<length usr])) (map snd usr) S = (Inr ru, S1)"
  shows "List.find (matches ''id'' userId) (S (esc (user tbls))) = None"
proof -
  let ?Tu = "esc (user tbls)"
  have ne: "usr \<noteq> []" using assms(4) by (auto simp: row_id_def)
  have "write_table sch S ?Tu (S ?Tu @ [usr]) = (Inr ru, S1)"
    using exec_insert_helper [of usr sch esc ?Tu S] assms(2,3,5) ne
    by (simp add: sch_def ref_schema_sel)
  then have "constraint_error sch (S(?Tu := S ?Tu @ [usr])) ?Tu = None"
    using write_table_success by blast
  then have "pk_error (S ?Tu @ [usr]) = None"
    by (simp add: constraint_error_def split: option.splits)
  then have "distinct (map row_id (S ?Tu @ [usr]))"
    using pk_error_None by blast
  then have "Some userId \<notin> row_id ` set (S ?Tu)"
    using assms(4) by simp
  then have "\<forall>r\<in>set (S ?Tu). row_id r \<noteq> Some userId"
    by (metis image_eqI)
  then show ?thesis
    by (rule find_absent)
qed

lemma database_error_forms [simp]:
  "database_error (db_error code detail)" "database_error (db_error_code code)"
  by (simp_all add: database_error_def db_error_def db_error_code_def)

lemma pk_error_database_error: "pk_error rows = Some e \<Longrightarrow> database_error e"
  by (induction rows)
    (auto simp: not_null_violation_def unique_violation_def split: option.splits if_splits)

lemma fk_error_database_error: "fk_error parent rows = Some e \<Longrightarrow> database_error e"
  by (induction rows)
    (auto simp: not_null_violation_def foreign_key_violation_def split: option.splits if_splits)

lemma referenced_error_database_error:
  "referenced_error parent cs = Some e \<Longrightarrow> database_error e"
  by (induction cs) (auto simp: still_referenced_def split: option.splits)

lemma write_table_database_error:
  "write_table sch S t rows = (Inl e, S') \<Longrightarrow> database_error e"
  by (auto simp: write_table_def constraint_error_def split: option.splits if_splits
      dest: pk_error_database_error fk_error_database_error referenced_error_database_error)

lemma exec_stmt_database_error: "exec_stmt sch s args S = (Inl e, S') \<Longrightarrow> database_error e"
  by (cases s)
    (auto simp: exec_stmt_def syntax_error_def bad_parameters_def
      split: list.splits option.splits if_splits dest: write_table_database_error)

text \<open>
  Claim C1, amended. Against the reference store, reached through a dedicated connection
  that may fail any of its calls before the call reaches the store,
  \<^verbatim>\<open>setUser(user, key)\<close> succeeds only after \<^verbatim>\<open>BEGIN\<close>, the user insert, the key insert and
  \<^verbatim>\<open>COMMIT\<close> were issued in that order and the connection was closed, and then both rows
  are stored. When the body of the transaction fails at one
  of the two inserts, a \<^verbatim>\<open>ROLLBACK\<close> and the close follow, no \<^verbatim>\<open>COMMIT\<close> is issued,
  \<^verbatim>\<open>setUser\<close> fails, with the error of the insert as its \<^verbatim>\<open>catch\<close> block rethrows it
  provided the close does not fail, and the stored rows are those from before the call:
  \<^verbatim>\<open>getUser\<close> returns what it returned before, which is \<^verbatim>\<open>null\<close> for the user's id when
  it was the key insert that failed. The stored rows after the call are those from before
  or those with both rows added, never one row alone; they are those from before after
  every failure in which the close did not fail. When the close fails, its error is the
  one thrown, whatever came before it: once the body of the transaction has succeeded
  both rows are stored, whether or not the close fails then.
\<close>

theorem setUser_with_key_atomic:
  fixes F esc unesc tds tbls usr k w
  defines "E \<equiv> failing F (ref_env esc unesc tds tbls)"
    and "R \<equiv> setUser (failing F (ref_env esc unesc tds tbls)) tbls usr (Some k) w"
    and "S \<equiv> committed (ext w)"
    and "steps \<equiv> transaction_steps (failing F (ref_env esc unesc tds tbls)) tbls usr k"
    and "both \<equiv> ((committed (ext w))
                    (esc (user tbls) := committed (ext w) (esc (user tbls)) @ [usr]))
                  (esc (key tbls) :=
                     ((committed (ext w))
                        (esc (user tbls) := committed (ext w) (esc (user tbls)) @ [usr]))
                       (esc (key tbls)) @ [k])"
  shows "(fst R = Inr ()
          \<longrightarrow> calls (snd R) = calls w @ [ClientConnect] @ steps @ [ClientEnd]
              \<and> (usr \<noteq> [] \<and> distinct (map fst usr) \<and> (\<forall>c\<in>set (map fst usr). unesc (esc c) = c)
                 \<and> k \<noteq> [] \<and> distinct (map fst k) \<and> (\<forall>c\<in>set (map fst k). unesc (esc c) = c)
                 \<longrightarrow> committed (ext (snd R)) = both))
       \<and> (client_connect E w = (Inr (), wc)
          \<and> transaction_body E (setUser_execute E tbls usr k) wc = (Inl x, wb)
          \<and> (n = 2 \<or> n = 3) \<and> calls wb = calls wc @ take n steps
          \<longrightarrow> calls (snd R) = calls wb @ [ClientQuery Rollback [], ClientEnd]
              \<and> ClientQuery Commit [] \<notin> set (take n steps)
              \<and> fst R \<noteq> Inr ()
              \<and> (F ClientEnd = None \<longrightarrow> fst R = Inl (rethrown x))
              \<and> committed (ext (snd R)) = S
              \<and> fst (getUser E tbls userId (snd R)) = fst (getUser E tbls userId w)
              \<and> (n = 3 \<and> distinct (map fst usr) \<and> (\<forall>c\<in>set (map fst usr). unesc (esc c) = c)
                 \<and> row_id usr = Some userId
                 \<longrightarrow> fst (getUser E tbls userId (snd R)) = Inr None))
       \<and> (usr \<noteq> [] \<and> distinct (map fst usr) \<and> (\<forall>c\<in>set (map fst usr). unesc (esc c) = c)
          \<and> k \<noteq> [] \<and> distinct (map fst k) \<and> (\<forall>c\<in>set (map fst k). unesc (esc c) = c)
          \<longrightarrow> committed (ext (snd R)) = S \<or> committed (ext (snd R)) = both)
       \<and> (fst R \<noteq> Inr () \<and> F ClientEnd = None
          \<longrightarrow> committed (ext (snd R)) = S
              \<and> fst (getUser E tbls userId (snd R)) = fst (getUser E tbls userId w))
       \<and> (F ClientConnect = None \<and> F ClientEnd = Some e \<longrightarrow> fst R = Inl (rethrown e))
       \<and> (client_connect E w = (Inr (), wc)
          \<and> transaction_body E (setUser_execute E tbls usr k) wc = (Inr (), wb)
          \<and> usr \<noteq> [] \<and> distinct (map fst usr) \<and> (\<forall>c\<in>set (map fst usr). unesc (esc c) = c)
          \<and> k \<noteq> [] \<and> distinct (map fst k) \<and> (\<forall>c\<in>set (map fst k). unesc (esc c) = c)
          \<longrightarrow> calls (snd R) = calls w @ [ClientConnect] @ steps @ [ClientEnd]
              \<and> committed (ext (snd R)) = both)"
proof -
  let ?X = "setUser_execute E tbls usr k"
  let ?T = "transaction E ?X w"
  let ?sch = "ref_schema esc unesc tbls"
  let ?insU = "InsertInto (esc (user tbls)) (map esc (map fst usr))
                 (map placeholder [0..<length usr])"
  let ?insK = "InsertInto (esc (key tbls)) (map esc (map fst k))
                 (map placeholder [0..<length k])"
  note summary = failing_transaction_summary [where F = F and esc = esc and unesc = unesc
      and tds = tds and tbls = tbls and usr = usr and k = k and w = w,
      folded E_def S_def steps_def]
  have world: "snd R = snd ?T"
    unfolding R_def E_def by (rule setUser_world)
  have result: "fst R = (case fst ?T of Inl x \<Rightarrow> Inl (rethrown x) | Inr u \<Rightarrow> Inr ())"
    unfolding R_def E_def by (rule setUser_result)
  have ok: "fst ?T = Inr ()" if "fst R = Inr ()"
    using that result by (simp split: sum.splits)
  have failed: "fst ?T \<noteq> Inr ()" if "fst R \<noteq> Inr ()"
    using that result by (auto split: sum.splits)
  have same: "fst (getUser E tbls userId w') = fst (getUser E tbls userId w)"
    if "committed (ext w') = S" for w'
    using that unfolding E_def S_def by (simp add: failing_names getUser_ref)
  have stored: "committed (ext (snd R)) = both"
    if "exec_stmt ?sch ?insU (map snd usr) S = (Inr ru, S1)"
      and "exec_stmt ?sch ?insK (map snd k) S1 = (Inr rk, committed (ext (snd R)))"
      and "usr \<noteq> [] \<and> distinct (map fst usr) \<and> (\<forall>c\<in>set (map fst usr). unesc (esc c) = c)
           \<and> k \<noteq> [] \<and> distinct (map fst k) \<and> (\<forall>c\<in>set (map fst k). unesc (esc c) = c)"
    for ru S1 rk
    using both_rows [where usr = usr and unesc = unesc and esc = esc and k = k and tbls = tbls
        and S = S and ru = ru and ?S1.0 = S1 and rk = rk and ?S2.0 = "committed (ext (snd R))"] that
    unfolding both_def S_def by blast
  have a: "calls (snd R) = calls w @ [ClientConnect] @ steps @ [ClientEnd]
      \<and> (usr \<noteq> [] \<and> distinct (map fst usr) \<and> (\<forall>c\<in>set (map fst usr). unesc (esc c) = c)
         \<and> k \<noteq> [] \<and> distinct (map fst k) \<and> (\<forall>c\<in>set (map fst k). unesc (esc c) = c)
         \<longrightarrow> committed (ext (snd R)) = both)"
    if "fst R = Inr ()"
    using summary(1) [OF ok [OF that]] summary(3) [OF ok [OF that]] stored
    unfolding world [symmetric] by blast
  have c: "committed (ext (snd R)) = S \<or> committed (ext (snd R)) = both"
    if "usr \<noteq> [] \<and> distinct (map fst usr) \<and> (\<forall>c\<in>set (map fst usr). unesc (esc c) = c)
        \<and> k \<noteq> [] \<and> distinct (map fst k) \<and> (\<forall>c\<in>set (map fst k). unesc (esc c) = c)"
    using summary(2) stored that unfolding world [symmetric] by blast
  have d: "committed (ext (snd R)) = S
      \<and> fst (getUser E tbls userId (snd R)) = fst (getUser E tbls userId w)"
    if "fst R \<noteq> Inr () \<and> F ClientEnd = None"
  proof -
    have "committed (ext (snd R)) = S"
      using summary(4) [OF failed] that unfolding world [symmetric] by simp
    then show ?thesis
      using same by blast
  qed
  have e: "fst R = Inl (rethrown e)" if "F ClientConnect = None \<and> F ClientEnd = Some e"
    using summary(6) [where e = e] that result by simp
  have b: "calls (snd R) = calls wb @ [ClientQuery Rollback [], ClientEnd]
      \<and> ClientQuery Commit [] \<notin> set (take n steps)
      \<and> fst R \<noteq> Inr ()
      \<and> (F ClientEnd = None \<longrightarrow> fst R = Inl (rethrown x))
      \<and> committed (ext (snd R)) = S
      \<and> fst (getUser E tbls userId (snd R)) = fst (getUser E tbls userId w)
      \<and> (n = 3 \<and> distinct (map fst usr) \<and> (\<forall>c\<in>set (map fst usr). unesc (esc c) = c)
         \<and> row_id usr = Some userId
         \<longrightarrow> fst (getUser E tbls userId (snd R)) = Inr None)"
    if h: "client_connect E w = (Inr (), wc)
        \<and> transaction_body E ?X wc = (Inl x, wb)
        \<and> (n = 2 \<or> n = 3) \<and> calls wb = calls wc @ take n steps"
  proof -
    have conn: "client_connect E w = (Inr (), wc)"
      and body: "transaction_body E ?X wc = (Inl x, wb)"
      and n: "n = 2 \<or> n = 3" and cb: "calls wb = calls wc @ take n steps"
      using h by blast+
    have wcc: "calls wc = calls w @ [ClientConnect]"
      using client_connect_calls [of E w] conn by simp
    have calls: "calls (snd R) = calls wb @ [ClientQuery Rollback [], ClientEnd]"
      unfolding world transaction_world(2) [OF conn body] by simp
    have nocommit: "ClientQuery Commit [] \<notin> set (take n steps)"
      using n unfolding steps_def by (auto simp: transaction_steps_def)
    have fails: "fst R \<noteq> Inr ()"
      using transaction_body_failed [OF conn body] result by auto
    have thrown: "fst R = Inl (rethrown x)" if "F ClientEnd = None"
      using transaction_world(3) [OF conn body]
        failing_end [where F = F and esc = esc and unesc = unesc and tds = tds and tbls = tbls,
          OF that] result
      unfolding E_def by simp
    have differ: "calls w @ [ClientConnect] @ steps @ [ClientEnd]
                    \<noteq> calls wb @ [ClientQuery Rollback [], ClientEnd]"
      unfolding cb wcc steps_def using n by (auto simp: transaction_steps_def)
    have unchanged: "committed (ext (snd R)) = S"
      using summary(2) calls differ unfolding world [symmetric] by auto
    have absent: "fst (getUser E tbls userId (snd R)) = Inr None"
      if "n = 3 \<and> distinct (map fst usr) \<and> (\<forall>c\<in>set (map fst usr). unesc (esc c) = c)
          \<and> row_id usr = Some userId"
    proof -
      have "calls (snd ?T) = calls w @ [ClientConnect] @ take 3 steps
                               @ [ClientQuery Rollback [], ClientEnd]"
        using calls that unfolding world cb wcc by simp
      then obtain ru S1 where "exec_stmt ?sch ?insU (map snd usr) S = (Inr ru, S1)"
        using summary(5) by blast
      then have "List.find (matches ''id'' userId) (S (esc (user tbls))) = None"
        using inserted_user_was_absent [where usr = usr and unesc = unesc and esc = esc
            and userId = userId and tbls = tbls and S = S and ru = ru and ?S1.0 = S1] that
        by blast
      then show ?thesis
        using unchanged unfolding E_def S_def by (simp add: failing_names getUser_ref)
    qed
    show ?thesis
      using calls nocommit fails thrown unchanged same [OF unchanged] absent by blast
  qed
  have f: "calls (snd R) = calls w @ [ClientConnect] @ steps @ [ClientEnd]
      \<and> committed (ext (snd R)) = both"
    if h: "client_connect E w = (Inr (), wc)
        \<and> transaction_body E ?X wc = (Inr (), wb)
        \<and> usr \<noteq> [] \<and> distinct (map fst usr) \<and> (\<forall>c\<in>set (map fst usr). unesc (esc c) = c)
        \<and> k \<noteq> [] \<and> distinct (map fst k) \<and> (\<forall>c\<in>set (map fst k). unesc (esc c) = c)"
  proof -
    have conn: "client_connect E w = (Inr (), wc)"
      and body: "transaction_body E ?X wc = (Inr (), wb)"
      using h by blast+
    have wcc: "calls wc = calls w @ [ClientConnect]"
      using client_connect_calls [of E w] conn by simp
    obtain m where "calls (snd (transaction_body E ?X wc)) = calls wc @ take m steps"
      and "fst (transaction_body E ?X wc) = Inr () \<longrightarrow> m = 4"
      using transaction_body_steps [of E tbls usr k wc] unfolding steps_def E_def by blast
    then have cb: "calls wb = calls wc @ steps"
      using body unfolding steps_def by simp
    have calls: "calls (snd R) = calls w @ [ClientConnect] @ steps @ [ClientEnd]"
      unfolding world transaction_world(1) [OF conn body] using cb wcc by simp
    then obtain ru S1 rk where "exec_stmt ?sch ?insU (map snd usr) S = (Inr ru, S1)"
      and "exec_stmt ?sch ?insK (map snd k) S1 = (Inr rk, committed (ext (snd R)))"
      using summary(7) unfolding world [symmetric] by blast
    then have "committed (ext (snd R)) = both"
      using stored h by blast
    then show ?thesis
      using calls by simp
  qed
  show ?thesis
    using a b c d e f by blast
qed

lemmas txn_simps =
  setUser_def transaction_def transaction_body_def setUser_execute_def try_catch_def
  try_finally_def client_connect_def client_query_def client_end_def ref_client_query_def
  ref_query_def violation_def

lemma dangling_key_body:
  "client_connect (quoted_env all_tables) (start (db_of store_ann))
     = (Inr (), \<lparr>calls = [ClientConnect], ext = db_of store_ann\<rparr>)"
  "transaction_body (quoted_env all_tables)
     (setUser_execute (quoted_env all_tables) all_tables user_u2 key_of_u3)
     \<lparr>calls = [ClientConnect], ext = db_of store_ann\<rparr>
     = (Inl (foreign_key_violation (JStr ''u3'')),
        \<lparr>calls = [ClientConnect] @ take 3 (transaction_steps (quoted_env all_tables) all_tables
                                            user_u2 key_of_u3),
         ext = (db_of store_ann)\<lparr>txn := Aborted\<rparr>\<rparr>)"
  by (simp_all add: txn_simps ref_simps transaction_steps_def store_ann_def user_ann_def
      user_u2_def key_of_u3_def foreign_key_violation_def db_error_def key_text_def)

lemma setUser_new_user:
  "setUser (quoted_env all_tables) all_tables user_u2 (Some key_k2) (start (db_of store_ann))
     = (Inr (),
        \<lparr>calls = [ClientConnect] @ transaction_steps (quoted_env all_tables) all_tables
                                     user_u2 key_k2 @ [ClientEnd],
         ext = db_of store_ann_u2\<rparr>)"
  by (simp add: txn_simps ref_simps transaction_steps_def store_ann_def store_ann_u2_def
      user_ann_def user_u2_def key_k2_def fun_eq_iff)

lemma setUser_closing_fails:
  "setUser (failing closing_fails (quoted_env all_tables)) all_tables user_u2 (Some key_k2)
     (start (db_of store_ann))
     = (Inl (Thrown connection_lost),
        \<lparr>calls = [ClientConnect] @ transaction_steps (quoted_env all_tables) all_tables
                                     user_u2 key_k2 @ [ClientEnd],
         ext = db_of store_ann_u2\<rparr>)"
  by (simp add: txn_simps ref_simps failing_sel failing_names closing_fails_def
      connection_lost_def transaction_steps_def store_ann_def store_ann_u2_def
      user_ann_def user_u2_def key_k2_def fun_eq_iff)

lemma closing_fails_body:
  "client_connect (failing closing_fails (quoted_env all_tables)) (start (db_of store_ann))
     = (Inr (), \<lparr>calls = [ClientConnect], ext = db_of store_ann\<rparr>)"
  "transaction_body (failing closing_fails (quoted_env all_tables))
     (setUser_execute (failing closing_fails (quoted_env all_tables)) all_tables user_u2 key_k2)
     \<lparr>calls = [ClientConnect], ext = db_of store_ann\<rparr>
     = (Inr (),
        \<lparr>calls = [ClientConnect] @ transaction_steps (quoted_env all_tables) all_tables
                                     user_u2 key_k2,
         ext = db_of store_ann_u2\<rparr>)"
  by (simp_all add: txn_simps ref_simps failing_sel failing_names closing_fails_def
      transaction_steps_def store_ann_def store_ann_u2_def user_ann_def user_u2_def
      key_k2_def fun_eq_iff)

lemma setUser_existing_user:
  "setUser (quoted_env all_tables) all_tables user_u1 (Some key_k1) (start (db_of store_ann))
     = (Inl (LuciaError ''AUTH_DUPLICATE_KEY_ID''),
        \<lparr>calls = [ClientConnect] @ take 2 (transaction_steps (quoted_env all_tables) all_tables
                                            user_u1 key_k1)
                  @ [ClientQuery Rollback [], ClientEnd],
         ext = db_of store_ann\<rparr>)"
  by (simp add: txn_simps ref_simps transaction_steps_def store_ann_def user_ann_def user_u1_def
      key_k1_def unique_violation_def db_error_def key_text_def)

theorem setUser_with_key_atomic_witness:
  "fst (setUser (quoted_env all_tables) all_tables user_u2 (Some key_of_u3)
          (start (db_of store_ann)))
     = Inl (Thrown (foreign_key_violation (JStr ''u3'')))
   \<and> row_id user_u2 = Some (JStr ''u2'')
   \<and> committed (ext (snd (setUser (quoted_env all_tables) all_tables user_u2 (Some key_of_u3)
                             (start (db_of store_ann))))) = store_ann
   \<and> fst (getUser (quoted_env all_tables) all_tables (JStr ''u2'')
            (snd (setUser (quoted_env all_tables) all_tables user_u2 (Some key_of_u3)
                    (start (db_of store_ann))))) = Inr None
   \<and> fst (setUser (quoted_env all_tables) all_tables user_u2 (Some key_k2)
            (start (db_of store_ann))) = Inr ()
   \<and> committed (ext (snd (setUser (quoted_env all_tables) all_tables user_u2 (Some key_k2)
                             (start (db_of store_ann))))) = store_ann_u2
   \<and> closing_fails ClientConnect = None \<and> closing_fails ClientEnd = Some connection_lost
   \<and> fst (setUser (failing closing_fails (quoted_env all_tables)) all_tables user_u2
            (Some key_k2) (start (db_of store_ann)))
       = Inl (Thrown connection_lost)
   \<and> committed (ext (snd (setUser (failing closing_fails (quoted_env all_tables)) all_tables
                             user_u2 (Some key_k2) (start (db_of store_ann))))) = store_ann_u2"
proof -
  let ?E = "quoted_env all_tables"
  let ?w = "start (db_of store_ann)"
  let ?wc = "\<lparr>calls = [ClientConnect], ext = db_of store_ann\<rparr>"
  let ?wb = "\<lparr>calls = [ClientConnect] @ take 3 (transaction_steps ?E all_tables user_u2 key_of_u3),
              ext = (db_of store_ann)\<lparr>txn := Aborted\<rparr>\<rparr>"
  let ?x = "foreign_key_violation (JStr ''u3'')"
  let ?R = "setUser ?E all_tables user_u2 (Some key_of_u3) ?w"
  let ?R' = "setUser ?E all_tables user_u2 (Some key_k2) ?w"
  let ?R'' = "setUser (failing closing_fails ?E) all_tables user_u2 (Some key_k2) ?w"
  have wfu: "user_u2 \<noteq> []" "distinct (map fst user_u2)"
    "\<forall>c\<in>set (map fst user_u2). unquote_name (quote_name c) = c"
    "row_id user_u2 = Some (JStr ''u2'')"
    by (simp_all add: user_u2_def row_id_def)
  have wfk: "key_k2 \<noteq> []" "distinct (map fst key_k2)"
    "\<forall>c\<in>set (map fst key_k2). unquote_name (quote_name c) = c"
    by (simp_all add: key_k2_def)
  have s: "committed (ext ?w) = store_ann"
    by (simp add: start_def db_of_def)
  have cb: "calls ?wb = calls ?wc @ take 3 (transaction_steps ?E all_tables user_u2 key_of_u3)"
    by simp
  have rx: "rethrown ?x = Thrown ?x" "rethrown connection_lost = Thrown connection_lost"
    by (simp_all add: rethrown_def violation_def foreign_key_violation_def db_error_def
        connection_lost_def)
  have cf: "closing_fails ClientConnect = None" "closing_fails ClientEnd = Some connection_lost"
    by (simp_all add: closing_fails_def)
  note key_fails = setUser_with_key_atomic [where F = "\<lambda>c. None" and esc = quote_name
        and unesc = unquote_name and tds = "\<lambda>r. (''fresh'', JBool True) # r"
        and tbls = all_tables and usr = user_u2 and k = key_of_u3 and w = ?w
        and wc = ?wc and wb = ?wb and x = ?x and n = 3 and userId = "JStr ''u2''",
        unfolded failing_nothing, folded quoted_env_def]
  note commits = setUser_with_key_atomic [where F = "\<lambda>c. None" and esc = quote_name
        and unesc = unquote_name and tds = "\<lambda>r. (''fresh'', JBool True) # r"
        and tbls = all_tables and usr = user_u2 and k = key_k2 and w = ?w,
        unfolded failing_nothing, folded quoted_env_def]
  note close_fails = setUser_with_key_atomic [where F = closing_fails and esc = quote_name
        and unesc = unquote_name and tds = "\<lambda>r. (''fresh'', JBool True) # r"
        and tbls = all_tables and usr = user_u2 and k = key_k2 and w = ?w
        and e = connection_lost
        and wc = "\<lparr>calls = [ClientConnect], ext = db_of store_ann\<rparr>"
        and wb = "\<lparr>calls = [ClientConnect] @ transaction_steps (quoted_env all_tables) all_tables
                                              user_u2 key_k2,
                  ext = db_of store_ann_u2\<rparr>",
        folded quoted_env_def]
  have hyp: "client_connect ?E ?w = (Inr (), ?wc)
      \<and> transaction_body ?E (setUser_execute ?E all_tables user_u2 key_of_u3) ?wc = (Inl ?x, ?wb)
      \<and> ((3::nat) = 2 \<or> (3::nat) = 3)
      \<and> calls ?wb = calls ?wc @ take 3 (transaction_steps ?E all_tables user_u2 key_of_u3)"
    using dangling_key_body cb by simp
  note failed = mp [OF conjunct1 [OF conjunct2 [OF key_fails]] hyp]
  have b1: "fst ?R = Inl (rethrown ?x)"
    using conjunct1 [OF conjunct2 [OF conjunct2 [OF conjunct2 [OF failed]]]] by simp
  have b2: "committed (ext (snd ?R)) = committed (ext ?w)"
    by (rule conjunct1 [OF conjunct2 [OF conjunct2 [OF conjunct2 [OF conjunct2 [OF failed]]]]])
  have b3: "fst (getUser ?E all_tables (JStr ''u2'') (snd ?R)) = Inr None"
    using conjunct2 [OF conjunct2 [OF conjunct2 [OF conjunct2 [OF conjunct2
            [OF conjunct2 [OF failed]]]]]] wfu
    by simp
  have r': "fst ?R' = Inr ()"
    unfolding setUser_new_user by simp
  have both_eq:
    "(store_ann(quote_name ''auth_user'' := store_ann (quote_name ''auth_user'') @ [user_u2]))
       (quote_name ''user_key'' :=
          (store_ann(quote_name ''auth_user'' := store_ann (quote_name ''auth_user'') @ [user_u2]))
            (quote_name ''user_key'') @ [key_k2])
     = store_ann_u2"
    by (simp add: store_ann_u2_def store_ann_def empty_store_def fun_eq_iff)
  have names: "quote_name (user all_tables) = quote_name ''auth_user''"
    "quote_name (key all_tables) = quote_name ''user_key''"
    by (simp_all add: all_tables_def)
  have a': "committed (ext (snd ?R')) = store_ann_u2"
    using mp [OF conjunct2 [OF mp [OF conjunct1 [OF commits] r']]] wfu wfk
    unfolding s names both_eq by blast
  have e: "fst ?R'' = Inl (rethrown connection_lost)"
    using mp [OF conjunct1 [OF conjunct2 [OF conjunct2 [OF conjunct2 [OF conjunct2
            [OF close_fails]]]]]] cf
    by simp
  have d: "committed (ext (snd ?R)) = committed (ext ?w)"
    using mp [OF conjunct1 [OF conjunct2 [OF conjunct2 [OF conjunct2 [OF key_fails]]]]] b1
    by simp
  have c: "committed (ext (snd ?R'')) = store_ann \<or> committed (ext (snd ?R'')) = store_ann_u2"
    using mp [OF conjunct1 [OF conjunct2 [OF conjunct2 [OF close_fails]]]] wfu wfk
    unfolding s names both_eq by blast
  have m'': "committed (ext (snd ?R'')) = store_ann_u2"
    using mp [OF conjunct2 [OF conjunct2 [OF conjunct2 [OF conjunct2 [OF conjunct2
            [OF close_fails]]]]]] closing_fails_body wfu wfk
    unfolding s names both_eq by blast
  show ?thesis
    using b1 b2 b3 d r' a' c e m'' rx wfu(4) s cf by simp
qed

text \<open>
  The claim as stated fails when the user's id is taken already: the user insert fails,
  \<^verbatim>\<open>setUser\<close> fails, and \<^verbatim>\<open>getUser\<close> of that id still returns the row stored before the
  call, not \<^verbatim>\<open>null\<close>.
\<close>

theorem setUser_with_key_counterexample:
  "row_id user_u1 = Some (JStr ''u1'')
   \<and> fst (setUser (quoted_env all_tables) all_tables user_u1 (Some key_k1)
            (start (db_of store_ann)))
       = Inl (LuciaError ''AUTH_DUPLICATE_KEY_ID'')
   \<and> fst (getUser (quoted_env all_tables) all_tables (JStr ''u1'')
            (snd (setUser (quoted_env all_tables) all_tables user_u1 (Some key_k1)
                    (start (db_of store_ann)))))
       = Inr (Some user_ann)"
  unfolding setUser_existing_user
  by (simp add: quoted_env_def getUser_ref row_id_def user_u1_def matches_def is_null_def
      db_of_def store_ann_def user_ann_def all_tables_def)

subsection \<open>The session and its user\<close>

lemma map_of_strip_session_id:
  "map_of (strip_session_id r) c = (if c = ''__session_id'' then None else map_of r c)"
  unfolding strip_session_id_def by (induction r) auto

lemma getSessionAndUser_rows:
  assumes "session_table env tbls = Inr t"
    and "sql env (SelectById t) [sessionId] w = (Inr srows, wa)"
    and "sql env (SelectUserJoin (ESCAPED_USER_TABLE_NAME env tbls) t) [sessionId] wa
           = (Inr urows, wb)"
  shows "getSessionAndUser env tbls sessionId w =
           (Inr (case (srows, urows) of
                   (s # ss, u # us) \<Rightarrow>
                     (Some (transformDatabaseSession env s), Some (strip_session_id u))
                 | _ \<Rightarrow> (None, None)), wb)"
  using assms by (simp add: getSessionAndUser_def get_def split: list.splits)

lemma getSessionAndUser_pair:
  assumes "getSessionAndUser env tbls sessionId w = (Inr (Some s', Some u), w')"
  shows "\<exists>t s ss joined rest wa.
           session_table env tbls = Inr t
         \<and> sql env (SelectById t) [sessionId] w = (Inr (s # ss), wa)
         \<and> sql env (SelectUserJoin (ESCAPED_USER_TABLE_NAME env tbls) t) [sessionId] wa
             = (Inr (joined # rest), w')
         \<and> s' = transformDatabaseSession env s
         \<and> u = strip_session_id joined"
proof -
  obtain t where t: "session_table env tbls = Inr t"
    using assms by (cases "session_table env tbls") (auto simp: getSessionAndUser_def)
  obtain r1 wa where q1: "sql env (SelectById t) [sessionId] w = (r1, wa)"
    by (cases "sql env (SelectById t) [sessionId] w") auto
  obtain r2 wb where q2:
    "sql env (SelectUserJoin (ESCAPED_USER_TABLE_NAME env tbls) t) [sessionId] wa = (r2, wb)"
    by (cases "sql env (SelectUserJoin (ESCAPED_USER_TABLE_NAME env tbls) t) [sessionId] wa") auto
  obtain srows urows where r: "r1 = Inr srows" "r2 = Inr urows"
    using assms t q1 q2
    by (cases r1; cases r2) (auto simp: getSessionAndUser_def get_def split: if_splits)
  have "getSessionAndUser env tbls sessionId w =
           (Inr (case (srows, urows) of
                   (s # ss, u # us) \<Rightarrow>
                     (Some (transformDatabaseSession env s), Some (strip_session_id u))
                 | _ \<Rightarrow> (None, None)), wb)"
    using getSessionAndUser_rows [OF t] q1 q2 r by simp
  then obtain s ss joined rest where
    "srows = s # ss" "urows = joined # rest" "s' = transformDatabaseSession env s"
    "u = strip_session_id joined" "w' = wb"
    using assms by (cases srows; cases urows) auto
  then show ?thesis
    using t q1 q2 r by blast
qed

text \<open>
  Claim C9. When \<^verbatim>\<open>getSessionAndUser\<close> returns a session and a user, the user is the first
  row of the join without its \<^verbatim>\<open>__session_id\<close> property: every other column of the
  joined row is in the user, with its value and in its place, and \<^verbatim>\<open>__session_id\<close> is not.
\<close>

theorem getSessionAndUser_strips_session_id:
  assumes "getSessionAndUser env tbls sessionId w = (Inr (Some s', Some u), w')"
  shows "\<exists>t joined rest.
           session_table env tbls = Inr t
         \<and> fst (sql env (SelectUserJoin (ESCAPED_USER_TABLE_NAME env tbls) t) [sessionId]
                  (snd (sql env (SelectById t) [sessionId] w))) = Inr (joined # rest)
         \<and> u = filter (\<lambda>(c, v). c \<noteq> ''__session_id'') joined
         \<and> (\<forall>c. c \<noteq> ''__session_id'' \<longrightarrow> map_of u c = map_of joined c)
         \<and> map_of u ''__session_id'' = None
         \<and> ''__session_id'' \<notin> fst ` set u"
proof -
  obtain t s ss joined rest wa where p:
    "session_table env tbls = Inr t"
    "sql env (SelectById t) [sessionId] w = (Inr (s # ss), wa)"
    "sql env (SelectUserJoin (ESCAPED_USER_TABLE_NAME env tbls) t) [sessionId] wa
       = (Inr (joined # rest), w')"
    "u = strip_session_id joined"
    using getSessionAndUser_pair [OF assms] by blast
  have "''__session_id'' \<notin> fst ` set u"
    using p(4) by (auto simp: strip_session_id_def)
  then show ?thesis
    using p by (intro exI [of _ t] exI [of _ joined] exI [of _ rest])
      (simp add: map_of_strip_session_id, simp add: strip_session_id_def)
qed

lemma filter_unique_id:
  "distinct (map row_id rows)
     \<Longrightarrow> filter (matches ''id'' v) rows = []
         \<or> (\<exists>s\<in>set rows. filter (matches ''id'' v) rows = [s])"
proof (induction rows)
  case Nil
  then show ?case by simp
next
  case (Cons r rows)
  show ?case
  proof (cases "matches ''id'' v r")
    case True
    then have "row_id r = Some v" by (simp add: matches_def row_id_def)
    then have "Some v \<notin> set (map row_id rows)"
      using Cons.prems by simp
    then have "\<forall>x\<in>set rows. \<not> matches ''id'' v x"
      by (metis image_eqI matches_def row_id_def set_map)
    then have "filter (matches ''id'' v) rows = []"
      by (simp add: filter_empty_conv)
    then show ?thesis using True by simp
  next
    case False
    then show ?thesis using Cons by auto
  qed
qed

lemma join_rows_single:
  assumes "filter (matches ''id'' v) sessions = [s]"
    and "join_rows users sessions v = joined # rest"
  shows "\<exists>u x. u \<in> set users \<and> map_of s ''user_id'' = Some x \<and> map_of u ''id'' = Some x
             \<and> joined = AList.update ''__session_id'' v u"
proof -
  let ?P = "\<lambda>u. case map_of s ''user_id'' of None \<Rightarrow> False | Some x \<Rightarrow> matches ''id'' x u"
  have "join_rows users sessions v = map (AList.update ''__session_id'' v) (filter ?P users)"
    using assms(1) by (simp add: join_rows_def)
  then obtain u us where f: "filter ?P users = u # us" and j: "joined = AList.update ''__session_id'' v u"
    using assms(2) by (cases "filter ?P users") auto
  have "u \<in> set (filter ?P users)" using f by simp
  then have "u \<in> set users" and "?P u" by simp_all
  then show ?thesis
    using j by (auto simp: matches_def split: option.splits)
qed

lemma select_by_id_ref:
  "sql (ref_env esc unesc tds tbls) (SelectById t) [v] w
     = (Inr (filter (matches ''id'' v) (committed (ext w) t)),
        \<lparr>calls = calls w @ [SqlCall (SelectById t) [v]], ext = ext w\<rparr>)"
  by (simp add: sql_ref exec_stmt_def)

lemma select_join_ref:
  "sql (ref_env esc unesc tds tbls) (SelectUserJoin u t) [v] w
     = (Inr (join_rows (committed (ext w) u) (committed (ext w) t) v),
        \<lparr>calls = calls w @ [SqlCall (SelectUserJoin u t) [v]], ext = ext w\<rparr>)"
  by (simp add: sql_ref exec_stmt_def)

text \<open>
  Claim C4. When neither lookup throws, \<^verbatim>\<open>getSessionAndUser\<close> returns \<^verbatim>\<open>[null, null]\<close> if the
  session lookup or the join lookup yields no row, and otherwise the first session row
  passed through \<^verbatim>\<open>transformDatabaseSession\<close> together with the first joined row without
  its \<^verbatim>\<open>__session_id\<close>. Against the reference store, with unique session ids, the session
  returned is the stored one with the given id and the user's \<open>id\<close> is its \<open>user_id\<close>.
\<close>

theorem getSessionAndUser_result:
  "(session_table env tbls = Inr t
      \<and> sql env (SelectById t) [sessionId] w = (Inr srows, wa)
      \<and> sql env (SelectUserJoin (ESCAPED_USER_TABLE_NAME env tbls) t) [sessionId] wa
          = (Inr urows, wb)
    \<longrightarrow> (srows = [] \<or> urows = []
          \<longrightarrow> getSessionAndUser env tbls sessionId w = (Inr (None, None), wb))
       \<and> (\<forall>s ss u us. srows = s # ss \<and> urows = u # us
          \<longrightarrow> getSessionAndUser env tbls sessionId w
                = (Inr (Some (transformDatabaseSession env s), Some (strip_session_id u)), wb)))
   \<and> (session_table (ref_env esc unesc tds tbls) tbls = Inr t
      \<and> distinct (map row_id (committed (ext d) t))
      \<and> getSessionAndUser (ref_env esc unesc tds tbls) tbls sessionId d
          = (Inr (Some s', Some u'), d')
    \<longrightarrow> (\<exists>s\<in>set (committed (ext d) t).
           row_id s = Some sessionId \<and> s' = tds s
           \<and> map_of u' ''id'' = map_of s ''user_id'' \<and> map_of u' ''id'' \<noteq> None))"
proof (intro conjI impI)
  assume a: "session_table env tbls = Inr t
      \<and> sql env (SelectById t) [sessionId] w = (Inr srows, wa)
      \<and> sql env (SelectUserJoin (ESCAPED_USER_TABLE_NAME env tbls) t) [sessionId] wa
          = (Inr urows, wb)"
  then have r: "getSessionAndUser env tbls sessionId w =
           (Inr (case (srows, urows) of
                   (s # ss, u # us) \<Rightarrow>
                     (Some (transformDatabaseSession env s), Some (strip_session_id u))
                 | _ \<Rightarrow> (None, None)), wb)"
    using getSessionAndUser_rows [of env tbls t sessionId w srows wa urows wb] by blast
  show "getSessionAndUser env tbls sessionId w = (Inr (None, None), wb)"
    if "srows = [] \<or> urows = []"
    using that r by (auto split: list.splits)
  show "\<forall>s ss u us. srows = s # ss \<and> urows = u # us
          \<longrightarrow> getSessionAndUser env tbls sessionId w
                = (Inr (Some (transformDatabaseSession env s), Some (strip_session_id u)), wb)"
    using r by simp
next
  let ?E = "ref_env esc unesc tds tbls"
  let ?S = "committed (ext d)"
  assume a: "session_table ?E tbls = Inr t
      \<and> distinct (map row_id (?S t))
      \<and> getSessionAndUser ?E tbls sessionId d = (Inr (Some s', Some u'), d')"
  then obtain t' s ss joined rest wa where p:
    "session_table ?E tbls = Inr t'"
    "sql ?E (SelectById t') [sessionId] d = (Inr (s # ss), wa)"
    "sql ?E (SelectUserJoin (ESCAPED_USER_TABLE_NAME ?E tbls) t') [sessionId] wa
       = (Inr (joined # rest), d')"
    "s' = transformDatabaseSession ?E s"
    "u' = strip_session_id joined"
    using getSessionAndUser_pair [of ?E tbls sessionId d s' u' d'] by blast
  have tt: "t' = t" using a p(1) by simp
  have f: "filter (matches ''id'' sessionId) (?S t) = s # ss" and wa: "ext wa = ext d"
    using p(2) unfolding tt select_by_id_ref by auto
  then have single: "filter (matches ''id'' sessionId) (?S t) = [s]"
    using filter_unique_id [of "?S t" sessionId] a by auto
  have "s \<in> set (filter (matches ''id'' sessionId) (?S t))"
    using f by simp
  then have s: "s \<in> set (?S t)" "row_id s = Some sessionId"
    by (simp_all add: matches_def row_id_def)
  have "join_rows (?S (esc (user tbls))) (?S t) sessionId = joined # rest"
    using p(3) unfolding tt select_join_ref ref_names by (simp add: wa)
  then obtain u x where u: "map_of s ''user_id'' = Some x" "map_of u ''id'' = Some x"
    "joined = AList.update ''__session_id'' sessionId u"
    using join_rows_single [OF single] by blast
  have "map_of u' ''id'' = Some x"
    using p(5) u by (simp add: map_of_strip_session_id update_conv')
  then show "\<exists>s\<in>set (?S t). row_id s = Some sessionId \<and> s' = tds s
           \<and> map_of u' ''id'' = map_of s ''user_id'' \<and> map_of u' ''id'' \<noteq> None"
    using s u p(4) by (auto simp: ref_env_sel)
qed

lemma session_table_quoted:
  "session_table (quoted_env all_tables) all_tables = Inr (quote_name ''user_session'')"
  by (simp add: session_table_def ESCAPED_SESSION_TABLE_NAME_def quoted_env_def ref_env_sel
      all_tables_def quote_name_def)

lemma getSessionAndUser_sample:
  "getSessionAndUser (quoted_env all_tables) all_tables (JStr ''s1'') (start (db_of store_session))
     = (Inr (Some ((''fresh'', JBool True) # session_s1), Some user_ann),
        \<lparr>calls = [SqlCall (SelectById (quote_name ''user_session'')) [JStr ''s1''],
                  SqlCall (SelectUserJoin (quote_name ''auth_user'') (quote_name ''user_session''))
                    [JStr ''s1'']],
         ext = db_of store_session\<rparr>)"
  unfolding getSessionAndUser_def session_table_quoted
  by (simp add: ref_simps join_rows_def strip_session_id_def store_session_def store_ann_def
      session_s1_def user_ann_def)

theorem getSessionAndUser_result_witness:
  "getSessionAndUser scripted_env all_tables (JStr ''s1'') (start [Inr [], Inr [joined_ann]])
     = (Inr (None, None),
        \<lparr>calls = [SqlCall (SelectById (quote_name ''user_session'')) [JStr ''s1''],
                  SqlCall (SelectUserJoin (quote_name ''auth_user'') (quote_name ''user_session''))
                    [JStr ''s1'']],
         ext = []\<rparr>)
   \<and> (\<exists>s\<in>set (store_session (quote_name ''user_session'')).
         row_id s = Some (JStr ''s1'')
         \<and> map_of user_ann ''id'' = map_of s ''user_id'' \<and> map_of user_ann ''id'' \<noteq> None)"
proof -
  let ?t = "quote_name ''user_session''"
  let ?u = "quote_name ''auth_user''"
  let ?wa = "\<lparr>calls = [SqlCall (SelectById ?t) [JStr ''s1'']], ext = [Inr [joined_ann]]\<rparr>
               :: (jsval + row list) list world"
  let ?wb = "\<lparr>calls = [SqlCall (SelectById ?t) [JStr ''s1''],
                        SqlCall (SelectUserJoin ?u ?t) [JStr ''s1'']], ext = []\<rparr>
               :: (jsval + row list) list world"
  have st: "session_table scripted_env all_tables = Inr ?t"
    by (simp add: scripted_simps)
  have q1: "sql scripted_env (SelectById ?t) [JStr ''s1''] (start [Inr [], Inr [joined_ann]])
              = (Inr [], ?wa)"
    by (simp add: sql_def scripted_env_sel pop_def start_def)
  have q2: "sql scripted_env (SelectUserJoin (ESCAPED_USER_TABLE_NAME scripted_env all_tables) ?t)
              [JStr ''s1''] ?wa = (Inr [joined_ann], ?wb)"
    by (simp add: sql_def scripted_env_sel pop_def ESCAPED_USER_TABLE_NAME_def all_tables_def)
  note result = getSessionAndUser_result [where env = scripted_env and tbls = all_tables and t = ?t
      and sessionId = "JStr ''s1''" and w = "start [Inr [], Inr [joined_ann]]" and srows = "[]"
      and wa = ?wa and urows = "[joined_ann]" and wb = ?wb]
  have a: "getSessionAndUser scripted_env all_tables (JStr ''s1'')
             (start [Inr [], Inr [joined_ann]]) = (Inr (None, None), ?wb)"
    using conjunct1 [OF result] st q1 q2 by simp
  note stored = getSessionAndUser_result [where esc = quote_name and unesc = unquote_name
      and tds = "\<lambda>r. (''fresh'', JBool True) # r" and tbls = all_tables and t = ?t
      and sessionId = "JStr ''s1''" and d = "start (db_of store_session)"
      and s' = "(''fresh'', JBool True) # session_s1" and u' = user_ann,
      folded quoted_env_def]
  have d: "distinct (map row_id (committed (ext (start (db_of store_session))) ?t))"
    by (simp add: start_def db_of_def store_session_def)
  have "\<exists>s\<in>set (committed (ext (start (db_of store_session))) ?t).
         row_id s = Some (JStr ''s1'') \<and> (''fresh'', JBool True) # session_s1 = (''fresh'', JBool True) # s
         \<and> map_of user_ann ''id'' = map_of s ''user_id'' \<and> map_of user_ann ''id'' \<noteq> None"
    using conjunct2 [OF stored] session_table_quoted d getSessionAndUser_sample by blast
  then have "\<exists>s\<in>set (store_session ?t).
         row_id s = Some (JStr ''s1'')
         \<and> map_of user_ann ''id'' = map_of s ''user_id'' \<and> map_of user_ann ''id'' \<noteq> None"
    unfolding start_def db_of_def by (simp only: world.simps db.simps) blast
  then show ?thesis
    using a by (simp add: start_def)
qed

theorem getSessionAndUser_strips_session_id_witness:
  "getSessionAndUser scripted_env all_tables (JStr ''s1'')
       (start [Inr [session_s1], Inr [joined_ann]])
     = (Inr (Some ((''fresh'', JBool True) # session_s1), Some user_ann),
        \<lparr>calls = [SqlCall (SelectById (quote_name ''user_session'')) [JStr ''s1''],
                  SqlCall (SelectUserJoin (quote_name ''auth_user'') (quote_name ''user_session''))
                    [JStr ''s1'']],
         ext = []\<rparr>)
   \<and> map_of joined_ann ''__session_id'' = Some (JStr ''s1'')
   \<and> map_of user_ann ''__session_id'' = None
   \<and> ''__session_id'' \<notin> fst ` set user_ann"
proof -
  have r: "getSessionAndUser scripted_env all_tables (JStr ''s1'')
             (start [Inr [session_s1], Inr [joined_ann]])
     = (Inr (Some ((''fresh'', JBool True) # session_s1), Some user_ann),
        \<lparr>calls = [SqlCall (SelectById (quote_name ''user_session'')) [JStr ''s1''],
                  SqlCall (SelectUserJoin (quote_name ''auth_user'') (quote_name ''user_session''))
                    [JStr ''s1'']],
         ext = []\<rparr>)"
    by (simp add: getSessionAndUser_def scripted_simps scripted_env_sel get_def
        strip_session_id_def joined_ann_def user_ann_def)
  show ?thesis
    using r getSessionAndUser_strips_session_id [OF r]
    by (auto simp: joined_ann_def)
qed

subsection \<open>Updates\<close>

lemma map_of_set_fields:
  "distinct (map fst asg)
     \<Longrightarrow> map_of (set_fields asg r) c
         = (case map_of asg c of Some v \<Rightarrow> Some v | None \<Rightarrow> map_of r c)"
proof (induction asg arbitrary: r)
  case Nil
  then show ?case by (simp add: set_fields_def)
next
  case (Cons a asg)
  obtain c0 v0 where a: "a = (c0, v0)" by (cases a) auto
  have step: "set_fields (a # asg) r = set_fields asg (AList.update c0 v0 r)"
    by (simp add: set_fields_def a)
  have absent: "map_of asg c0 = None"
    using Cons.prems a by (simp add: map_of_eq_None_iff)
  show ?case
    unfolding step using Cons.IH [of "AList.update c0 v0 r"] Cons.prems absent
    by (simp add: a update_conv' split: option.splits)
qed

lemma exec_update_helper:
  assumes "distinct (map fst p)" and "\<forall>c\<in>set (map fst p). unescapeName sch (esc c) = c"
  shows "exec_stmt sch
           (UpdateById t (map esc (map fst p)) (map placeholder [0..<length p]) (Suc (length p)))
           (map snd p @ [v]) S
         = (if p = [] then (Inl syntax_error, S)
            else write_table sch S t
                   (map (\<lambda>r. if matches ''id'' v r then set_fields p r else r) (S t)))"
proof (cases "p = []")
  case True
  then show ?thesis by (simp add: exec_stmt_def assignments_def)
next
  case False
  have "(map snd p @ [v]) ! length p = v"
    by (metis length_map nth_append_length)
  then show ?thesis
    using False assignments_helper [OF False assms, of "[v]"]
    by (simp add: exec_stmt_def del: map_map)
qed

lemma update_ref:
  fixes esc unesc tds tbls p v t w
  defines "E \<equiv> ref_env esc unesc tds tbls"
    and "upd \<equiv> UpdateById t (map esc (map fst p)) (map placeholder [0..<length p])
                  (Suc (length p))"
    and "R \<equiv> rethrow (and_then (sql (ref_env esc unesc tds tbls)
                 (UpdateById t (map esc (map fst p)) (map placeholder [0..<length p])
                    (Suc (length p))) (map snd p @ [v]))
               (\<lambda>_ w'. (Inr (), w')) w)"
  assumes "distinct (map fst p)" and "\<forall>c\<in>set (map fst p). unesc (esc c) = c"
  shows "calls (snd R) = calls w @ [SqlCall upd (map snd p @ [v])]"
    and "fst R = Inr ()
           \<Longrightarrow> committed (ext (snd R))
               = (committed (ext w))
                   (t := map (\<lambda>r. if matches ''id'' v r then set_fields p r else r)
                           (committed (ext w) t))"
    and "fst R \<noteq> Inr () \<Longrightarrow> committed (ext (snd R)) = committed (ext w)"
proof -
  let ?sch = "ref_schema esc unesc tbls"
  let ?S = "committed (ext w)"
  let ?rows = "map (\<lambda>r. if matches ''id'' v r then set_fields p r else r) (?S t)"
  obtain r S' where ex: "exec_stmt ?sch upd (map snd p @ [v]) ?S = (r, S')"
    by (cases "exec_stmt ?sch upd (map snd p @ [v]) ?S") auto
  have R: "R = (case r of Inl e \<Rightarrow> Inl (Thrown e) | Inr _ \<Rightarrow> Inr (),
                \<lparr>calls = calls w @ [SqlCall upd (map snd p @ [v])],
                 ext = (ext w)\<lparr>committed := S'\<rparr>\<rparr>)"
    using ex unfolding R_def upd_def
    by (simp add: sql_ref and_then_def rethrow_def del: map_map split: sum.splits)
  have fR: "fst R = (case r of Inl e \<Rightarrow> Inl (Thrown e) | Inr _ \<Rightarrow> Inr ())"
    by (simp add: R)
  show "calls (snd R) = calls w @ [SqlCall upd (map snd p @ [v])]"
    by (simp add: R)
  have h: "exec_stmt ?sch upd (map snd p @ [v]) ?S
             = (if p = [] then (Inl syntax_error, ?S) else write_table ?sch ?S t ?rows)"
    unfolding upd_def using exec_update_helper [of p ?sch esc t v ?S] assms(4,5)
    by (simp add: ref_schema_sel)
  show "committed (ext (snd R)) = ?S(t := ?rows)" if "fst R = Inr ()"
  proof -
    have "\<exists>rs. r = Inr rs"
    proof (cases r)
      case (Inl e)
      then have "fst R = Inl (Thrown e)" using fR by simp
      then show ?thesis using that by simp
    next
      case (Inr rs)
      then show ?thesis by blast
    qed
    then obtain rs where r: "r = Inr rs" by blast
    then have "write_table ?sch ?S t ?rows = (Inr rs, S')"
      using ex h by (auto split: if_splits)
    then have "S' = ?S(t := ?rows)"
      using write_table_success by blast
    then show ?thesis by (simp add: R)
  qed
  show "committed (ext (snd R)) = ?S" if "fst R \<noteq> Inr ()"
  proof -
    have "\<exists>e. r = Inl e"
    proof (cases r)
      case (Inl e)
      then show ?thesis by blast
    next
      case (Inr rs)
      then have "fst R = Inr ()" using fR by simp
      then show ?thesis using that by simp
    qed
    then obtain e where r: "r = Inl e" by blast
    then have "S' = ?S"
      using ex exec_stmt_failure by blast
    then show ?thesis by (simp add: R)
  qed
qed

lemma update_calls:
  "calls (snd (updateUser env tbls userId p w))
     = calls w @ [SqlCall (UpdateById (ESCAPED_USER_TABLE_NAME env tbls)
                             (map (escapeName env) (map fst p))
                             (map placeholder [0..<length p]) (length p + 1))
                    (map snd p @ [userId])]"
  "calls (snd (updateKey env tbls keyId p w))
     = calls w @ [SqlCall (UpdateById (ESCAPED_KEY_TABLE_NAME env tbls)
                             (map (escapeName env) (map fst p))
                             (map placeholder [0..<length p]) (length p + 1))
                    (map snd p @ [keyId])]"
  "session_table env tbls = Inr t
     \<Longrightarrow> calls (snd (updateSession env tbls sessionId p w))
     = calls w @ [SqlCall (UpdateById t (map (escapeName env) (map fst p))
                             (map placeholder [0..<length p]) (length p + 1))
                    (map snd p @ [sessionId])]"
  by (simp_all add: updateUser_def updateKey_def updateSession_def helper_def
      rethrow_unit_world del: map_map)

lemma update_operations_ref:
  "updateUser (ref_env esc unesc tds tbls) tbls userId p w
     = rethrow (and_then (sql (ref_env esc unesc tds tbls)
                 (UpdateById (esc (user tbls)) (map esc (map fst p))
                    (map placeholder [0..<length p]) (Suc (length p))) (map snd p @ [userId]))
               (\<lambda>_ w'. (Inr (), w')) w)"
  "updateKey (ref_env esc unesc tds tbls) tbls keyId p w
     = rethrow (and_then (sql (ref_env esc unesc tds tbls)
                 (UpdateById (esc (key tbls)) (map esc (map fst p))
                    (map placeholder [0..<length p]) (Suc (length p))) (map snd p @ [keyId]))
               (\<lambda>_ w'. (Inr (), w')) w)"
  "session_table (ref_env esc unesc tds tbls) tbls = Inr t
     \<Longrightarrow> updateSession (ref_env esc unesc tds tbls) tbls sessionId p w
     = rethrow (and_then (sql (ref_env esc unesc tds tbls)
                 (UpdateById t (map esc (map fst p))
                    (map placeholder [0..<length p]) (Suc (length p))) (map snd p @ [sessionId]))
               (\<lambda>_ w'. (Inr (), w')) w)"
  by (simp_all add: updateUser_def updateKey_def updateSession_def helper_ref ref_names
      del: map_map)

text \<open>
  Claim C8. For any collaborators, \<^verbatim>\<open>updateUser\<close>, \<^verbatim>\<open>updateKey\<close> and \<^verbatim>\<open>updateSession\<close>
  issue one \<^verbatim>\<open>UPDATE\<close> whose \<^verbatim>\<open>SET\<close> list pairs each supplied field with the placeholder of
  its own value and whose \<^verbatim>\<open>WHERE\<close> placeholder is bound to the id. Against the reference
  store a successful update replaces, in the one table, each row with that id by the row
  with the supplied fields set: a supplied field gets the supplied value, every other
  field of the row keeps its value, and every other row and table is as before; a failed
  update changes nothing.
\<close>

theorem updates_set_supplied_fields:
  fixes esc unesc tds tbls partial userId keyId sessionId
  defines "E \<equiv> ref_env esc unesc tds tbls"
  assumes "distinct (map fst partial)" and "\<forall>c\<in>set (map fst partial). unesc (esc c) = c"
  shows "calls (snd (updateUser env tbls userId partial v))
           = calls v @ [SqlCall (UpdateById (ESCAPED_USER_TABLE_NAME env tbls)
                                   (map (escapeName env) (map fst partial))
                                   (map placeholder [0..<length partial]) (length partial + 1))
                          (map snd partial @ [userId])]
       \<and> calls (snd (updateKey env tbls keyId partial v))
           = calls v @ [SqlCall (UpdateById (ESCAPED_KEY_TABLE_NAME env tbls)
                                   (map (escapeName env) (map fst partial))
                                   (map placeholder [0..<length partial]) (length partial + 1))
                          (map snd partial @ [keyId])]
       \<and> (session_table env tbls = Inr t
          \<longrightarrow> calls (snd (updateSession env tbls sessionId partial v))
                = calls v @ [SqlCall (UpdateById t (map (escapeName env) (map fst partial))
                                        (map placeholder [0..<length partial])
                                        (length partial + 1))
                               (map snd partial @ [sessionId])])
       \<and> (fst (updateUser E tbls userId partial w) = Inr ()
          \<longrightarrow> committed (ext (snd (updateUser E tbls userId partial w)))
                = (committed (ext w))
                    (esc (user tbls) :=
                       map (\<lambda>r. if matches ''id'' userId r then set_fields partial r else r)
                         (committed (ext w) (esc (user tbls)))))
       \<and> (fst (updateUser E tbls userId partial w) \<noteq> Inr ()
          \<longrightarrow> committed (ext (snd (updateUser E tbls userId partial w))) = committed (ext w))
       \<and> (fst (updateKey E tbls keyId partial w) = Inr ()
          \<longrightarrow> committed (ext (snd (updateKey E tbls keyId partial w)))
                = (committed (ext w))
                    (esc (key tbls) :=
                       map (\<lambda>r. if matches ''id'' keyId r then set_fields partial r else r)
                         (committed (ext w) (esc (key tbls)))))
       \<and> (fst (updateKey E tbls keyId partial w) \<noteq> Inr ()
          \<longrightarrow> committed (ext (snd (updateKey E tbls keyId partial w))) = committed (ext w))
       \<and> (session_table E tbls = Inr s
          \<longrightarrow> (fst (updateSession E tbls sessionId partial w) = Inr ()
                 \<longrightarrow> committed (ext (snd (updateSession E tbls sessionId partial w)))
                       = (committed (ext w))
                           (s := map (\<lambda>r. if matches ''id'' sessionId r
                                          then set_fields partial r else r)
                                   (committed (ext w) s)))
              \<and> (fst (updateSession E tbls sessionId partial w) \<noteq> Inr ()
                 \<longrightarrow> committed (ext (snd (updateSession E tbls sessionId partial w)))
                       = committed (ext w)))
       \<and> (\<forall>r c. map_of (set_fields partial r) c
                  = (case map_of partial c of Some x \<Rightarrow> Some x | None \<Rightarrow> map_of r c))"
proof -
  note u = update_ref(2,3) [where p = partial and esc = esc and unesc = unesc and tds = tds
      and tbls = tbls and t = "esc (user tbls)" and v = userId and w = w, OF assms(2,3),
      folded update_operations_ref(1)]
  note k = update_ref(2,3) [where p = partial and esc = esc and unesc = unesc and tds = tds
      and tbls = tbls and t = "esc (key tbls)" and v = keyId and w = w, OF assms(2,3),
      folded update_operations_ref(2)]
  have s: "(fst (updateSession E tbls sessionId partial w) = Inr ()
                 \<longrightarrow> committed (ext (snd (updateSession E tbls sessionId partial w)))
                       = (committed (ext w))
                           (s := map (\<lambda>r. if matches ''id'' sessionId r
                                          then set_fields partial r else r)
                                   (committed (ext w) s)))
              \<and> (fst (updateSession E tbls sessionId partial w) \<noteq> Inr ()
                 \<longrightarrow> committed (ext (snd (updateSession E tbls sessionId partial w)))
                       = committed (ext w))"
    if st: "session_table E tbls = Inr s"
    using update_ref(2,3) [where p = partial and esc = esc and unesc = unesc and tds = tds
        and tbls = tbls and t = s and v = sessionId and w = w, OF assms(2,3),
        folded update_operations_ref(3) [OF st [unfolded E_def]]]
    unfolding E_def by simp
  have m: "\<forall>r c. map_of (set_fields partial r) c
                  = (case map_of partial c of Some x \<Rightarrow> Some x | None \<Rightarrow> map_of r c)"
    using map_of_set_fields [OF assms(2)] by blast
  show ?thesis
    using u k s m update_calls [where env = env and tbls = tbls and p = partial and w = v]
    unfolding E_def by simp
qed

theorem updates_set_supplied_fields_witness:
  "distinct (map fst partial_ann)
   \<and> fst (updateUser (quoted_env all_tables) all_tables (JStr ''u1'') partial_ann
            (start (db_of store_ann))) = Inr ()
   \<and> committed (ext (snd (updateUser (quoted_env all_tables) all_tables (JStr ''u1'') partial_ann
                             (start (db_of store_ann)))))
       = store_ann(quote_name ''auth_user'' :=
                     [[(''id'', JStr ''u1''), (''name'', JStr ''Bob''), (''age'', JNum 3)]])
   \<and> map_of (set_fields partial_ann user_ann) ''id'' = map_of user_ann ''id''"
proof -
  let ?R = "updateUser (quoted_env all_tables) all_tables (JStr ''u1'') partial_ann
              (start (db_of store_ann))"
  have wf: "distinct (map fst partial_ann)"
    "\<forall>c\<in>set (map fst partial_ann). unquote_name (quote_name c) = c"
    by (simp_all add: partial_ann_def)
  have ok: "fst ?R = Inr ()"
    by (simp add: updateUser_def ref_simps set_fields_def store_ann_def user_ann_def
        partial_ann_def)
  note upd = updates_set_supplied_fields [where partial = partial_ann and esc = quote_name
      and unesc = unquote_name and tds = "\<lambda>r. (''fresh'', JBool True) # r"
      and tbls = all_tables and userId = "JStr ''u1''" and w = "start (db_of store_ann)",
      OF wf, folded quoted_env_def]
  have "committed (ext (snd ?R))
          = (committed (ext (start (db_of store_ann))))
              (quote_name (user all_tables) :=
                 map (\<lambda>r. if matches ''id'' (JStr ''u1'') r then set_fields partial_ann r else r)
                   (committed (ext (start (db_of store_ann))) (quote_name (user all_tables))))"
    using conjunct1 [OF conjunct2 [OF conjunct2 [OF conjunct2 [OF upd]]]] ok by blast
  then have c: "committed (ext (snd ?R))
      = store_ann(quote_name ''auth_user'' :=
                    [[(''id'', JStr ''u1''), (''name'', JStr ''Bob''), (''age'', JNum 3)]])"
    by (simp add: start_def db_of_def store_ann_def all_tables_def matches_def is_null_def
        user_ann_def set_fields_def partial_ann_def)
  have "\<forall>r c. map_of (set_fields partial_ann r) c
                 = (case map_of partial_ann c of Some v \<Rightarrow> Some v | None \<Rightarrow> map_of r c)"
    using upd by blast
  then have m: "map_of (set_fields partial_ann user_ann) ''id'' = map_of user_ann ''id''"
    by (simp add: partial_ann_def)
  show ?thesis
    using wf(1) ok c m by simp
qed

subsection \<open>Statement texts\<close>

lemma statement_text_samples:
  "sql_text (InsertInto ''auth_user'' [''id'', ''name''] [placeholder 0, placeholder 1])
     = ''INSERT INTO auth_user ( id,name ) VALUES ( $1,$2 )''"
  "sql_text (UpdateById ''auth_user'' [''name'', ''age''] [placeholder 0, placeholder 1] 3)
     = ''UPDATE auth_user SET name = $1,age = $2 WHERE id = $3''"
  "sql_text (UpdateById ''auth_user'' [] [] 1) = ''UPDATE auth_user SET  WHERE id = $1''"
  "sql_text (SelectUserJoin ''u'' ''s'')
     = ''SELECT u.*, s.id as __session_id FROM s INNER JOIN u ON u.id = s.user_id WHERE s.id = $1''"
  by (simp_all add: getSetArgs_def placeholder_small string_of_nat_small)

end
